(* ===== verification/Prelude.thy ===== *)
theory Prelude
  imports Main "HOL-Library.Word"
begin

text \<open>
  Shared vocabulary of the development: Python strings as lists of code points, \<open>bytes\<close>
  as lists of 8-bit words, exceptions as the left side of a sum with the \<open>check\<close> and
  sequencing combinators the components are written in, and the generic facts about
  slices, decimal numbers and lists that several components use.
\<close>

named_theorems exc_simps \<open>inversion rules of the exception combinators\<close>
named_theorems raises \<open>introduction rules for the exceptions of a computation\<close>
named_theorems slice_simps \<open>evaluation of byte slices\<close>

section \<open>Python strings\<close>

text \<open>
  A Python \<open>str\<close> is a list of Unicode code points. \<open>Ch c\<close> is one of the first 256 code
  points, so that literals are written as \<open>py ''text''\<close>; \<open>Wide n\<close> is code point
  \<open>256 + n\<close>. Every code point has exactly one representation.
\<close>

datatype pychar = Ch char | Wide nat

primrec code_of :: "pychar \<Rightarrow> nat" where
  "code_of (Ch c) = of_char c"
| "code_of (Wide n) = 256 + n"

type_synonym pystr = "pychar list"

abbreviation py :: "string \<Rightarrow> pystr" where
  "py s \<equiv> map Ch s"

lemma of_char_nat_less [simp]: "(of_char c :: nat) < 256"
  using of_char_mod_256 [of c] by (metis mod_less_divisor zero_less_numeral)

lemma code_of_inj: "code_of a = code_of b \<Longrightarrow> a = b"
proof (cases a; cases b)
  fix c n assume "code_of a = code_of b" "a = Ch c" "b = Wide n"
  then have "(of_char c :: nat) = 256 + n" by simp
  then show "a = b" using of_char_nat_less [of c] by linarith
next
  fix c n assume "code_of a = code_of b" "a = Wide n" "b = Ch c"
  then have "(of_char c :: nat) = 256 + n" by simp
  then show "a = b" using of_char_nat_less [of c] by linarith
qed auto

text \<open>Python compares characters by code point.\<close>

instantiation pychar :: linorder
begin

definition less_eq_pychar :: "pychar \<Rightarrow> pychar \<Rightarrow> bool" where
  "less_eq_pychar a b \<longleftrightarrow> code_of a \<le> code_of b"

definition less_pychar :: "pychar \<Rightarrow> pychar \<Rightarrow> bool" where
  "less_pychar a b \<longleftrightarrow> code_of a < code_of b"

instance
  by standard (auto simp: less_eq_pychar_def less_pychar_def dest: code_of_inj)

end

lemma inj_Ch [simp]: "inj Ch"
  by (simp add: inj_def)

definition is_ascii :: "pychar \<Rightarrow> bool" where
  "is_ascii c \<longleftrightarrow> code_of c < 128"

text \<open>\<open>str.upper\<close> on ASCII text: the letters a to z move down by 32, the rest stays.\<close>

definition upper_char :: "pychar \<Rightarrow> pychar" where
  "upper_char c = (if 97 \<le> code_of c \<and> code_of c \<le> 122 then Ch (char_of (code_of c - 32)) else c)"

definition ascii_upper :: "pystr \<Rightarrow> pystr" where
  "ascii_upper s = map upper_char s"

lemma code_of_upper:
  "code_of (upper_char c) = (if 97 \<le> code_of c \<and> code_of c \<le> 122 then code_of c - 32 else code_of c)"
  by (auto simp: upper_char_def)

lemma upper_char_idem [simp]: "upper_char (upper_char c) = upper_char c"
  by (rule code_of_inj) (auto simp: code_of_upper)

lemma ascii_upper_idem [simp]: "ascii_upper (ascii_upper s) = ascii_upper s"
  by (simp add: ascii_upper_def)

lemma upper_char_ascii [simp]: "is_ascii (upper_char c) \<longleftrightarrow> is_ascii c"
  by (auto simp: is_ascii_def code_of_upper)

text \<open>\<open>s.split(sep)\<close> for a one-character separator: always at least one part.\<close>

fun split_on :: "'a \<Rightarrow> 'a list \<Rightarrow> 'a list list" where
  "split_on c [] = [[]]"
| "split_on c (x # xs) =
     (if x = c then [] # split_on c xs
      else (case split_on c xs of [] \<Rightarrow> [[x]] | p # ps \<Rightarrow> (x # p) # ps))"

fun join_with :: "'a list \<Rightarrow> 'a list list \<Rightarrow> 'a list" where
  "join_with sep [] = []"
| "join_with sep [p] = p"
| "join_with sep (p # q # ps) = p @ sep @ join_with sep (q # ps)"

lemma split_on_ne [simp]: "split_on c xs \<noteq> []"
  by (induction xs) (auto split: list.splits)

lemma split_on_no_sep: "c \<notin> set p \<Longrightarrow> split_on c p = [p]"
  by (induction p) auto

lemma split_on_append: "c \<notin> set p \<Longrightarrow> split_on c (p @ c # xs) = p # split_on c xs"
  by (induction p) auto

lemma split_on_parts: "p \<in> set (split_on c xs) \<Longrightarrow> c \<notin> set p"
  by (induction xs arbitrary: p) (auto split: list.splits if_splits)

lemma split_join:
  "ps \<noteq> [] \<Longrightarrow> \<forall>p\<in>set ps. c \<notin> set p \<Longrightarrow> split_on c (join_with [c] ps) = ps"
  by (induction "[c]" ps rule: join_with.induct) (auto simp: split_on_no_sep split_on_append)

section \<open>Exceptions\<close>

text \<open>
  A computation that can raise is a value of \<open>'e + 'a\<close>: \<open>Inl\<close> of the exception or \<open>Inr\<close>
  of the result. \<open>ensure b e k\<close> is \<open>check(b, e)\<close> followed by \<open>k\<close>, and \<open>ebind\<close>
  sequences two computations.
\<close>

definition ensure :: "bool \<Rightarrow> 'e \<Rightarrow> 'e + 'a \<Rightarrow> 'e + 'a" where
  "ensure b e k = (if b then k else Inl e)"

definition ebind :: "'e + 'a \<Rightarrow> ('a \<Rightarrow> 'e + 'b) \<Rightarrow> 'e + 'b" where
  "ebind m f = (case m of Inl e \<Rightarrow> Inl e | Inr x \<Rightarrow> f x)"

fun emap :: "('a \<Rightarrow> 'e + 'b) \<Rightarrow> 'a list \<Rightarrow> 'e + 'b list" where
  "emap f [] = Inr []"
| "emap f (x # xs) = ebind (f x) (\<lambda>y. ebind (emap f xs) (\<lambda>ys. Inr (y # ys)))"

text \<open>A loop whose body can raise.\<close>

fun efold :: "('s \<Rightarrow> 'a \<Rightarrow> 'e + 's) \<Rightarrow> 's \<Rightarrow> 'a list \<Rightarrow> 'e + 's" where
  "efold f st [] = Inr st"
| "efold f st (x # xs) = ebind (f st x) (\<lambda>st'. efold f st' xs)"

lemma ensure_cong [fundef_cong]:
  "\<lbrakk>b = b'; e = e'; b' \<Longrightarrow> k = k'\<rbrakk> \<Longrightarrow> ensure b e k = ensure b' e' k'"
  by (simp add: ensure_def)

lemma ebind_cong [fundef_cong]:
  "\<lbrakk>m = m'; \<And>x. m' = Inr x \<Longrightarrow> f x = g x\<rbrakk> \<Longrightarrow> ebind m f = ebind m' g"
  by (simp add: ebind_def split: sum.split)

lemma ensure_simps [simp]: "ensure True e k = k" "ensure False e k = Inl e"
  by (simp_all add: ensure_def)

lemma ebind_simps [simp]: "ebind (Inl e) f = Inl e" "ebind (Inr x) f = f x"
  by (simp_all add: ebind_def)

lemma ensure_Inr [exc_simps]: "ensure b e k = Inr x \<longleftrightarrow> b \<and> k = Inr x"
  by (simp add: ensure_def)

lemma ensure_Inl [exc_simps]: "ensure b e k = Inl x \<longleftrightarrow> (b \<and> k = Inl x) \<or> (\<not> b \<and> e = x)"
  by (auto simp: ensure_def)

lemma ebind_Inr [exc_simps]: "ebind m f = Inr y \<longleftrightarrow> (\<exists>x. m = Inr x \<and> f x = Inr y)"
  by (auto simp: ebind_def split: sum.split)

lemma ebind_Inl [exc_simps]: "ebind m f = Inl y \<longleftrightarrow> m = Inl y \<or> (\<exists>x. m = Inr x \<and> f x = Inl y)"
  by (auto simp: ebind_def split: sum.split)

lemma efold_append: "efold f st (xs @ ys) = ebind (efold f st xs) (\<lambda>st'. efold f st' ys)"
  by (induction xs arbitrary: st) (auto simp: ebind_def split: sum.splits)

lemma efold_snoc [simp]: "efold f st (xs @ [x]) = ebind (efold f st xs) (\<lambda>st'. f st' x)"
  by (auto simp: efold_append ebind_def split: sum.splits)

lemma emap_Inr: "emap f xs = Inr ys \<longleftrightarrow> map f xs = map Inr ys"
  by (induction xs arbitrary: ys) (auto simp: exc_simps)

lemma emap_Inl: "emap f xs = Inl e \<Longrightarrow> \<exists>x\<in>set xs. f x = Inl e"
  by (induction xs) (auto simp: exc_simps)

lemma emap_all_Inr: "(\<And>x. x \<in> set xs \<Longrightarrow> f x = Inr (g x)) \<Longrightarrow> emap f xs = Inr (map g xs)"
  by (simp add: emap_Inr)

text \<open>The exceptions a computation can raise, derived along its structure.\<close>

definition raises_only :: "('e \<Rightarrow> bool) \<Rightarrow> 'e + 'a \<Rightarrow> bool" where
  "raises_only P m \<longleftrightarrow> (\<forall>e. m = Inl e \<longrightarrow> P e)"

lemma raises_onlyD: "raises_only P m \<Longrightarrow> m = Inl e \<Longrightarrow> P e"
  by (simp add: raises_only_def)

lemma raises_only_Inr [raises]: "raises_only P (Inr x)"
  by (simp add: raises_only_def)

lemma raises_only_ensure [raises]:
  "P e \<Longrightarrow> (b \<Longrightarrow> raises_only P k) \<Longrightarrow> raises_only P (ensure b e k)"
  by (auto simp: raises_only_def ensure_Inl)

lemma raises_only_ebind [raises]:
  "raises_only P m \<Longrightarrow> (\<And>x. m = Inr x \<Longrightarrow> raises_only P (f x)) \<Longrightarrow> raises_only P (ebind m f)"
  by (auto simp: raises_only_def ebind_Inl)

lemma raises_only_if [raises]:
  "(b \<Longrightarrow> raises_only P m) \<Longrightarrow> (\<not> b \<Longrightarrow> raises_only P n) \<Longrightarrow> raises_only P (if b then m else n)"
  by simp

section \<open>Bytes\<close>

type_synonym byte = "8 word"
type_synonym bytes = "byte list"

text \<open>\<open>data[i:j]\<close> for non-negative bounds: both ends are clamped to the length.\<close>

definition pyslice :: "'a list \<Rightarrow> nat \<Rightarrow> nat \<Rightarrow> 'a list" where
  "pyslice xs i j = take (j - i) (drop i xs)"

lemma length_slice [simp]: "length (pyslice xs i j) = min (j - i) (length xs - i)"
  by (simp add: pyslice_def)

lemma nth_slice: "i + k < j \<Longrightarrow> i + k < length xs \<Longrightarrow> pyslice xs i j ! k = xs ! (i + k)"
  by (simp add: pyslice_def)

lemma slice_slice: "i + j' \<le> j \<Longrightarrow> pyslice (pyslice xs i j) i' j' = pyslice xs (i + i') (i + j')"
proof (rule nth_equalityI)
  fix k assume j: "i + j' \<le> j" and k: "k < length (pyslice (pyslice xs i j) i' j')"
  then have "i' + k < j'" "i + (i' + k) < length xs" "i' + k < length (pyslice xs i j)" by auto
  with j show "pyslice (pyslice xs i j) i' j' ! k = pyslice xs (i + i') (i + j') ! k"
    by (simp add: nth_slice add.assoc)
qed auto

lemma slice_append1 [slice_simps]: "j \<le> length xs \<Longrightarrow> pyslice (xs @ ys) i j = pyslice xs i j"
  by (simp add: pyslice_def)

lemma slice_append2 [slice_simps]:
  "length xs \<le> i \<Longrightarrow> pyslice (xs @ ys) i j = pyslice ys (i - length xs) (j - length xs)"
  by (simp add: pyslice_def)

lemma slice_all [slice_simps]: "i = 0 \<Longrightarrow> length xs \<le> j \<Longrightarrow> pyslice xs i j = xs"
  by (simp add: pyslice_def)

lemma slice_replicate [slice_simps]:
  "pyslice (replicate n x) i j = replicate (min (j - i) (n - i)) x"
  by (simp add: pyslice_def)

text \<open>\<open>bytes.rstrip\<close>: drop the trailing bytes that satisfy \<open>p\<close>.\<close>

definition rstrip_by :: "('a \<Rightarrow> bool) \<Rightarrow> 'a list \<Rightarrow> 'a list" where
  "rstrip_by p xs = rev (dropWhile p (rev xs))"

lemma set_rstrip_by: "set (rstrip_by p xs) \<subseteq> set xs"
  unfolding rstrip_by_def using set_dropWhileD by fastforce

section \<open>Decimal numbers\<close>

text \<open>\<open>str(n)\<close> of a non-negative integer.\<close>

definition digit_char :: "nat \<Rightarrow> pychar" where
  "digit_char d = Ch (char_of (48 + d))"

fun show_nat :: "nat \<Rightarrow> pystr" where
  "show_nat n = (if n < 10 then [digit_char n] else show_nat (n div 10) @ [digit_char (n mod 10)])"

declare show_nat.simps [simp del]

lemma code_of_digit [simp]: "d < 10 \<Longrightarrow> code_of (digit_char d) = 48 + d"
  by (simp add: digit_char_def)

lemma show_nat_ne [simp]: "show_nat n \<noteq> []"
  by (subst show_nat.simps) simp

end
