(* ===== verification/Fat16.thy ===== *)
theory Fat16
  imports Prelude
begin

unbundle bit_operations_syntax

text \<open>
  The FAT16 volume reader of \<open>scripts/qualify-native/fat16.py\<close>: the boot sector checks of
  \<open>FAT16.__init__\<close>, the FAT accessors, \<open>chain\<close>, \<open>name\<close> and the recursive directory
  \<open>walk\<close>. The mutable attributes \<open>claimed\<close>, \<open>files\<close>, \<open>entries\<close> and \<open>paths\<close> are the
  record \<open>vstate\<close>, passed and returned; the geometry attributes, which are set once, are the
  record \<open>geom\<close>. Every message of \<open>check\<close> is a constructor of \<open>esp_msg\<close>; the other
  exceptions the operations could raise are constructors of \<open>exc\<close>. Those the host raises carry their class
  and text: \<open>OSError\<close> stands for it and its subclasses, \<open>OtherExc\<close> for any other class.
\<close>

section \<open>Data\<close>

datatype esp_msg =
    InputExceeds nat pystr
  | NotAbsolute pystr
  | InvalidVolumePath pystr
  | InvalidImageSize
  | MissingBootSignature
  | SectorSizeUnsupported
  | InvalidSectorsPerCluster
  | ReservedOrFatCount
  | RootEntryCount
  | TotalSectorFields
  | DeclaredSizeDiffers
  | HiddenSectors
  | SectorsPerFatZero
  | MetadataOutsideImage
  | ClusterCountNotFat16
  | FatTooShort
  | FatCopiesDiffer
  | InvalidReservedEntries
  | UnreachableCluster nat
  | ClusterOutside nat
  | ClusterBeyondImage
  | ReservedCluster nat pystr
  | ChainCycle pystr nat
  | CrossLinked nat pystr "pystr option"
  | BadFatLink nat pystr
  | NonAsciiName
  | NamePadding
  | NameCharacter
  | LowercaseName
  | NestingTooDeep
  | LfnUnsupported
  | UnsupportedAttributes nat
  | NameCaseFields
  | DuplicateEntryPath pystr
  | InvalidDotEntry
  | DotClusterMismatch
  | TooManyEntries
  | EmptyFileCluster pystr
  | ChainLengthMismatch pystr
  | DirectoryNonzeroSize pystr
  | MissingDotEntries pystr
  | DuplicateExpectedPath pystr

datatype exc =
    InvalidESP esp_msg
  | StructError
  | IndexError
  | UnicodeError
  | OSError pystr pystr
  | OtherExc pystr pystr

record geom =
  g_data :: bytes
  g_cluster_bytes :: nat
  g_root_entries :: nat
  g_fat_offset :: nat
  g_fat_bytes :: nat
  g_root_offset :: nat
  g_data_offset :: nat
  g_cluster_count :: nat

datatype entry_type = Directory | File

record dentry =
  e_path :: pystr
  e_raw_name83 :: pystr
  e_offset :: nat
  e_cluster :: nat
  e_size :: nat
  e_type :: entry_type
  e_clusters :: "nat list"
  e_sha256 :: "pystr option"

record vstate =
  v_claimed :: "nat \<rightharpoonup> pystr"
  v_files :: "pystr \<rightharpoonup> bytes"
  v_entries :: "dentry list"
  v_paths :: "pystr set"

definition init_vstate :: vstate where
  "init_vstate = \<lparr>v_claimed = Map.empty, v_files = Map.empty, v_entries = [], v_paths = {}\<rparr>"

definition MAX_IMAGE :: nat where
  "MAX_IMAGE = 128 * 1024 * 1024"

section \<open>Reading the image\<close>

definition byte_at :: "bytes \<Rightarrow> nat \<Rightarrow> exc + nat" where
  "byte_at data i = (if i < length data then Inr (unat (data ! i)) else Inl IndexError)"

definition u16 :: "bytes \<Rightarrow> nat \<Rightarrow> exc + nat" where
  "u16 data off =
     (if off + 2 \<le> length data then Inr (unat (data ! off) + 256 * unat (data ! (off + 1)))
      else Inl StructError)"

definition u32 :: "bytes \<Rightarrow> nat \<Rightarrow> exc + nat" where
  "u32 data off =
     (if off + 4 \<le> length data
      then Inr (unat (data ! off) + 2 ^ 8 * unat (data ! (off + 1)) +
                2 ^ 16 * unat (data ! (off + 2)) + 2 ^ 24 * unat (data ! (off + 3)))
      else Inl StructError)"

text \<open>\<open>bytes.decode("ascii")\<close>\<close>

definition decode_ascii :: "bytes \<Rightarrow> exc + pystr" where
  "decode_ascii bs =
     (if \<forall>b\<in>set bs. unat b < 128 then Inr (map (\<lambda>b. Ch (char_of (unat b))) bs)
      else Inl UnicodeError)"

definition fat :: "geom \<Rightarrow> nat \<Rightarrow> exc + nat" where
  "fat g cluster = u16 (g_data g) (g_fat_offset g + cluster * 2)"

definition cluster_offset :: "geom \<Rightarrow> nat \<Rightarrow> exc + nat" where
  "cluster_offset g cluster =
     ensure (2 \<le> cluster \<and> cluster < g_cluster_count g + 2) (InvalidESP (ClusterOutside cluster))
     (let offset = g_data_offset g + (cluster - 2) * g_cluster_bytes g
      in ensure (offset + g_cluster_bytes g \<le> length (g_data g)) (InvalidESP ClusterBeyondImage)
         (Inr offset))"

text \<open>
  The checks of \<open>__init__\<close> up to the comparison with the media byte, in the order of the
  source. \<open>total16 or total32\<close> is the first of the two that is not zero.
\<close>

definition read_geometry :: "bytes \<Rightarrow> exc + geom" where
  "read_geometry data =
   ensure (512 \<le> length data \<and> length data \<le> MAX_IMAGE) (InvalidESP InvalidImageSize)
   (ensure (pyslice data 510 512 = [0x55, 0xAA]) (InvalidESP MissingBootSignature)
   (ebind (u16 data 11) (\<lambda>sector_bytes.
    ensure (sector_bytes = 512) (InvalidESP SectorSizeUnsupported)
   (ebind (byte_at data 13) (\<lambda>spc.
    ensure (spc \<in> {1, 2, 4, 8, 16, 32, 64, 128}) (InvalidESP InvalidSectorsPerCluster)
   (ebind (u16 data 14) (\<lambda>reserved. ebind (byte_at data 16) (\<lambda>nfats. ebind (u16 data 17) (\<lambda>roots.
    ensure (reserved \<ge> 1 \<and> nfats = 2) (InvalidESP ReservedOrFatCount)
   (ensure (0 < roots \<and> roots \<le> 4096 \<and> roots mod 16 = 0) (InvalidESP RootEntryCount)
   (ebind (u16 data 19) (\<lambda>total16. ebind (u32 data 32) (\<lambda>total32.
    ensure ((total16 \<noteq> 0) \<noteq> (total32 \<noteq> 0)) (InvalidESP TotalSectorFields)
   (let total = (if total16 \<noteq> 0 then total16 else total32) in
    ensure (total * 512 = length data) (InvalidESP DeclaredSizeDiffers)
   (ebind (u32 data 28) (\<lambda>hidden.
    ensure (hidden = 0) (InvalidESP HiddenSectors)
   (ebind (u16 data 22) (\<lambda>fat_sectors.
    ensure (fat_sectors > 0) (InvalidESP SectorsPerFatZero)
   (let cluster_bytes = 512 * spc;
        fat_offset = reserved * 512;
        fat_bytes = fat_sectors * 512;
        root_offset = (reserved + nfats * fat_sectors) * 512;
        data_offset = root_offset + roots * 32 in
    ensure (data_offset < length data) (InvalidESP MetadataOutsideImage)
   (let cluster_count = (length data - data_offset) div cluster_bytes in
    ensure (4085 \<le> cluster_count \<and> cluster_count < 65525) (InvalidESP ClusterCountNotFat16)
   (ensure ((cluster_count + 2) * 2 \<le> fat_bytes) (InvalidESP FatTooShort)
   (ensure (pyslice data fat_offset (fat_offset + fat_bytes) =
            pyslice data (fat_offset + fat_bytes) root_offset) (InvalidESP FatCopiesDiffer)
   (let g = \<lparr>g_data = data, g_cluster_bytes = cluster_bytes, g_root_entries = roots,
             g_fat_offset = fat_offset, g_fat_bytes = fat_bytes, g_root_offset = root_offset,
             g_data_offset = data_offset, g_cluster_count = cluster_count\<rparr> in
    ebind (fat g 0) (\<lambda>f0. ebind (byte_at data 21) (\<lambda>media.
    ensure (f0 = 0xFF00 OR media) (InvalidESP InvalidReservedEntries)
   (ebind (fat g 1) (\<lambda>f1.
    ensure (f1 \<ge> 0xFFF8) (InvalidESP InvalidReservedEntries)
   (Inr g))))))))))))))))))))))))))))"

section \<open>Cluster chains\<close>

text \<open>
  The loop of \<open>chain\<close>, with the local \<open>seen\<close> and \<open>clusters\<close> and the attribute
  \<open>claimed\<close> as arguments. It ends because every round claims a data cluster that was not
  claimed before.
\<close>

definition unclaimed :: "geom \<Rightarrow> (nat \<rightharpoonup> pystr) \<Rightarrow> nat set" where
  "unclaimed g claimed = {c. 2 \<le> c \<and> c < g_cluster_count g + 2 \<and> claimed c = None}"

lemma finite_unclaimed [simp]: "finite (unclaimed g cl)"
  by (rule finite_subset [of _ "{..<g_cluster_count g + 2}"]) (auto simp: unclaimed_def)

lemma unclaimed_decreases:
  "\<lbrakk>2 \<le> c; c < g_cluster_count g + 2; cl c = None\<rbrakk> \<Longrightarrow>
   card (unclaimed g (cl(c \<mapsto> x))) < card (unclaimed g cl)"
  by (rule psubset_card_mono) (auto simp: unclaimed_def)

function chain_loop ::
  "geom \<Rightarrow> pystr \<Rightarrow> nat \<Rightarrow> nat set \<Rightarrow> nat list \<Rightarrow> (nat \<rightharpoonup> pystr) \<Rightarrow> exc + (nat list \<times> (nat \<rightharpoonup> pystr))" where
  "chain_loop g owner current seen clusters claimed =
     ensure (current < 0xFFF0) (InvalidESP (ReservedCluster current owner))
    (ebind (cluster_offset g current) (\<lambda>_.
     ensure (current \<notin> seen) (InvalidESP (ChainCycle owner current))
    (ensure (claimed current = None) (InvalidESP (CrossLinked current owner (claimed current)))
    (ebind (fat g current) (\<lambda>following.
     if following \<ge> 0xFFF8 then Inr (clusters @ [current], claimed(current \<mapsto> owner))
     else
     ensure (2 \<le> following \<and> following < 0xFFF0) (InvalidESP (BadFatLink following owner))
    (chain_loop g owner following (insert current seen) (clusters @ [current])
       (claimed(current \<mapsto> owner))))))))"
  by pat_completeness auto
termination
  by (relation "measure (\<lambda>(g, owner, c, seen, cs, cl). card (unclaimed g cl))")
    (auto simp: cluster_offset_def exc_simps Let_def intro: unclaimed_decreases)

declare chain_loop.simps [simp del]

definition chain :: "geom \<Rightarrow> nat \<Rightarrow> pystr \<Rightarrow> (nat \<rightharpoonup> pystr) \<Rightarrow> exc + (nat list \<times> (nat \<rightharpoonup> pystr))" where
  "chain g start owner claimed = chain_loop g owner start {} [] claimed"

section \<open>Short names\<close>

definition dot_raw :: bytes where
  "dot_raw = 0x2E # replicate 10 0x20"

definition dotdot_raw :: bytes where
  "dotdot_raw = 0x2E # 0x2E # replicate 9 0x20"

text \<open>The bytes of \<open>"*+,./:;<=>?[\]|\<close> and of Python's ASCII white space.\<close>

definition forbidden :: "byte set" where
  "forbidden = {0x22, 0x2A, 0x2B, 0x2C, 0x2E, 0x2F, 0x3A, 0x3B, 0x3C, 0x3D, 0x3E, 0x3F, 0x5B, 0x5C, 0x5D, 0x7C}"

definition is_space_byte :: "byte \<Rightarrow> bool" where
  "is_space_byte b \<longleftrightarrow> b \<in> {0x20, 0x09, 0x0A, 0x0D, 0x0B, 0x0C}"

definition short_name :: "bytes \<Rightarrow> exc + pystr" where
  "short_name raw =
    (if raw = dot_raw \<or> raw = dotdot_raw then decode_ascii (rstrip_by is_space_byte raw)
     else
     ensure (\<forall>c\<in>set raw. 32 \<le> unat c \<and> unat c < 127) (InvalidESP NonAsciiName)
    (let base = rstrip_by (\<lambda>b. b = 0x20) (take 8 raw);
         ext = rstrip_by (\<lambda>b. b = 0x20) (drop 8 raw) in
     ensure (base \<noteq> [] \<and> 0x20 \<notin> set (base @ ext)) (InvalidESP NamePadding)
    (ensure (\<forall>c\<in>set (base @ ext). c \<notin> forbidden) (InvalidESP NameCharacter)
    (ebind (decode_ascii base) (\<lambda>b. ebind (decode_ascii ext) (\<lambda>e.
     let value = b @ (if ext \<noteq> [] then py ''.'' @ e else []) in
     ensure (value = ascii_upper value) (InvalidESP LowercaseName)
    (Inr value)))))))"

section \<open>The directory walk\<close>

text \<open>
  The arguments of one call of \<open>walk\<close>. The scan of one 32-byte record either ends the
  loop (\<open>Stop\<close>), goes on with the next record (\<open>Next\<close>, carrying the local sets \<open>names\<close>
  and \<open>dots\<close> and the new state), or first walks a subdirectory (\<open>Descend\<close>).
\<close>

record dirctx =
  d_buf :: bytes
  d_directory :: pystr
  d_cluster :: nat
  d_parent :: nat
  d_base_offset :: nat
  d_depth :: nat
  d_offsets :: "nat list option"

datatype scan =
    Stop
  | Next "pystr set" "pystr set" vstate
  | Descend "pystr set" dirctx vstate

definition absolute_offset :: "geom \<Rightarrow> dirctx \<Rightarrow> nat \<Rightarrow> exc + nat" where
  "absolute_offset g ctx offset =
    (case d_offsets ctx of
       None \<Rightarrow> Inr (d_base_offset ctx + offset)
     | Some os \<Rightarrow>
         (if offset div g_cluster_bytes g < length os
          then Inr (os ! (offset div g_cluster_bytes g) + offset mod g_cluster_bytes g)
          else Inl IndexError))"

definition scan_dot ::
  "dirctx \<Rightarrow> pystr set \<Rightarrow> pystr set \<Rightarrow> vstate \<Rightarrow> nat \<Rightarrow> pystr \<Rightarrow> nat \<Rightarrow> nat \<Rightarrow> exc + scan" where
  "scan_dot ctx names dots st attr name first fsize =
     ensure (d_directory ctx \<noteq> py ''/'' \<and> attr = 0x10 \<and> fsize = 0) (InvalidESP InvalidDotEntry)
    (ensure (first = (if name = py ''.'' then d_cluster ctx else d_parent ctx))
       (InvalidESP DotClusterMismatch)
    (Inr (Next names (insert name dots) st)))"

text \<open>The clusters of an entry and the state that has claimed them.\<close>

definition entry_chain :: "geom \<Rightarrow> pystr \<Rightarrow> nat \<Rightarrow> nat \<Rightarrow> nat \<Rightarrow> (nat \<rightharpoonup> pystr) \<Rightarrow> exc + (nat list \<times> (nat \<rightharpoonup> pystr))" where
  "entry_chain g path attr first fsize claimed =
    ebind (if attr = 0x20 \<and> fsize = 0
           then ensure (first = 0) (InvalidESP (EmptyFileCluster path)) (Inr ([], claimed))
           else chain g first path claimed) (\<lambda>(chains, claimed').
    ensure (attr = 0x20 \<longrightarrow>
            length chains = (fsize + g_cluster_bytes g - 1) div g_cluster_bytes g)
      (InvalidESP (ChainLengthMismatch path))
    (Inr (chains, claimed')))"

text \<open>\<open>positions[0]\<close>\<close>

definition first_of :: "'a list \<Rightarrow> exc + 'a" where
  "first_of xs = (case xs of [] \<Rightarrow> Inl IndexError | x # _ \<Rightarrow> Inr x)"

lemma first_of_Inr [exc_simps]: "first_of xs = Inr x \<longleftrightarrow> (\<exists>ys. xs = x # ys)"
  by (auto simp: first_of_def split: list.splits)

lemma first_of_Inl [exc_simps]: "first_of xs = Inl e \<longleftrightarrow> xs = [] \<and> e = IndexError"
  by (auto simp: first_of_def split: list.splits)

definition scan_named ::
  "(bytes \<Rightarrow> pystr) \<Rightarrow> geom \<Rightarrow> dirctx \<Rightarrow> nat \<Rightarrow> pystr set \<Rightarrow> pystr set \<Rightarrow> vstate \<Rightarrow> bytes \<Rightarrow>
   nat \<Rightarrow> pystr \<Rightarrow> nat \<Rightarrow> nat \<Rightarrow> exc + scan" where
  "scan_named sha g ctx offset names dots st entry attr name first fsize =
    (let path = d_directory ctx @ name in
     ensure (path \<notin> v_paths st) (InvalidESP (DuplicateEntryPath path))
    (let paths = insert path (v_paths st) in
     ensure (card paths \<le> 4096) (InvalidESP TooManyEntries)
    (ebind (absolute_offset g ctx offset) (\<lambda>absolute.
     ebind (decode_ascii (take 11 entry)) (\<lambda>raw.
     ebind (entry_chain g path attr first fsize (v_claimed st)) (\<lambda>(chains, claimed).
     ebind (emap (cluster_offset g) chains) (\<lambda>positions.
     let payload = concat (map (\<lambda>p. pyslice (g_data g) p (p + g_cluster_bytes g)) positions);
         rec = \<lparr>e_path = path, e_raw_name83 = raw, e_offset = absolute, e_cluster = first,
                e_size = fsize, e_type = (if attr = 0x10 then Directory else File),
                e_clusters = chains, e_sha256 = None\<rparr> in
     if attr = 0x10 then
       ensure (fsize = 0) (InvalidESP (DirectoryNonzeroSize path))
      (ebind (first_of positions) (\<lambda>base.
         Inr (Descend names
           \<lparr>d_buf = payload, d_directory = path @ py ''/'', d_cluster = first,
            d_parent = d_cluster ctx, d_base_offset = base, d_depth = Suc (d_depth ctx),
            d_offsets = Some positions\<rparr>
           (st\<lparr>v_claimed := claimed, v_paths := paths, v_entries := v_entries st @ [rec]\<rparr>))))
     else
       let content = take fsize payload in
       Inr (Next names dots
         (st\<lparr>v_claimed := claimed, v_paths := paths,
             v_entries := v_entries st @ [rec\<lparr>e_sha256 := Some (sha content)\<rparr>],
             v_files := (v_files st)(path \<mapsto> content)\<rparr>)))))))))"

definition scan_entry ::
  "(bytes \<Rightarrow> pystr) \<Rightarrow> geom \<Rightarrow> dirctx \<Rightarrow> nat \<Rightarrow> pystr set \<Rightarrow> pystr set \<Rightarrow> vstate \<Rightarrow> exc + scan" where
  "scan_entry sha g ctx offset names dots st =
    (let entry = pyslice (d_buf ctx) offset (offset + 32) in
     ebind (byte_at entry 0) (\<lambda>b0.
     if b0 = 0 then Inr Stop
     else if b0 = 0xE5 then Inr (Next names dots st)
     else
     ebind (byte_at entry 11) (\<lambda>attr.
     ensure (attr \<noteq> 0x0F) (InvalidESP LfnUnsupported)
    (ensure (attr = 0x10 \<or> attr = 0x20) (InvalidESP (UnsupportedAttributes attr))
    (ebind (byte_at entry 12) (\<lambda>b12.
     ensure (b12 = 0 \<and> pyslice entry 20 22 = [0, 0]) (InvalidESP NameCaseFields)
    (ebind (short_name (take 11 entry)) (\<lambda>name.
     ensure (name \<notin> names) (InvalidESP (DuplicateEntryPath (d_directory ctx @ name)))
    (ebind (u16 entry 26) (\<lambda>first.
     ebind (u32 entry 28) (\<lambda>fsize.
     if name = py ''.'' \<or> name = py ''..''
     then scan_dot ctx (insert name names) dots st attr name first fsize
     else scan_named sha g ctx offset (insert name names) dots st entry attr name first fsize)))))))))))"

lemma scan_dot_no_descend: "scan_dot ctx names dots st attr name first fsize \<noteq> Inr (Descend n c s)"
  by (simp add: scan_dot_def exc_simps)

lemma scan_entry_depth:
  "scan_entry sha g ctx off names dots st = Inr (Descend n ctx' s) \<Longrightarrow> d_depth ctx' = Suc (d_depth ctx)"
  by (auto simp: scan_entry_def scan_named_def scan_dot_no_descend exc_simps Let_def
      split: if_splits)

text \<open>
  \<open>walk_loop\<close> is the loop over the records of one directory, from \<open>offset\<close> on, and
  \<open>finish_walk\<close> the check after it. A subdirectory is walked in place, under the depth
  check that opens \<open>walk\<close>; \<open>walk_loop_unfold\<close> below gives the loop in terms of \<open>walk\<close>,
  as the source has it.
\<close>

definition finish_walk :: "dirctx \<Rightarrow> pystr set \<times> vstate \<Rightarrow> exc + vstate" where
  "finish_walk ctx r =
     ensure (d_directory ctx \<noteq> py ''/'' \<longrightarrow> fst r = {py ''.'', py ''..''})
       (InvalidESP (MissingDotEntries (d_directory ctx)))
     (Inr (snd r))"

function walk_loop ::
    "(bytes \<Rightarrow> pystr) \<Rightarrow> geom \<Rightarrow> dirctx \<Rightarrow> nat \<Rightarrow> pystr set \<Rightarrow> pystr set \<Rightarrow> vstate \<Rightarrow> exc + (pystr set \<times> vstate)"
where
  "walk_loop sha g ctx offset names dots st =
    (if offset < length (d_buf ctx) then
       ebind (scan_entry sha g ctx offset names dots st) (\<lambda>r. case r of
         Stop \<Rightarrow> Inr (dots, st)
       | Next names' dots' st' \<Rightarrow> walk_loop sha g ctx (offset + 32) names' dots' st'
       | Descend names' ctx' st' \<Rightarrow>
           ensure (d_depth ctx' \<le> 8) (InvalidESP NestingTooDeep)
          (ebind (walk_loop sha g ctx' 0 {} {} st') (\<lambda>r'.
           ebind (finish_walk ctx' r') (\<lambda>st''.
           walk_loop sha g ctx (offset + 32) names' dots st''))))
     else Inr (dots, st))"
  by pat_completeness auto
termination
  by (relation "measures [\<lambda>(sha, g, ctx, off, names, dots, st). 9 - d_depth ctx,
      \<lambda>(sha, g, ctx, off, names, dots, st). length (d_buf ctx) - off]")
    (auto dest!: scan_entry_depth)

declare walk_loop.simps [simp del]

definition walk :: "(bytes \<Rightarrow> pystr) \<Rightarrow> geom \<Rightarrow> dirctx \<Rightarrow> vstate \<Rightarrow> exc + vstate" where
  "walk sha g ctx st =
     ensure (d_depth ctx \<le> 8) (InvalidESP NestingTooDeep)
    (ebind (walk_loop sha g ctx 0 {} {} st) (finish_walk ctx))"

lemma ensure_ebind: "ebind (ensure b e k) f = ensure b e (ebind k f)"
  by (simp add: ensure_def)

lemma ebind_assoc: "ebind (ebind m f) h = ebind m (\<lambda>x. ebind (f x) h)"
  by (simp add: ebind_def split: sum.split)

lemma walk_loop_unfold:
  "walk_loop sha g ctx offset names dots st =
    (if offset < length (d_buf ctx) then
       ebind (scan_entry sha g ctx offset names dots st) (\<lambda>r. case r of
         Stop \<Rightarrow> Inr (dots, st)
       | Next names' dots' st' \<Rightarrow> walk_loop sha g ctx (offset + 32) names' dots' st'
       | Descend names' ctx' st' \<Rightarrow>
           ebind (walk sha g ctx' st') (\<lambda>st''. walk_loop sha g ctx (offset + 32) names' dots st''))
     else Inr (dots, st))"
  by (subst walk_loop.simps)
    (simp add: walk_def ensure_ebind ebind_assoc cong: scan.case_cong)

section \<open>Opening a volume\<close>

text \<open>The last loop of \<open>__init__\<close>: every allocated cluster must have been claimed.\<close>

fun check_reachable :: "geom \<Rightarrow> (nat \<rightharpoonup> pystr) \<Rightarrow> nat list \<Rightarrow> exc + unit" where
  "check_reachable g claimed [] = Inr ()"
| "check_reachable g claimed (cluster # cs) =
     ebind (fat g cluster) (\<lambda>v.
     if v \<noteq> 0
     then ensure (claimed cluster \<noteq> None) (InvalidESP (UnreachableCluster cluster))
            (check_reachable g claimed cs)
     else check_reachable g claimed cs)"

definition root_ctx :: "geom \<Rightarrow> dirctx" where
  "root_ctx g = \<lparr>d_buf = pyslice (g_data g) (g_root_offset g) (g_data_offset g),
     d_directory = py ''/'', d_cluster = 0, d_parent = 0, d_base_offset = g_root_offset g,
     d_depth = 0, d_offsets = None\<rparr>"

definition fat16_open :: "(bytes \<Rightarrow> pystr) \<Rightarrow> bytes \<Rightarrow> exc + (geom \<times> vstate)" where
  "fat16_open sha data =
     ebind (read_geometry data) (\<lambda>g.
     ebind (walk sha g (root_ctx g) init_vstate) (\<lambda>st.
     ebind (check_reachable g (v_claimed st) [2..<g_cluster_count g + 2]) (\<lambda>_.
     Inr (g, st))))"

end
