(* ===== verification/Fat16_Chains.thy ===== *)
theory Fat16_Chains
  imports Fat16
begin

text \<open>
  Cluster chains: what \<open>read_geometry\<close> guarantees about the volume, the declarative
  notion of a FAT chain, and the equivalence of \<open>chain\<close> with it.
\<close>

section \<open>Well-formed geometry\<close>

text \<open>
  What the checks of \<open>__init__\<close> establish: the two FATs, the root directory and the data
  region lie inside the image one after the other, and the FAT has an entry for every
  data cluster.
\<close>

definition geom_ok :: "geom \<Rightarrow> bool" where
  "geom_ok g \<longleftrightarrow>
     512 \<le> g_cluster_bytes g \<and> g_cluster_bytes g mod 512 = 0 \<and>
     0 < g_root_entries g \<and> g_root_entries g \<le> 4096 \<and> g_root_entries g mod 16 = 0 \<and>
     512 \<le> g_fat_offset g \<and>
     g_root_offset g = g_fat_offset g + 2 * g_fat_bytes g \<and>
     g_data_offset g = g_root_offset g + g_root_entries g * 32 \<and>
     g_data_offset g < length (g_data g) \<and> length (g_data g) \<le> MAX_IMAGE \<and>
     g_cluster_count g = (length (g_data g) - g_data_offset g) div g_cluster_bytes g \<and>
     4085 \<le> g_cluster_count g \<and> g_cluster_count g < 65525 \<and>
     (g_cluster_count g + 2) * 2 \<le> g_fat_bytes g \<and>
     pyslice (g_data g) (g_fat_offset g) (g_fat_offset g + g_fat_bytes g) =
     pyslice (g_data g) (g_fat_offset g + g_fat_bytes g) (g_root_offset g)"

lemma read_geometry_ok:
  assumes "read_geometry data = Inr g"
  shows "geom_ok g \<and> g_data g = data"
proof -
  have spc: "1 \<le> spc" if "spc \<in> {1, 2, 4, 8, 16, 32, 64, 128}" for spc :: nat
    using that by auto
  show ?thesis
    using assms unfolding read_geometry_def Let_def exc_simps sum.inject
    apply clarify
    apply (drule spc)
    apply (simp only: geom_ok_def geom.simps)
    apply (intro conjI)
    apply (simp_all add: algebra_simps)
    done
qed

lemma u16_in_range: "off + 2 \<le> length data \<Longrightarrow> \<exists>v. u16 data off = Inr v \<and> v < 65536"
proof -
  assume "off + 2 \<le> length data"
  moreover have "unat (data ! off) < 256" "unat (data ! (off + 1)) < 256"
    using unsigned_less [of "data ! off"] unsigned_less [of "data ! (off + 1)"] by simp_all
  ultimately show ?thesis by (simp add: u16_def)
qed

lemma u16_exc: "u16 data off = Inl e \<Longrightarrow> e = StructError \<and> length data < off + 2"
  by (auto simp: u16_def split: if_splits)

text \<open>The FAT entries of the data clusters and the two reserved ones can be read.\<close>

lemma fat_in_range:
  assumes "geom_ok g" "c < g_cluster_count g + 2"
  shows "\<exists>v. fat g c = Inr v \<and> v < 65536"
proof -
  have "g_fat_offset g + c * 2 + 2 \<le> length (g_data g)"
    using assms by (auto simp: geom_ok_def)
  then show ?thesis unfolding fat_def by (rule u16_in_range)
qed

definition data_cluster :: "geom \<Rightarrow> nat \<Rightarrow> bool" where
  "data_cluster g c \<longleftrightarrow> 2 \<le> c \<and> c < g_cluster_count g + 2"

definition cluster_pos :: "geom \<Rightarrow> nat \<Rightarrow> nat" where
  "cluster_pos g c = g_data_offset g + (c - 2) * g_cluster_bytes g"

lemma cluster_pos_bound:
  assumes "geom_ok g" "data_cluster g c"
  shows "cluster_pos g c + g_cluster_bytes g \<le> length (g_data g)"
proof -
  have "Suc (c - 2) \<le> (length (g_data g) - g_data_offset g) div g_cluster_bytes g"
    using assms by (auto simp: geom_ok_def data_cluster_def)
  then have "Suc (c - 2) * g_cluster_bytes g \<le> length (g_data g) - g_data_offset g"
    by (metis assms(1) geom_ok_def less_eq_div_iff_mult_less_eq not_numeral_le_zero neq0_conv)
  with assms show ?thesis by (auto simp: geom_ok_def cluster_pos_def)
qed

lemma cluster_offset_eq:
  assumes "geom_ok g"
  shows "cluster_offset g c =
    (if data_cluster g c then Inr (cluster_pos g c) else Inl (InvalidESP (ClusterOutside c)))"
  using cluster_pos_bound [OF assms, of c]
  by (auto simp: cluster_offset_def data_cluster_def cluster_pos_def ensure_def Let_def)


section \<open>Chains\<close>

text \<open>
  A chain is a non-empty list of data clusters below the reserved identifiers in which the
  FAT entry of each is the next one, and the entry of the last is an end mark.
\<close>

definition usable :: "geom \<Rightarrow> nat \<Rightarrow> bool" where
  "usable g c \<longleftrightarrow> data_cluster g c \<and> c < 0xFFF0"

fun fat_chain :: "geom \<Rightarrow> nat list \<Rightarrow> bool" where
  "fat_chain g [] = False"
| "fat_chain g [c] = (usable g c \<and> (case fat g c of Inl _ \<Rightarrow> False | Inr v \<Rightarrow> 0xFFF8 \<le> v))"
| "fat_chain g (c # d # cs) = (usable g c \<and> fat g c = Inr d \<and> fat_chain g (d # cs))"

definition claim :: "nat list \<Rightarrow> pystr \<Rightarrow> (nat \<rightharpoonup> pystr) \<Rightarrow> (nat \<rightharpoonup> pystr)" where
  "claim cs owner claimed = (\<lambda>c. if c \<in> set cs then Some owner else claimed c)"

lemma claim_Nil [simp]: "claim [] owner cl = cl"
  by (simp add: claim_def)

lemma claim_Cons: "claim (c # cs) owner cl = claim cs owner (cl(c \<mapsto> owner))"
  by (auto simp: claim_def fun_eq_iff)

lemma dom_claim [simp]: "dom (claim cs owner cl) = set cs \<union> dom cl"
  by (auto simp: claim_def split: if_splits)

lemma fat_chain_usable: "fat_chain g cs \<Longrightarrow> c \<in> set cs \<Longrightarrow> usable g c"
  by (induction g cs rule: fat_chain.induct) auto

lemma fat_chain_hd: "fat_chain g cs \<Longrightarrow> usable g (hd cs)"
  by (induction g cs rule: fat_chain.induct) auto

lemma fat_chain_end:
  "fat g c = Inr v \<Longrightarrow> 0xFFF8 \<le> v \<Longrightarrow> fat_chain g (c # cs) \<longleftrightarrow> cs = [] \<and> usable g c"
  by (cases cs) (auto dest: fat_chain_hd simp: usable_def)

lemma fat_chain_step:
  "fat g c = Inr v \<Longrightarrow> v < 0xFFF8 \<Longrightarrow>
   fat_chain g (c # cs) \<longleftrightarrow> usable g c \<and> fat_chain g cs \<and> hd cs = v"
  by (cases cs) auto

text \<open>No cluster of a chain is free: its FAT entry is a link or an end mark.\<close>

lemma fat_chain_allocated:
  "fat_chain g cs \<Longrightarrow> c \<in> set cs \<Longrightarrow> \<exists>v. fat g c = Inr v \<and> 2 \<le> v"
proof (induction g cs rule: fat_chain.induct)
  case (2 g c)
  then show ?case by (auto split: sum.splits)
next
  case (3 g c d cs)
  from "3.prems" have "usable g d" by (auto dest: fat_chain_hd)
  with 3 show ?case by (auto simp: usable_def data_cluster_def)
qed simp

text \<open>The links are functional, so a chain is determined by its first cluster.\<close>

lemma fat_chain_unique:
  "fat_chain g cs \<Longrightarrow> fat_chain g ds \<Longrightarrow> hd cs = hd ds \<Longrightarrow> cs = ds"
proof (induction cs arbitrary: ds)
  case (Cons c cs)
  from Cons.prems(2,3) obtain es where ds: "ds = c # es"
    by (cases ds) (simp_all del: fat_chain.simps(2,3))
  from fat_chain_allocated [OF Cons.prems(1)] obtain v where v: "fat g c = Inr v" by auto
  show ?case
  proof (cases "0xFFF8 \<le> v")
    case True
    with Cons.prems(1,2) show ?thesis
      unfolding ds by (simp only: fat_chain_end [OF v])
  next
    case False
    then have "fat_chain g cs" "fat_chain g es" "hd cs = hd es"
      using Cons.prems(1,2) unfolding ds by (simp_all only: fat_chain_step [OF v] not_le)
    with ds Cons.IH show ?thesis by simp
  qed
qed simp

lemma chain_loop_stop:
  "\<lbrakk>geom_ok g; usable g c; c \<notin> seen; claimed c = None; fat g c = Inr v; 0xFFF8 \<le> v\<rbrakk> \<Longrightarrow>
   chain_loop g owner c seen clusters claimed = Inr (clusters @ [c], claim [c] owner claimed)"
  by (subst chain_loop.simps) (simp add: cluster_offset_eq usable_def claim_Cons)

lemma chain_loop_step:
  "\<lbrakk>geom_ok g; usable g c; c \<notin> seen; claimed c = None; fat g c = Inr v; \<not> 0xFFF8 \<le> v\<rbrakk> \<Longrightarrow>
   chain_loop g owner c seen clusters claimed =
     ensure (2 \<le> v \<and> v < 0xFFF0) (InvalidESP (BadFatLink v owner))
       (chain_loop g owner v (insert c seen) (clusters @ [c]) (claimed(c \<mapsto> owner)))"
  by (subst chain_loop.simps) (simp add: cluster_offset_eq usable_def)

lemma chain_loop_bad:
  "\<lbrakk>geom_ok g; \<not> (usable g c \<and> c \<notin> seen \<and> claimed c = None)\<rbrakk> \<Longrightarrow>
   chain_loop g owner c seen clusters claimed \<noteq> Inr r"
  unfolding chain_loop.simps [of g owner c] exc_simps
  by (auto simp: cluster_offset_eq usable_def split: if_splits)

lemma chain_loop_iff:
  "geom_ok g \<Longrightarrow> seen \<subseteq> dom claimed \<Longrightarrow>
    chain_loop g owner current seen clusters claimed = Inr (cs, cl) \<longleftrightarrow>
    (\<exists>new. (fat_chain g new \<and> hd new = current) \<and> cs = clusters @ new \<and> distinct new \<and>
       (\<forall>c\<in>set new. claimed c = None) \<and> cl = claim new owner claimed)"
proof (induction g owner current seen clusters claimed rule: chain_loop.induct)
  case (1 g owner current seen clusters claimed)
  note g = "1.prems"(1)
  show ?case
  proof (cases "usable g current \<and> claimed current = None")
    case False
    then have "\<not> ((fat_chain g new \<and> hd new = current) \<and> (\<forall>c\<in>set new. claimed c = None))" for new
      using fat_chain_hd [of g new] by (cases new) auto
    moreover have "chain_loop g owner current seen clusters claimed \<noteq> Inr (cs, cl)"
      using False by (intro chain_loop_bad [OF g]) blast
    ultimately show ?thesis by blast
  next
    case True
    then have use: "usable g current" and free: "claimed current = None"
      and pos: "cluster_offset g current = Inr (cluster_pos g current)"
      by (auto simp: cluster_offset_eq [OF g] usable_def)
    have small: "current < 0xFFF0" and fresh: "current \<notin> seen"
      using use free "1.prems" by (auto simp: usable_def)
    from use obtain v where v: "fat g current = Inr v"
      using fat_in_range [OF g, of current] by (auto simp: usable_def data_cluster_def)
    show ?thesis
    proof (cases "0xFFF8 \<le> v")
      case True
      have "fat_chain g new \<and> hd new = current \<longleftrightarrow> new = [current]" for new
        using True use v by (cases new) (auto simp: fat_chain_end simp del: fat_chain.simps(2,3))
      then show ?thesis
        using free by (simp only: chain_loop_stop [where c = current and claimed = claimed, OF g use fresh free v True]) auto
    next
      case False
      have split: "fat_chain g new \<and> hd new = current \<longleftrightarrow>
          (\<exists>rest. new = current # rest \<and> fat_chain g rest \<and> hd rest = v)" for new
        using False use v by (cases new) (auto simp: fat_chain_step simp del: fat_chain.simps(2,3))
      have bound: "2 \<le> v \<and> v < 0xFFF0" if "fat_chain g rest \<and> hd rest = v" for rest
        using fat_chain_hd [of g rest] that by (auto simp: usable_def data_cluster_def)
      have IH: "2 \<le> v \<and> v < 0xFFF0 \<Longrightarrow>
        chain_loop g owner v (insert current seen) (clusters @ [current]) (claimed(current \<mapsto> owner)) =
          Inr (cs, cl) \<longleftrightarrow>
        (\<exists>rest. (fat_chain g rest \<and> hd rest = v) \<and> cs = (clusters @ [current]) @ rest \<and> distinct rest \<and>
          (\<forall>c\<in>set rest. (claimed(current \<mapsto> owner)) c = None) \<and>
          cl = claim rest owner (claimed(current \<mapsto> owner)))"
        using "1.prems" by (intro "1.IH" [OF small pos fresh free v False]) auto
      show ?thesis
        unfolding chain_loop_step [where c = current and claimed = claimed, OF g use fresh free v False] exc_simps split
        using IH bound free by (auto simp: claim_Cons split: if_splits)
    qed
  qed
qed

text \<open>\<open>chain\<close> returns exactly the chains that start at its argument and are unclaimed.\<close>

lemma chain_iff:
  assumes "geom_ok g"
  shows "chain g start owner claimed = Inr (cs, cl) \<longleftrightarrow>
    fat_chain g cs \<and> hd cs = start \<and> distinct cs \<and> (\<forall>c\<in>set cs. claimed c = None) \<and>
    cl = claim cs owner claimed"
  unfolding chain_def using chain_loop_iff [OF assms, of "{}"] by auto

text \<open>The only exceptions \<open>chain\<close> raises are its own.\<close>

lemma chain_loop_exc:
  "geom_ok g \<Longrightarrow> chain_loop g owner current seen clusters claimed = Inl e \<Longrightarrow> \<exists>m. e = InvalidESP m"
proof (induction g owner current seen clusters claimed rule: chain_loop.induct)
  case (1 g owner current seen clusters claimed)
  note g = "1.prems"(1)
  have readable: "data_cluster g current \<Longrightarrow> fat g current \<noteq> Inl e"
    using fat_in_range [OF g, of current] by (auto simp: data_cluster_def)
  note step = "1.IH" [OF _ _ _ _ _ _ _ g]
  from "1.prems"(2) readable show ?case
    unfolding chain_loop.simps [of g owner current seen clusters claimed] exc_simps
      cluster_offset_eq [OF g]
    by (auto split: if_splits simp: exc_simps cluster_offset_eq [OF g] simp del: fun_upd_apply intro: step)
qed

lemma chain_exc: "geom_ok g \<Longrightarrow> chain g start owner cl = Inl e \<Longrightarrow> \<exists>m. e = InvalidESP m"
  unfolding chain_def by (rule chain_loop_exc)

end
