(* ===== verification/Fat16_Names.thy ===== *)
theory Fat16_Names
  imports Fat16_Chains
begin

text \<open>
  Short names and volume paths: what \<open>name\<close> accepts, and the paths the walk builds from
  accepted names.
\<close>

section \<open>Exceptions of the readers\<close>

text \<open>\<open>check\<close> failures, as opposed to errors of the interpreter.\<close>

definition is_check :: "exc \<Rightarrow> bool" where
  "is_check e \<longleftrightarrow> (case e of InvalidESP _ \<Rightarrow> True | _ \<Rightarrow> False)"

lemma is_check_simps [simp]:
  "is_check (InvalidESP m)" "\<not> is_check StructError" "\<not> is_check IndexError"
  "\<not> is_check UnicodeError" "\<not> is_check (OSError n t)" "\<not> is_check (OtherExc n t)"
  by (simp_all add: is_check_def)

lemma is_check_iff: "is_check e \<longleftrightarrow> (\<exists>m. e = InvalidESP m)"
  by (cases e) auto

lemma byte_at_Inr: "i < length data \<Longrightarrow> byte_at data i = Inr (unat (data ! i))"
  by (simp add: byte_at_def)

lemma u16_Inr: "off + 2 \<le> length data \<Longrightarrow> \<exists>v. u16 data off = Inr v"
  using u16_in_range by blast

lemma u32_Inr: "off + 4 \<le> length data \<Longrightarrow> \<exists>v. u32 data off = Inr v"
  by (simp add: u32_def)

lemma decode_ascii_Inr:
  "decode_ascii bs = Inr s \<longleftrightarrow> (\<forall>b\<in>set bs. unat b < 128) \<and> s = map (\<lambda>b. Ch (char_of (unat b))) bs"
  by (auto simp: decode_ascii_def)

section \<open>Accepted names\<close>

definition valid_name :: "pystr \<Rightarrow> bool" where
  "valid_name n \<longleftrightarrow> n \<noteq> [] \<and> length n \<le> 12 \<and> n \<noteq> py ''.'' \<and> n \<noteq> py ''..'' \<and>
     (\<forall>c\<in>set n. is_ascii c \<and> c \<noteq> Ch CHR ''/'' \<and> c \<noteq> Ch CHR 0x5C) \<and> ascii_upper n = n"

lemma short_name_exc: "short_name raw = Inl e \<Longrightarrow> is_check e"
proof -
  have ascii: "\<forall>b\<in>set raw. unat b < 128" if "\<forall>c\<in>set raw. 32 \<le> unat c \<and> unat c < 127"
    using that by fastforce
  have sub: "set (rstrip_by p (take 8 raw)) \<subseteq> set raw" "set (rstrip_by p (drop 8 raw)) \<subseteq> set raw" for p
    using set_rstrip_by set_take_subset set_drop_subset by (meson subset_trans)+
  have dots: "\<exists>s. decode_ascii (rstrip_by is_space_byte dot_raw) = Inr s"
    "\<exists>s. decode_ascii (rstrip_by is_space_byte dotdot_raw) = Inr s"
    by (auto simp: decode_ascii_Inr dot_raw_def dotdot_raw_def dest!: set_rstrip_by [THEN subsetD])
  assume "short_name raw = Inl e"
  with dots show ?thesis
    unfolding short_name_def Let_def
    by (auto simp: exc_simps decode_ascii_def split: if_splits dest!: ascii sub [THEN subsetD])
qed

lemma short_name_ascii: "short_name raw = Inr n \<Longrightarrow> \<forall>b\<in>set raw. unat b < 128"
  by (fastforce simp: short_name_def Let_def exc_simps dot_raw_def dotdot_raw_def split: if_splits)


lemma decoded_char:
  assumes "unat (b :: byte) < 128"
  shows "is_ascii (Ch (char_of (unat b)))" "b \<noteq> 0x2E \<Longrightarrow> Ch (char_of (unat b)) \<noteq> Ch CHR ''.''"
    "b \<noteq> 0x2F \<Longrightarrow> Ch (char_of (unat b)) \<noteq> Ch CHR ''/''"
    "b \<noteq> 0x5C \<Longrightarrow> Ch (char_of (unat b)) \<noteq> Ch CHR 0x5C"
proof -
  have code: "code_of (Ch (char_of (unat b))) = unat b" using assms by simp
  then show "is_ascii (Ch (char_of (unat b)))" using assms by (simp add: is_ascii_def)
  have other: "Ch (char_of (unat b)) \<noteq> Ch d" if "unat b \<noteq> of_char d" for d
    using code that by (metis code_of.simps(1))
  have num: "unat b \<noteq> numeral k" if "b \<noteq> numeral k" for k
    using that by (metis of_nat_numeral of_nat_unat ucast_id)
  show "b \<noteq> 0x2E \<Longrightarrow> Ch (char_of (unat b)) \<noteq> Ch CHR ''.''"
    "b \<noteq> 0x2F \<Longrightarrow> Ch (char_of (unat b)) \<noteq> Ch CHR ''/''"
    "b \<noteq> 0x5C \<Longrightarrow> Ch (char_of (unat b)) \<noteq> Ch CHR 0x5C"
    by (rule other; simp add: num of_char_def)+
qed


lemma rstrip_length: "length (rstrip_by p xs) \<le> length xs"
  unfolding rstrip_by_def by (metis length_dropWhile_le length_rev)

lemma short_name_valid:
  assumes "short_name raw = Inr n" "length raw = 11" "n \<noteq> py ''.''" "n \<noteq> py ''..''"
  shows "valid_name n"
proof -
  let ?dec = "map (\<lambda>b. Ch (char_of (unat b)))"
  have dots: "rstrip_by is_space_byte dot_raw = [0x2E]" "rstrip_by is_space_byte dotdot_raw = [0x2E, 0x2E]"
    by code_simp+
  have "of_char CHR ''.'' = (46 :: nat)" by simp
  then have dot: "char_of (46 :: nat) = CHR ''.''" by (metis char_of_char)
  obtain base ext where be: "base = rstrip_by (\<lambda>b. b = 0x20) (take 8 raw)"
    "ext = rstrip_by (\<lambda>b. b = 0x20) (drop 8 raw)" by simp
  have "raw \<noteq> dot_raw" "raw \<noteq> dotdot_raw"
    using assms by (auto simp: short_name_def decode_ascii_def dots dot)
  with assms be have h: "base \<noteq> []" "\<forall>c\<in>set (base @ ext). c \<notin> forbidden"
    "\<forall>b\<in>set (base @ ext). unat b < 128" "ascii_upper n = n"
    and n: "n = ?dec base @ (if ext \<noteq> [] then Ch CHR ''.'' # ?dec ext else [])"
    by (auto simp: short_name_def Let_def exc_simps decode_ascii_Inr)
  have forb: "0x2E \<in> forbidden" "0x2F \<in> forbidden" "0x5C \<in> forbidden"
    by (simp_all add: forbidden_def)
  have chars: "is_ascii c \<and> c \<noteq> Ch CHR ''/'' \<and> c \<noteq> Ch CHR 0x5C" if "c \<in> set n" for c
  proof (cases "c = Ch CHR ''.''")
    case True
    then show ?thesis by (simp add: is_ascii_def)
  next
    case False
    with that obtain b where "b \<in> set (base @ ext)" "c = Ch (char_of (unat b))"
      unfolding n by (auto split: if_splits)
    moreover from this have "unat b < 128" "b \<noteq> 0x2F" "b \<noteq> 0x5C" using h(2,3) forb by blast+
    ultimately show ?thesis using decoded_char by simp
  qed
  have "hd n \<noteq> Ch CHR ''.''"
  proof -
    from h(1) obtain b bs where b: "base = b # bs" by (cases base) auto
    with h(2,3) forb have "unat b < 128" "b \<noteq> 0x2E" by auto
    from decoded_char(2) [OF this] show ?thesis unfolding n b by simp
  qed
  moreover have "length n \<le> 12"
    using rstrip_length [of "\<lambda>b. b = 0x20" "take 8 raw"] rstrip_length [of "\<lambda>b. b = 0x20" "drop 8 raw"]
      assms(2) unfolding n be by auto
  moreover have "n \<noteq> []" using h unfolding n by simp
  ultimately show ?thesis using h chars by (auto simp: valid_name_def)
qed

section \<open>Paths\<close>

definition path_string :: "pystr list \<Rightarrow> pystr" where
  "path_string comps = py ''/'' @ join_with (py ''/'') comps"

text \<open>The prefix \<open>walk\<close> is called with for the directory at \<open>comps\<close>.\<close>

definition dir_string :: "pystr list \<Rightarrow> pystr" where
  "dir_string comps = py ''/'' @ concat (map (\<lambda>c. c @ py ''/'') comps)"

lemma dir_string_Nil [simp]: "dir_string [] = py ''/''"
  by (simp add: dir_string_def)

lemma join_with_snoc: "join_with sep (ps @ [q]) = concat (map (\<lambda>p. p @ sep) ps) @ q"
proof (induction ps)
  case (Cons p ps)
  then show ?case by (cases "ps @ [q]") (auto simp: Cons_eq_append_conv)
qed simp

lemma path_string_snoc: "path_string (comps @ [n]) = dir_string comps @ n"
  by (simp add: path_string_def dir_string_def join_with_snoc [of "[Ch CHR ''/'']", simplified])

lemma dir_string_snoc: "dir_string (comps @ [n]) = path_string (comps @ [n]) @ py ''/''"
  by (simp add: path_string_snoc) (simp add: dir_string_def)

lemma dir_string_root: "dir_string comps = py ''/'' \<longleftrightarrow> comps = []"
  by (cases comps) (auto simp: dir_string_def)

lemma path_string_inj:
  assumes "path_string as = path_string bs" "as \<noteq> []" "bs \<noteq> []"
    "\<forall>a\<in>set as. valid_name a" "\<forall>b\<in>set bs. valid_name b"
  shows "as = bs"
proof -
  have split: "split_on (Ch CHR ''/'') (join_with (py ''/'') xs) = xs"
    if "xs \<noteq> []" "\<forall>x\<in>set xs. valid_name x" for xs
    using that split_join [of xs "Ch CHR ''/''"] by (auto simp: valid_name_def)
  from assms(1) have "join_with (py ''/'') as = join_with (py ''/'') bs"
    unfolding path_string_def by (rule same_append_eq [THEN iffD1])
  with split [OF assms(2,4)] split [OF assms(3,5)] show ?thesis by metis
qed

end
