(* ===== verification/Fat16_Walk.thy ===== *)
theory Fat16_Walk
  imports Fat16_Names
begin

text \<open>
  The directory walk: the cases of one record scan, the interface \<open>walk_invariant\<close> through
  which facts about one scan become facts about a whole volume, and the invariants of the
  allocation state, the file table, the paths and the record offsets.
\<close>

section \<open>The cases of a scan\<close>

definition entry_at :: "dirctx \<Rightarrow> nat \<Rightarrow> bytes" where
  "entry_at ctx off = pyslice (d_buf ctx) off (off + 32)"

definition cluster_data :: "geom \<Rightarrow> nat \<Rightarrow> bytes" where
  "cluster_data g p = pyslice (g_data g) p (p + g_cluster_bytes g)"

definition attr_of :: "entry_type \<Rightarrow> nat" where
  "attr_of t = (case t of Directory \<Rightarrow> 0x10 | File \<Rightarrow> 0x20)"

text \<open>The attribute, first cluster and size fields of a 32-byte record.\<close>

definition record_fields :: "bytes \<Rightarrow> nat \<Rightarrow> nat \<Rightarrow> nat \<Rightarrow> bool" where
  "record_fields entry attr first fsize \<longleftrightarrow>
     byte_at entry 11 = Inr attr \<and> u16 entry 26 = Inr first \<and> u32 entry 28 = Inr fsize"

text \<open>
  A record that passes every check before it is added: \<open>r\<close> is the new entry (its digest
  aside), \<open>positions\<close> the offsets of its clusters, \<open>claimed\<close> the new allocation map.
\<close>

definition admits :: "geom \<Rightarrow> dirctx \<Rightarrow> nat \<Rightarrow> vstate \<Rightarrow> dentry \<Rightarrow> nat list \<Rightarrow> (nat \<rightharpoonup> pystr) \<Rightarrow> bool" where
  "admits g ctx off st r positions claimed \<longleftrightarrow>
    (\<exists>name. short_name (take 11 (entry_at ctx off)) = Inr name \<and> name \<noteq> py ''.'' \<and> name \<noteq> py ''..'' \<and>
       e_path r = d_directory ctx @ name \<and> e_path r \<notin> v_paths st \<and>
       card (insert (e_path r) (v_paths st)) \<le> 4096 \<and>
       absolute_offset g ctx off = Inr (e_offset r) \<and>
       decode_ascii (take 11 (entry_at ctx off)) = Inr (e_raw_name83 r) \<and>
       record_fields (entry_at ctx off) (attr_of (e_type r)) (e_cluster r) (e_size r) \<and>
       entry_chain g (e_path r) (attr_of (e_type r)) (e_cluster r) (e_size r) (v_claimed st) =
         Inr (e_clusters r, claimed) \<and>
       emap (cluster_offset g) (e_clusters r) = Inr positions)"

definition add_entry :: "vstate \<Rightarrow> dentry \<Rightarrow> (nat \<rightharpoonup> pystr) \<Rightarrow> vstate" where
  "add_entry st r claimed =
     st\<lparr>v_claimed := claimed, v_paths := insert (e_path r) (v_paths st), v_entries := v_entries st @ [r]\<rparr>"

definition file_content :: "geom \<Rightarrow> dentry \<Rightarrow> nat list \<Rightarrow> bytes" where
  "file_content g r positions = take (e_size r) (concat (map (cluster_data g) positions))"

definition add_file :: "geom \<Rightarrow> vstate \<Rightarrow> dentry \<Rightarrow> nat list \<Rightarrow> (nat \<rightharpoonup> pystr) \<Rightarrow> vstate" where
  "add_file g st r positions claimed =
     (add_entry st r claimed)\<lparr>v_files := (v_files st)(e_path r \<mapsto> file_content g r positions)\<rparr>"

definition sub_ctx :: "geom \<Rightarrow> dirctx \<Rightarrow> dentry \<Rightarrow> nat list \<Rightarrow> dirctx" where
  "sub_ctx g ctx r positions =
     \<lparr>d_buf = concat (map (cluster_data g) positions), d_directory = e_path r @ py ''/'',
      d_cluster = e_cluster r, d_parent = d_cluster ctx, d_base_offset = hd positions,
      d_depth = Suc (d_depth ctx), d_offsets = Some positions\<rparr>"

lemma scan_named_file:
  assumes "scan_named sha g ctx off names dots st (entry_at ctx off) attr name first fsize = Inr (Next n d st')"
    and "short_name (take 11 (entry_at ctx off)) = Inr name" "name \<noteq> py ''.''" "name \<noteq> py ''..''"
    and "record_fields (entry_at ctx off) attr first fsize"
    and "attr = 0x10 \<or> attr = 0x20"
  shows "\<exists>r ps cl. admits g ctx off st r ps cl \<and> e_type r = File \<and>
    e_sha256 r = Some (sha (file_content g r ps)) \<and> st' = add_file g st r ps cl"
proof -
  from assms obtain absolute raw chains claimed positions where
    h: "d_directory ctx @ name \<notin> v_paths st" "card (insert (d_directory ctx @ name) (v_paths st)) \<le> 4096"
    "absolute_offset g ctx off = Inr absolute" "decode_ascii (take 11 (entry_at ctx off)) = Inr raw"
    "entry_chain g (d_directory ctx @ name) attr first fsize (v_claimed st) = Inr (chains, claimed)"
    "emap (cluster_offset g) chains = Inr positions" "attr = 0x20"
    "st' = st\<lparr>v_claimed := claimed, v_paths := insert (d_directory ctx @ name) (v_paths st),
       v_entries := v_entries st @ [\<lparr>e_path = d_directory ctx @ name, e_raw_name83 = raw,
         e_offset = absolute, e_cluster = first, e_size = fsize, e_type = File, e_clusters = chains,
         e_sha256 = Some (sha (take fsize (concat (map (\<lambda>p. pyslice (g_data g) p (p + g_cluster_bytes g)) positions))))\<rparr>],
       v_files := (v_files st)(d_directory ctx @ name \<mapsto>
         take fsize (concat (map (\<lambda>p. pyslice (g_data g) p (p + g_cluster_bytes g)) positions)))\<rparr>"
    unfolding scan_named_def Let_def exc_simps
    by (clarsimp simp: exc_simps split: if_splits)
  let ?r = "\<lparr>e_path = d_directory ctx @ name, e_raw_name83 = raw, e_offset = absolute,
      e_cluster = first, e_size = fsize, e_type = File, e_clusters = chains,
      e_sha256 = Some (sha (take fsize (concat (map (cluster_data g) positions))))\<rparr>"
  have "admits g ctx off st ?r positions claimed" "e_type ?r = File"
    "e_sha256 ?r = Some (sha (file_content g ?r positions))" "st' = add_file g st ?r positions claimed"
    using h assms(2-5) unfolding admits_def add_file_def add_entry_def file_content_def cluster_data_def
    by (simp_all add: attr_of_def)
  then show ?thesis by blast
qed

lemma scan_named_dir:
  assumes "scan_named sha g ctx off names dots st (entry_at ctx off) attr name first fsize = Inr (Descend n ctx' st')"
    and "short_name (take 11 (entry_at ctx off)) = Inr name" "name \<noteq> py ''.''" "name \<noteq> py ''..''"
    and "record_fields (entry_at ctx off) attr first fsize"
  shows "\<exists>r ps cl. admits g ctx off st r ps cl \<and> e_type r = Directory \<and> e_size r = 0 \<and>
    e_sha256 r = None \<and> ps \<noteq> [] \<and> st' = add_entry st r cl \<and> ctx' = sub_ctx g ctx r ps"
proof -
  from assms obtain absolute raw chains claimed base ps where
    h: "d_directory ctx @ name \<notin> v_paths st" "card (insert (d_directory ctx @ name) (v_paths st)) \<le> 4096"
    "absolute_offset g ctx off = Inr absolute" "decode_ascii (take 11 (entry_at ctx off)) = Inr raw"
    "entry_chain g (d_directory ctx @ name) attr first fsize (v_claimed st) = Inr (chains, claimed)"
    "emap (cluster_offset g) chains = Inr (base # ps)" "attr = 0x10" "fsize = 0"
    "ctx' = \<lparr>d_buf = concat (map (\<lambda>p. pyslice (g_data g) p (p + g_cluster_bytes g)) (base # ps)),
       d_directory = (d_directory ctx @ name) @ py ''/'', d_cluster = first,
       d_parent = d_cluster ctx, d_base_offset = base, d_depth = Suc (d_depth ctx),
       d_offsets = Some (base # ps)\<rparr>"
    "st' = st\<lparr>v_claimed := claimed, v_paths := insert (d_directory ctx @ name) (v_paths st),
       v_entries := v_entries st @ [\<lparr>e_path = d_directory ctx @ name, e_raw_name83 = raw,
         e_offset = absolute, e_cluster = first, e_size = fsize, e_type = Directory, e_clusters = chains,
         e_sha256 = None\<rparr>]\<rparr>"
    unfolding scan_named_def Let_def exc_simps
    by (clarsimp simp: exc_simps split: if_splits)
  let ?r = "\<lparr>e_path = d_directory ctx @ name, e_raw_name83 = raw, e_offset = absolute,
      e_cluster = first, e_size = fsize, e_type = Directory, e_clusters = chains, e_sha256 = None\<rparr>"
  have "admits g ctx off st ?r (base # ps) claimed" "e_type ?r = Directory" "e_size ?r = 0"
    "e_sha256 ?r = None" "st' = add_entry st ?r claimed" "ctx' = sub_ctx g ctx ?r (base # ps)"
    using h assms(2-5) unfolding admits_def add_entry_def sub_ctx_def cluster_data_def
    by (simp_all add: attr_of_def)
  then show ?thesis by blast
qed

lemma scan_entry_split:
  assumes "scan_entry sha g ctx off names dots st = Inr r"
  shows "r = Stop \<or> r = Next names dots st \<or>
    (\<exists>attr name first fsize names'. (attr = 0x10 \<or> attr = 0x20) \<and>
       record_fields (entry_at ctx off) attr first fsize \<and>
       short_name (take 11 (entry_at ctx off)) = Inr name \<and>
       (if name = py ''.'' \<or> name = py ''..''
        then scan_dot ctx names' dots st attr name first fsize
        else scan_named sha g ctx off names' dots st (entry_at ctx off) attr name first fsize) = Inr r)"
  using assms unfolding scan_entry_def Let_def entry_at_def [symmetric] exc_simps record_fields_def
  by (force split: if_splits simp: exc_simps)

lemma scan_entry_Next:
  assumes "scan_entry sha g ctx off names dots st = Inr (Next n d st')"
  shows "st' = st \<or> (\<exists>r ps cl. admits g ctx off st r ps cl \<and> e_type r = File \<and>
    e_sha256 r = Some (sha (file_content g r ps)) \<and> st' = add_file g st r ps cl)"
  using scan_entry_split [OF assms] scan_named_file
  by (auto simp: scan_dot_def exc_simps split: if_splits)

lemma scan_entry_Descend:
  assumes "scan_entry sha g ctx off names dots st = Inr (Descend n ctx' st')"
  shows "\<exists>r ps cl. admits g ctx off st r ps cl \<and> e_type r = Directory \<and> e_size r = 0 \<and>
    e_sha256 r = None \<and> ps \<noteq> [] \<and> st' = add_entry st r cl \<and> ctx' = sub_ctx g ctx r ps"
  using scan_entry_split [OF assms] scan_named_dir
  by (auto simp: scan_dot_no_descend split: if_splits)

section \<open>From one scan to a volume\<close>

text \<open>
  The contract between the walk and its clients. \<open>good\<close> is the property of the geometry,
  \<open>dir_ok\<close> of the arguments of a directory walk, \<open>state_ok\<close> of the accumulated state and
  \<open>expected\<close> of the exceptions; a scan that keeps them makes every walk keep them.
\<close>

locale walk_invariant =
  fixes good :: "geom \<Rightarrow> bool"
    and dir_ok :: "geom \<Rightarrow> dirctx \<Rightarrow> bool"
    and state_ok :: "(bytes \<Rightarrow> pystr) \<Rightarrow> geom \<Rightarrow> vstate \<Rightarrow> bool"
  assumes scan_next:
    "\<lbrakk>good g; dir_ok g ctx; state_ok sha g st; d_depth ctx \<le> 8; 32 dvd off; off < length (d_buf ctx);
      scan_entry sha g ctx off names dots st = Inr (Next n d st')\<rbrakk> \<Longrightarrow> state_ok sha g st'"
  and scan_descend:
    "\<lbrakk>good g; dir_ok g ctx; state_ok sha g st; d_depth ctx \<le> 8; 32 dvd off; off < length (d_buf ctx);
      scan_entry sha g ctx off names dots st = Inr (Descend n ctx' st')\<rbrakk> \<Longrightarrow>
     dir_ok g ctx' \<and> state_ok sha g st'"
begin

lemma walk_loop_keeps:
  "\<lbrakk>good g; dir_ok g ctx; state_ok sha g st; d_depth ctx \<le> 8; 32 dvd off;
    walk_loop sha g ctx off names dots st = Inr r\<rbrakk> \<Longrightarrow> state_ok sha g (snd r)"
proof (induction sha g ctx off names dots st arbitrary: r rule: walk_loop.induct)
  case (1 sha g ctx off names dots st)
  show ?case
  proof (cases "off < length (d_buf ctx)")
    case False
    with "1.prems" show ?thesis by (subst (asm) walk_loop.simps) auto
  next
    case True
    with "1.prems"(6) obtain s where s: "scan_entry sha g ctx off names dots st = Inr s"
      by (subst (asm) walk_loop.simps) (auto simp: exc_simps)
    note loop = "1.prems"(6) [unfolded walk_loop.simps [of sha g ctx off] s]
    have next_off: "32 dvd off + 32" using "1.prems"(5) by simp
    show ?thesis
    proof (cases s)
      case Stop
      with loop True "1.prems"(3) show ?thesis by auto
    next
      case (Next n d st')
      with s have scan: "scan_entry sha g ctx off names dots st = Inr (Next n d st')" by simp
      from loop True Next have rec: "walk_loop sha g ctx (off + 32) n d st' = Inr r" by simp
      from scan_next [OF "1.prems"(1-5) True scan]
      show ?thesis
        by (rule "1.IH"(1) [OF True s Next "1.prems"(1,2) _ "1.prems"(4) next_off rec])
    next
      case (Descend n ctx' st')
      with s have scan: "scan_entry sha g ctx off names dots st = Inr (Descend n ctx' st')" by simp
      from loop True Descend obtain r' st'' where depth: "d_depth ctx' \<le> 8"
        and sub: "walk_loop sha g ctx' 0 {} {} st' = Inr r'"
        and fin: "finish_walk ctx' r' = Inr st''"
        and rec: "walk_loop sha g ctx (off + 32) n dots st'' = Inr r"
        by (auto simp: exc_simps)
      from scan_descend [OF "1.prems"(1-5) True scan] have d': "dir_ok g ctx'" "state_ok sha g st'" by auto
      have "state_ok sha g (snd r')"
        by (rule "1.IH"(2) [OF True s Descend depth "1.prems"(1) d' depth _ sub]) simp
      then have st'': "state_ok sha g st''"
        using fin by (auto simp: finish_walk_def exc_simps)
      show ?thesis
        by (rule "1.IH"(3) [OF True s Descend depth sub fin "1.prems"(1,2) st'' "1.prems"(4) next_off rec])
    qed
  qed
qed

theorem walk_keeps:
  "\<lbrakk>good g; dir_ok g ctx; state_ok sha g st; walk sha g ctx st = Inr st'\<rbrakk> \<Longrightarrow> state_ok sha g st'"
  using walk_loop_keeps [of g ctx sha st 0] by (auto simp: walk_def finish_walk_def exc_simps)

end

text \<open>The exceptions of a walk are those of its scans and its own checks.\<close>

locale walk_exceptions = walk_invariant +
  fixes expected :: "exc \<Rightarrow> bool"
  assumes scan_expected:
    "\<lbrakk>good g; dir_ok g ctx; state_ok sha g st; d_depth ctx \<le> 8; 32 dvd off; off < length (d_buf ctx);
      scan_entry sha g ctx off names dots st = Inl e\<rbrakk> \<Longrightarrow> expected e"
  and check_expected: "expected (InvalidESP m)"
begin

lemma walk_loop_expected:
  "\<lbrakk>good g; dir_ok g ctx; state_ok sha g st; d_depth ctx \<le> 8; 32 dvd off;
    walk_loop sha g ctx off names dots st = Inl e\<rbrakk> \<Longrightarrow> expected e"
proof (induction sha g ctx off names dots st rule: walk_loop.induct)
  case (1 sha g ctx off names dots st)
  from "1.prems"(6) have True: "off < length (d_buf ctx)"
    by (subst (asm) walk_loop.simps) (auto split: if_splits)
  have next_off: "32 dvd off + 32" using "1.prems"(5) by simp
  show ?case
  proof (cases "scan_entry sha g ctx off names dots st")
    case (Inl e')
    with "1.prems"(6) True have "e' = e"
      by (subst (asm) walk_loop.simps) simp
    with Inl scan_expected [OF "1.prems"(1-5) True] show ?thesis by simp
  next
    case s: (Inr s)
    note loop = "1.prems"(6) [unfolded walk_loop.simps [of sha g ctx off] s]
    show ?thesis
    proof (cases s)
      case Stop
      with loop True show ?thesis by simp
    next
      case (Next n d st')
      with s have scan: "scan_entry sha g ctx off names dots st = Inr (Next n d st')" by simp
      from loop True Next have rec: "walk_loop sha g ctx (off + 32) n d st' = Inl e" by simp
      from scan_next [OF "1.prems"(1-5) True scan]
      show ?thesis
        by (rule "1.IH"(1) [OF True s Next "1.prems"(1,2) _ "1.prems"(4) next_off rec])
    next
      case (Descend n ctx' st')
      with s have scan: "scan_entry sha g ctx off names dots st = Inr (Descend n ctx' st')" by simp
      from scan_descend [OF "1.prems"(1-5) True scan] have d': "dir_ok g ctx'" "state_ok sha g st'" by auto
      show ?thesis
      proof (cases "d_depth ctx' \<le> 8")
        case False
        with loop True Descend check_expected show ?thesis by auto
      next
        case depth: True
        show ?thesis
        proof (cases "walk_loop sha g ctx' 0 {} {} st'")
          case (Inl e')
          with loop True Descend depth have "e' = e" by simp
          with Inl "1.IH"(2) [OF True s Descend depth "1.prems"(1) d' depth] show ?thesis by simp
        next
          case sub: (Inr r')
          from walk_loop_keeps [OF "1.prems"(1) d' depth _ sub]
          have r': "state_ok sha g (snd r')" by simp
          show ?thesis
          proof (cases "finish_walk ctx' r'")
            case (Inl e')
            with loop True Descend depth sub check_expected show ?thesis
              by (auto simp: finish_walk_def exc_simps)
          next
            case fin: (Inr st'')
            with r' have "state_ok sha g st''" by (auto simp: finish_walk_def exc_simps)
            moreover from loop True Descend depth sub fin
            have "walk_loop sha g ctx (off + 32) n dots st'' = Inl e" by simp
            ultimately show ?thesis
              by (rule "1.IH"(3) [OF True s Descend depth sub fin "1.prems"(1,2) _ "1.prems"(4) next_off])
          qed
        qed
      qed
    qed
  qed
qed

theorem walk_expected:
  "\<lbrakk>good g; dir_ok g ctx; state_ok sha g st; walk sha g ctx st = Inl e\<rbrakk> \<Longrightarrow> expected e"
  using walk_loop_expected [of g ctx sha st 0] check_expected
  by (auto simp: walk_def finish_walk_def exc_simps)

end

end
