(* ===== verification/Fat16_Invariants.thy ===== *)
theory Fat16_Invariants
  imports Fat16_Walk
begin

text \<open>
  The invariants of the directory walk and their interpretation as \<open>walk_invariant\<close>: what
  a directory buffer is, exact cluster ownership, the file table, and the paths.
\<close>

section \<open>Directory buffers\<close>

definition dir_ok :: "geom \<Rightarrow> dirctx \<Rightarrow> bool" where
  "dir_ok g ctx \<longleftrightarrow>
     length (d_buf ctx) mod 32 = 0 \<and>
     (case d_offsets ctx of
        None \<Rightarrow> d_base_offset ctx + length (d_buf ctx) \<le> length (g_data g) \<and>
          d_buf ctx = pyslice (g_data g) (d_base_offset ctx) (d_base_offset ctx + length (d_buf ctx))
      | Some ps \<Rightarrow> d_buf ctx = concat (map (cluster_data g) ps) \<and>
          (\<forall>p\<in>set ps. p + g_cluster_bytes g \<le> length (g_data g))) \<and>
     (\<exists>comps. d_directory ctx = dir_string comps \<and> length comps = d_depth ctx \<and>
        (\<forall>c\<in>set comps. valid_name c))"

lemma entry_length:
  assumes "dir_ok g ctx" "32 dvd off" "off < length (d_buf ctx)"
  shows "length (entry_at ctx off) = 32"
proof -
  have "32 dvd length (d_buf ctx)" using assms(1) by (auto simp: dir_ok_def)
  then have "off + 32 \<le> length (d_buf ctx)"
    using assms(2,3) by (auto elim!: dvdE)
  then show ?thesis by (simp add: entry_at_def)
qed

lemma concat_slice:
  "\<lbrakk>\<forall>x\<in>set xss. length x = w; 0 < w; off div w < length xss; off mod w + n \<le> w\<rbrakk> \<Longrightarrow>
   pyslice (concat xss) off (off + n) = pyslice (xss ! (off div w)) (off mod w) (off mod w + n)"
proof (induction xss arbitrary: off)
  case (Cons x xss)
  show ?case
  proof (cases "off < w")
    case True
    with Cons.prems show ?thesis by (simp add: slice_append1)
  next
    case False
    then have d: "off div w = Suc ((off - w) div w)" "off mod w = (off - w) mod w"
      using Cons.prems(2) by (simp_all add: le_div_geq le_mod_geq)
    have "pyslice (concat (x # xss)) off (off + n) = pyslice (concat xss) (off - w) (off - w + n)"
      using False Cons.prems(1) by (simp add: slice_append2)
    also have "\<dots> = pyslice (xss ! ((off - w) div w)) ((off - w) mod w) ((off - w) mod w + n)"
      using Cons.prems d by (intro Cons.IH) auto
    finally show ?thesis using d by simp
  qed
qed simp

lemma length_cluster_data:
  "p + g_cluster_bytes g \<le> length (g_data g) \<Longrightarrow> length (cluster_data g p) = g_cluster_bytes g"
  by (simp add: cluster_data_def)

lemma length_payload:
  "\<forall>p\<in>set ps. p + g_cluster_bytes g \<le> length (g_data g) \<Longrightarrow>
   length (concat (map (cluster_data g) ps)) = length ps * g_cluster_bytes g"
  by (induction ps) (simp_all add: length_cluster_data)

text \<open>A record is at the place of the image that \<open>entry_offset\<close> says.\<close>

lemma absolute_offset_at:
  assumes g: "geom_ok g" and d: "dir_ok g ctx" and off: "32 dvd off" "off < length (d_buf ctx)"
  shows "\<exists>a. absolute_offset g ctx off = Inr a \<and> a + 32 \<le> length (g_data g) \<and>
    entry_at ctx off = pyslice (g_data g) a (a + 32)"
proof (cases "d_offsets ctx")
  case None
  let ?b = "d_base_offset ctx" and ?n = "length (d_buf ctx)"
  have "32 dvd ?n" and b: "d_buf ctx = pyslice (g_data g) ?b (?b + ?n)"
    and in_data: "?b + ?n \<le> length (g_data g)"
    using d None by (auto simp: dir_ok_def)
  then have le: "off + 32 \<le> ?n" using off by (auto elim!: dvdE)
  have "entry_at ctx off = pyslice (pyslice (g_data g) ?b (?b + ?n)) off (off + 32)"
    unfolding entry_at_def using b by simp
  also have "\<dots> = pyslice (g_data g) (?b + off) (?b + off + 32)"
    using le by (subst slice_slice) (auto simp: add.assoc)
  finally show ?thesis using None le in_data by (simp add: absolute_offset_def)
next
  case (Some ps)
  let ?w = "g_cluster_bytes g"
  have w: "32 dvd ?w" "0 < ?w" using g by (auto simp: geom_ok_def intro: dvd_trans [of 32 512])
  have buf: "d_buf ctx = concat (map (cluster_data g) ps)"
    and ps: "\<forall>p\<in>set ps. p + ?w \<le> length (g_data g)"
    using d Some by (auto simp: dir_ok_def)
  from length_payload [OF ps] buf have len: "length (d_buf ctx) = length ps * ?w" by simp
  then have i: "off div ?w < length ps" using off w by (simp add: less_mult_imp_div_less)
  have "32 dvd off mod ?w" using off(1) w(1) by (simp add: dvd_mod)
  then have m: "off mod ?w + 32 \<le> ?w"
    using w mod_less_divisor [OF w(2), of off] by (auto elim!: dvdE)
  let ?p = "ps ! (off div ?w)"
  have p: "?p + ?w \<le> length (g_data g)" using ps i by simp
  have "entry_at ctx off = pyslice (cluster_data g ?p) (off mod ?w) (off mod ?w + 32)"
    unfolding entry_at_def buf
    using concat_slice [of "map (cluster_data g) ps" ?w off 32] ps w(2) i m
    by (simp add: length_cluster_data)
  also have "\<dots> = pyslice (g_data g) (?p + off mod ?w) (?p + off mod ?w + 32)"
    unfolding cluster_data_def using m by (subst slice_slice) (auto simp: add.assoc)
  finally show ?thesis using Some i m p by (simp add: absolute_offset_def)
qed

section \<open>What an admitted record satisfies\<close>

text \<open>The clusters of an entry: none for an empty file, otherwise a chain from its first cluster.\<close>

definition chain_ok :: "geom \<Rightarrow> dentry \<Rightarrow> bool" where
  "chain_ok g r \<longleftrightarrow>
     (if e_clusters r = [] then e_type r = File \<and> e_size r = 0 \<and> e_cluster r = 0
      else fat_chain g (e_clusters r) \<and> hd (e_clusters r) = e_cluster r) \<and>
     (e_type r = File \<longrightarrow>
        length (e_clusters r) = (e_size r + g_cluster_bytes g - 1) div g_cluster_bytes g)"

lemma entry_chain_Inr:
  assumes g: "geom_ok g"
    and c: "entry_chain g (e_path r) (attr_of (e_type r)) (e_cluster r) (e_size r) cl = Inr (e_clusters r, cl')"
  shows "chain_ok g r" "distinct (e_clusters r)" "\<forall>c\<in>set (e_clusters r). cl c = None"
    "cl' = claim (e_clusters r) (e_path r) cl"
  using c chain_iff [OF g, of "e_cluster r" "e_path r" cl "e_clusters r" cl']
  by (auto simp: entry_chain_def exc_simps chain_ok_def attr_of_def split: entry_type.splits if_splits)

lemma emap_cluster_offset:
  assumes g: "geom_ok g"
  shows "emap (cluster_offset g) cs = Inr ps \<Longrightarrow>
    ps = map (cluster_pos g) cs \<and> (\<forall>p\<in>set ps. p + g_cluster_bytes g \<le> length (g_data g))"
  by (induction cs arbitrary: ps)
    (auto simp: exc_simps cluster_offset_eq [OF g] cluster_pos_bound [OF g] split: if_splits)

lemma admits_path:
  assumes "geom_ok g" "dir_ok g ctx" "32 dvd off" "off < length (d_buf ctx)" "admits g ctx off st r ps cl"
  shows "\<exists>comps. e_path r = path_string comps \<and> length comps = Suc (d_depth ctx) \<and>
    (\<forall>c\<in>set comps. valid_name c)"
proof -
  from assms(5) obtain name where n: "short_name (take 11 (entry_at ctx off)) = Inr name"
    "name \<noteq> py ''.''" "name \<noteq> py ''..''" and p: "e_path r = d_directory ctx @ name"
    by (auto simp: admits_def)
  have "length (take 11 (entry_at ctx off)) = 11" using entry_length [OF assms(2-4)] by simp
  from short_name_valid [OF n(1) this n(2,3)] have "valid_name name" .
  moreover from assms(2) obtain comps where "d_directory ctx = dir_string comps"
    "length comps = d_depth ctx" "\<forall>c\<in>set comps. valid_name c" by (auto simp: dir_ok_def)
  ultimately show ?thesis using p
    by (intro exI [of _ "comps @ [name]"]) (auto simp: path_string_snoc)
qed

lemma sub_ctx_ok:
  assumes "geom_ok g" "dir_ok g ctx" "32 dvd off" "off < length (d_buf ctx)" "admits g ctx off st r ps cl"
  shows "dir_ok g (sub_ctx g ctx r ps)"
proof -
  from assms(5) have "emap (cluster_offset g) (e_clusters r) = Inr ps" by (auto simp: admits_def)
  from emap_cluster_offset [OF assms(1) this] have ps: "\<forall>p\<in>set ps. p + g_cluster_bytes g \<le> length (g_data g)"
    by simp
  have "512 dvd g_cluster_bytes g" using assms(1) by (auto simp: geom_ok_def)
  then have "32 dvd g_cluster_bytes g" by (rule dvd_trans [rotated]) simp
  then have "32 dvd length ps * g_cluster_bytes g" by simp
  with length_payload [OF ps] have len: "length (concat (map (cluster_data g) ps)) mod 32 = 0" by auto
  from admits_path [OF assms] obtain comps where c: "e_path r = path_string comps"
    "length comps = Suc (d_depth ctx)" "\<forall>c\<in>set comps. valid_name c" by auto
  then obtain xs x where "comps = xs @ [x]" by (cases comps rule: rev_cases) auto
  with c have "e_path r @ py ''/'' = dir_string comps" by (simp add: dir_string_snoc)
  with c len ps show ?thesis by (auto simp: dir_ok_def sub_ctx_def intro!: exI [of _ comps])
qed

section \<open>The invariants\<close>

text \<open>
  Exact ownership: every entry has a proper chain, no cluster is in two chains or twice in
  one, and \<open>claimed\<close> maps a cluster to the path of the entry whose chain holds it.
\<close>

definition alloc_ok :: "geom \<Rightarrow> vstate \<Rightarrow> bool" where
  "alloc_ok g st \<longleftrightarrow>
     (\<forall>r\<in>set (v_entries st). chain_ok g r) \<and>
     distinct (concat (map e_clusters (v_entries st))) \<and>
     (\<forall>c p. v_claimed st c = Some p \<longleftrightarrow> (\<exists>r\<in>set (v_entries st). c \<in> set (e_clusters r) \<and> e_path r = p))"

definition entry_content :: "geom \<Rightarrow> dentry \<Rightarrow> bytes" where
  "entry_content g r = file_content g r (map (cluster_pos g) (e_clusters r))"

text \<open>The tables: paths are distinct and counted, and \<open>files\<close> holds the content of every file.\<close>

definition table_ok :: "(bytes \<Rightarrow> pystr) \<Rightarrow> geom \<Rightarrow> vstate \<Rightarrow> bool" where
  "table_ok sha g st \<longleftrightarrow>
     v_paths st = e_path ` set (v_entries st) \<and> distinct (map e_path (v_entries st)) \<and>
     length (v_entries st) \<le> 4096 \<and> dom (v_files st) \<subseteq> v_paths st \<and>
     (\<forall>r\<in>set (v_entries st).
        (case e_type r of
           File \<Rightarrow> e_sha256 r = Some (sha (entry_content g r)) \<and>
             v_files st (e_path r) = Some (entry_content g r)
         | Directory \<Rightarrow> e_size r = 0 \<and> e_sha256 r = None \<and> v_files st (e_path r) = None))"

text \<open>Every entry is the record of the image at its offset, under a canonical path.\<close>

definition record_ok :: "geom \<Rightarrow> dentry \<Rightarrow> bool" where
  "record_ok g r \<longleftrightarrow>
     e_offset r + 32 \<le> length (g_data g) \<and>
     (let entry = pyslice (g_data g) (e_offset r) (e_offset r + 32) in
        record_fields entry (attr_of (e_type r)) (e_cluster r) (e_size r) \<and>
        decode_ascii (take 11 entry) = Inr (e_raw_name83 r) \<and>
        (\<exists>comps name. short_name (take 11 entry) = Inr name \<and>
           e_path r = path_string (comps @ [name]) \<and> length comps \<le> 8 \<and>
           (\<forall>c\<in>set (comps @ [name]). valid_name c)))"

definition records_ok :: "geom \<Rightarrow> vstate \<Rightarrow> bool" where
  "records_ok g st \<longleftrightarrow> (\<forall>r\<in>set (v_entries st). record_ok g r)"

lemma admits_record:
  assumes "geom_ok g" "dir_ok g ctx" "d_depth ctx \<le> 8" "32 dvd off" "off < length (d_buf ctx)"
    "admits g ctx off st r ps cl"
  shows "record_ok g r"
proof -
  from absolute_offset_at [OF assms(1,2,4,5)] obtain a where a: "absolute_offset g ctx off = Inr a"
    "a + 32 \<le> length (g_data g)" "entry_at ctx off = pyslice (g_data g) a (a + 32)" by auto
  from assms(6) obtain name where n: "short_name (take 11 (entry_at ctx off)) = Inr name"
    "name \<noteq> py ''.''" "name \<noteq> py ''..''" and p: "e_path r = d_directory ctx @ name"
    and r: "absolute_offset g ctx off = Inr (e_offset r)"
      "decode_ascii (take 11 (entry_at ctx off)) = Inr (e_raw_name83 r)"
      "record_fields (entry_at ctx off) (attr_of (e_type r)) (e_cluster r) (e_size r)"
    by (auto simp: admits_def)
  from assms(2) obtain comps where c: "d_directory ctx = dir_string comps"
    "length comps = d_depth ctx" "\<forall>c\<in>set comps. valid_name c" by (auto simp: dir_ok_def)
  have "length (take 11 (entry_at ctx off)) = 11" using entry_length [OF assms(2,4,5)] by simp
  from short_name_valid [OF n(1) this n(2,3)] have v: "valid_name name" .
  have e: "e_offset r = a" using a(1) r(1) by simp
  have "e_path r = path_string (comps @ [name])" "length comps \<le> 8"
    "\<forall>c\<in>set (comps @ [name]). valid_name c"
    using p c v assms(3) by (auto simp: path_string_snoc)
  with n(1) have "\<exists>comps name. short_name (take 11 (entry_at ctx off)) = Inr name \<and>
      e_path r = path_string (comps @ [name]) \<and> length comps \<le> 8 \<and>
      (\<forall>c\<in>set (comps @ [name]). valid_name c)" by blast
  with a(2) r(2,3) show ?thesis
    unfolding record_ok_def Let_def e a(3) [symmetric] by blast
qed

lemma add_file_fields [simp]:
  "v_claimed (add_file g st r ps cl) = cl" "v_entries (add_file g st r ps cl) = v_entries st @ [r]"
  "v_paths (add_file g st r ps cl) = insert (e_path r) (v_paths st)"
  "v_files (add_file g st r ps cl) = (v_files st)(e_path r \<mapsto> file_content g r ps)"
  by (simp_all add: add_file_def add_entry_def)

lemma add_entry_fields [simp]:
  "v_claimed (add_entry st r cl) = cl" "v_entries (add_entry st r cl) = v_entries st @ [r]"
  "v_paths (add_entry st r cl) = insert (e_path r) (v_paths st)" "v_files (add_entry st r cl) = v_files st"
  by (simp_all add: add_entry_def)

lemma admits_alloc:
  assumes g: "geom_ok g" and inv: "alloc_ok g st" and adm: "admits g ctx off st r ps cl"
    and st': "v_entries st' = v_entries st @ [r]" "v_claimed st' = cl"
  shows "alloc_ok g st'"
proof -
  from adm have "entry_chain g (e_path r) (attr_of (e_type r)) (e_cluster r) (e_size r) (v_claimed st) =
      Inr (e_clusters r, cl)" by (auto simp: admits_def)
  note ch = entry_chain_Inr [OF g this]
  have "set (concat (map e_clusters (v_entries st))) = dom (v_claimed st)"
    using inv by (fastforce simp: alloc_ok_def)
  with ch(3) have disj: "set (e_clusters r) \<inter> set (concat (map e_clusters (v_entries st))) = {}" by auto
  have "cl c = Some p \<longleftrightarrow> (\<exists>r'\<in>set (v_entries st @ [r]). c \<in> set (e_clusters r') \<and> e_path r' = p)" for c p
  proof (cases "c \<in> set (e_clusters r)")
    case True
    with disj have "\<forall>r'\<in>set (v_entries st). c \<notin> set (e_clusters r')" by auto
    with True show ?thesis unfolding ch(4) by (auto simp: claim_def)
  next
    case False
    with inv show ?thesis unfolding ch(4) by (auto simp: alloc_ok_def claim_def)
  qed
  with inv ch(1,2) disj show ?thesis by (auto simp: alloc_ok_def st')
qed

lemma admits_table:
  assumes g: "geom_ok g" and inv: "table_ok sha g st" and adm: "admits g ctx off st r ps cl"
    and t: "e_type r = File \<Longrightarrow> e_sha256 r = Some (sha (file_content g r ps)) \<and> st' = add_file g st r ps cl"
      "e_type r = Directory \<Longrightarrow> e_sha256 r = None \<and> e_size r = 0 \<and> st' = add_entry st r cl"
  shows "table_ok sha g st'"
proof -
  from adm have new: "e_path r \<notin> v_paths st" and card: "card (insert (e_path r) (v_paths st)) \<le> 4096"
    and em: "emap (cluster_offset g) (e_clusters r) = Inr ps" by (auto simp: admits_def)
  from inv have paths: "v_paths st = set (map e_path (v_entries st))"
    and d: "distinct (map e_path (v_entries st))" by (auto simp: table_ok_def)
  have "card (v_paths st) = length (v_entries st)"
    using distinct_card [OF d] by (simp add: paths)
  with card new paths have len: "length (v_entries st) + 1 \<le> 4096" by (simp add: card_insert_if)
  have content: "file_content g r ps = entry_content g r"
    using emap_cluster_offset [OF g em] by (simp add: entry_content_def)
  have old: "e_path r' \<noteq> e_path r" if "r' \<in> set (v_entries st)" for r'
    using that new paths by (metis image_eqI list.set_map)
  have "v_files st (e_path r) = None" using inv new by (auto simp: table_ok_def)
  then show ?thesis
    using inv len new old content t d
    by (cases "e_type r") (auto simp: table_ok_def split: entry_type.splits)
qed

lemma init_vstate_ok: "alloc_ok g init_vstate" "table_ok sha g init_vstate" "records_ok g init_vstate"
  by (simp_all add: alloc_ok_def table_ok_def records_ok_def init_vstate_def)

section \<open>The exceptions of a scan\<close>

lemma entry_chain_exc:
  "geom_ok g \<Longrightarrow> entry_chain g path attr first fsize cl = Inl e \<Longrightarrow> is_check e"
  by (auto simp: entry_chain_def exc_simps is_check_iff dest: chain_exc split: if_splits)

lemma entry_chain_dir:
  "geom_ok g \<Longrightarrow> entry_chain g path 0x10 first fsize cl = Inr (cs, cl') \<Longrightarrow> cs \<noteq> []"
  by (auto simp: entry_chain_def exc_simps chain_iff)

lemma scan_named_exc:
  assumes g: "geom_ok g" and d: "dir_ok g ctx" "32 dvd off" "off < length (d_buf ctx)"
    and n: "short_name (take 11 (entry_at ctx off)) = Inr name"
    and e: "scan_named sha g ctx off names dots st (entry_at ctx off) attr name first fsize = Inl e"
  shows "is_check e"
proof -
  from absolute_offset_at [OF g d] obtain a where a: "absolute_offset g ctx off = Inr a" by auto
  from short_name_ascii [OF n] obtain raw where raw: "decode_ascii (take 11 (entry_at ctx off)) = Inr raw"
    by (auto simp: decode_ascii_def)
  have pos: "is_check e" if "emap (cluster_offset g) cs = Inl e" for cs e
    using emap_Inl [OF that] by (auto simp: cluster_offset_eq [OF g] split: if_splits)
  have ne: False if "entry_chain g p 0x10 first f cl = Inr (cs, cl')"
    "emap (cluster_offset g) cs = Inr []" for p f cl cs cl'
    using entry_chain_dir [OF g that(1)] emap_cluster_offset [OF g that(2)] by auto
  from e show ?thesis
    unfolding scan_named_def Let_def exc_simps a raw
    by (auto simp: exc_simps dest: entry_chain_exc [OF g] pos ne split: if_splits)
qed

lemma scan_entry_exc:
  assumes g: "geom_ok g" and d: "dir_ok g ctx" "32 dvd off" "off < length (d_buf ctx)"
    and e: "scan_entry sha g ctx off names dots st = Inl e"
  shows "is_check e"
proof -
  note len = entry_length [OF d]
  have reads: "\<exists>b0 attr b12 v w. byte_at (entry_at ctx off) 0 = Inr b0 \<and> byte_at (entry_at ctx off) 11 = Inr attr \<and>
      byte_at (entry_at ctx off) 12 = Inr b12 \<and> u16 (entry_at ctx off) 26 = Inr v \<and> u32 (entry_at ctx off) 28 = Inr w"
    using len u16_Inr [of 26 "entry_at ctx off"] u32_Inr [of 28 "entry_at ctx off"] by (auto simp: byte_at_def)
  then show ?thesis
    using e scan_named_exc [OF g d]
    unfolding scan_entry_def Let_def entry_at_def [symmetric]
    by (fastforce simp: exc_simps scan_dot_def dest: short_name_exc split: if_splits)
qed

end
