(* ===== verification/Fat16_Sample.thy ===== *)
theory Fat16_Sample
  imports Fat16_Invariants
begin

text \<open>
  A concrete FAT16 image of the smallest size the reader accepts (4085 clusters of one
  sector), with a directory \<open>/ZK\<close> that holds \<open>/ZK/K.ELF\<close> and a two-cluster file \<open>/A\<close>, and
  its evaluation. The image is a concatenation of regions, so that reads are evaluated in
  the region they fall into.
\<close>

section \<open>Reads of a concatenation\<close>

lemma u16_append1 [slice_simps]: "off + 2 \<le> length xs \<Longrightarrow> u16 (xs @ ys) off = u16 xs off"
  by (simp add: u16_def nth_append)

lemma u16_append2 [slice_simps]: "length xs \<le> off \<Longrightarrow> u16 (xs @ ys) off = u16 ys (off - length xs)"
  by (auto simp: u16_def nth_append Suc_diff_le)

lemma u32_append1 [slice_simps]: "off + 4 \<le> length xs \<Longrightarrow> u32 (xs @ ys) off = u32 xs off"
  by (simp add: u32_def nth_append)

lemma u32_append2 [slice_simps]: "length xs \<le> off \<Longrightarrow> u32 (xs @ ys) off = u32 ys (off - length xs)"
  by (auto simp: u32_def nth_append Suc_diff_le)

lemma byte_at_append1 [slice_simps]: "off < length xs \<Longrightarrow> byte_at (xs @ ys) off = byte_at xs off"
  by (simp add: byte_at_def nth_append)

lemma byte_at_append2 [slice_simps]: "length xs \<le> off \<Longrightarrow> byte_at (xs @ ys) off = byte_at ys (off - length xs)"
  by (auto simp: byte_at_def nth_append)

section \<open>The image\<close>

definition n_zk :: bytes where "n_zk = [0x5A, 0x4B, 0x20, 0x20, 0x20, 0x20, 0x20, 0x20, 0x20, 0x20, 0x20]"
definition n_a :: bytes where "n_a = [0x41, 0x20, 0x20, 0x20, 0x20, 0x20, 0x20, 0x20, 0x20, 0x20, 0x20]"
definition n_k :: bytes where "n_k = [0x4B, 0x20, 0x20, 0x20, 0x20, 0x20, 0x20, 0x20, 0x45, 0x4C, 0x46]"

lemma s_names:
  "short_name n_zk = Inr (py ''ZK'')" "short_name n_a = Inr (py ''A'')" "short_name n_k = Inr (py ''K.ELF'')"
  "short_name dot_raw = Inr (py ''.'')" "short_name dotdot_raw = Inr (py ''..'')"
  "decode_ascii n_zk = Inr (py ''ZK         '')" "decode_ascii n_a = Inr (py ''A          '')"
  "decode_ascii n_k = Inr (py ''K       ELF'')"
  "hd n_zk = 0x5A" "hd n_a = 0x41" "hd n_k = 0x4B" "hd dot_raw = 0x2E" "hd dotdot_raw = 0x2E"
  "length n_zk = 11" "length n_a = 11" "length n_k = 11" "length dot_raw = 11" "length dotdot_raw = 11"
  by code_simp+


definition s_bpb :: bytes where
  "s_bpb = [0xEB, 0x3C, 0x90, 0, 0, 0, 0, 0, 0, 0, 0, 0, 2, 1, 1, 0, 2, 16, 0, 0x17, 0x10, 0xF8, 16, 0,
     0, 0, 0, 0, 0, 0, 0, 0, 0, 0, 0, 0]"

definition s_boot :: bytes where
  "s_boot = s_bpb @ replicate 474 0 @ [0x55, 0xAA]"

definition s_fat :: bytes where
  "s_fat = [0xF8, 0xFF, 0xFF, 0xFF, 0xFF, 0xFF, 4, 0, 0xFF, 0xFF, 0xFF, 0xFF] @ replicate 8180 0"

definition s_rec :: "byte list \<Rightarrow> byte \<Rightarrow> byte \<Rightarrow> byte \<Rightarrow> byte \<Rightarrow> bytes" where
  "s_rec name attr first lo hi =
     name @ [attr, 0, 0, 0, 0, 0, 0, 0, 0, 0, 0, 0, 0, 0, 0, first, 0, lo, hi, 0, 0]"

definition s_root :: bytes where
  "s_root = s_rec n_zk 0x10 2 0 0 @
     s_rec n_a 0x20 3 0x58 2 @
     replicate 448 0"

definition s_zk :: bytes where
  "s_zk = s_rec dot_raw 0x10 2 0 0 @
     s_rec dotdot_raw 0x10 0 0 0 @
     s_rec n_k 0x20 5 3 0 @
     replicate 416 0"

definition s_data :: bytes where
  "s_data = s_zk @ replicate 512 0x41 @ replicate 512 0x42 @ [1, 2, 3] @ replicate 2089981 0"

definition sample :: bytes where
  "sample = s_boot @ s_fat @ s_fat @ s_root @ s_data"

lemma s_bpb_length [simp]: "length s_bpb = 36"
  by (simp add: s_bpb_def)

lemma s_lengths [simp]:
  "length s_boot = 512" "length s_fat = 8192" "length s_root = 512" "length s_zk = 512"
  "length s_data = 2091520" "length sample = 2108928"
  by (simp_all add: s_boot_def s_fat_def s_root_def s_zk_def s_rec_def s_data_def sample_def s_names)

definition s_geom :: geom where
  "s_geom = \<lparr>g_data = sample, g_cluster_bytes = 512, g_root_entries = 16, g_fat_offset = 512,
     g_fat_bytes = 8192, g_root_offset = 16896, g_data_offset = 17408, g_cluster_count = 4085\<rparr>"

lemma sample_fat: "c < 4096 \<Longrightarrow> fat s_geom c = u16 s_fat (c * 2)"
  by (auto simp: fat_def s_geom_def sample_def slice_simps)

lemma s_boot_reads:
  "u16 s_boot 11 = Inr 512" "byte_at s_boot 13 = Inr 1" "u16 s_boot 14 = Inr 1" "byte_at s_boot 16 = Inr 2"
  "u16 s_boot 17 = Inr 16" "u16 s_boot 19 = Inr 4119" "u32 s_boot 32 = Inr 0" "u32 s_boot 28 = Inr 0"
  "u16 s_boot 22 = Inr 16" "byte_at s_boot 21 = Inr 0xF8" "pyslice s_boot 510 512 = [0x55, 0xAA]"
  by (simp_all add: s_boot_def slice_simps) (simp_all add: s_bpb_def u16_def u32_def byte_at_def)

lemma s_fat_reads:
  "u16 s_fat 0 = Inr 0xFFF8" "u16 s_fat 2 = Inr 0xFFFF" "u16 s_fat 4 = Inr 0xFFFF" "u16 s_fat 6 = Inr 4"
  "u16 s_fat 8 = Inr 0xFFFF" "u16 s_fat 10 = Inr 0xFFFF"
  by (simp_all add: s_fat_def slice_simps u16_def)

lemma s_fat_free: "6 \<le> c \<Longrightarrow> c < 4096 \<Longrightarrow> u16 s_fat (c * 2) = Inr 0"
  by (simp add: s_fat_def slice_simps u16_def)

lemma sample_slices:
  "pyslice sample 510 512 = [0x55, 0xAA]"
  "pyslice sample 512 8704 = s_fat" "pyslice sample 8704 16896 = s_fat" "pyslice sample 16896 17408 = s_root"
  by (simp_all add: sample_def slice_simps s_boot_reads)

lemma sample_reads:
  "u16 sample 11 = Inr 512" "byte_at sample 13 = Inr 1" "u16 sample 14 = Inr 1" "byte_at sample 16 = Inr 2"
  "u16 sample 17 = Inr 16" "u16 sample 19 = Inr 4119" "u32 sample 32 = Inr 0" "u32 sample 28 = Inr 0"
  "u16 sample 22 = Inr 16" "byte_at sample 21 = Inr 0xF8"
  by (simp_all add: sample_def slice_simps s_boot_reads)

lemma sample_geometry: "read_geometry sample = Inr s_geom"
  by (simp add: read_geometry_def Let_def sample_reads sample_slices MAX_IMAGE_def s_geom_def [symmetric]
      sample_fat s_fat_reads)


section \<open>Its directories\<close>

lemma s_rec_reads:
  assumes "length name = 11"
  shows "length (s_rec name attr first lo hi) = 32" "byte_at (s_rec name attr first lo hi) 11 = Inr (unat attr)"
    "byte_at (s_rec name attr first lo hi) 12 = Inr 0" "pyslice (s_rec name attr first lo hi) 20 22 = [0, 0]"
    "u16 (s_rec name attr first lo hi) 26 = Inr (unat first)"
    "u32 (s_rec name attr first lo hi) 28 = Inr (unat lo + 256 * unat hi)"
    "take 11 (s_rec name attr first lo hi) = name"
    "byte_at (s_rec name attr first lo hi) 0 = Inr (unat (hd name))"
proof -
  have "name \<noteq> []" using assms by auto
  with assms show "length (s_rec name attr first lo hi) = 32"
    "byte_at (s_rec name attr first lo hi) 11 = Inr (unat attr)"
    "byte_at (s_rec name attr first lo hi) 12 = Inr 0" "pyslice (s_rec name attr first lo hi) 20 22 = [0, 0]"
    "u16 (s_rec name attr first lo hi) 26 = Inr (unat first)"
    "u32 (s_rec name attr first lo hi) 28 = Inr (unat lo + 256 * unat hi)"
    "take 11 (s_rec name attr first lo hi) = name"
    "byte_at (s_rec name attr first lo hi) 0 = Inr (unat (hd name))"
    by (simp_all add: s_rec_def slice_simps)
      (simp_all add: byte_at_def u16_def u32_def pyslice_def hd_conv_nth)
qed

lemma s_rec_length [simp]: "length name = 11 \<Longrightarrow> length (s_rec name attr first lo hi) = 32"
  by (rule s_rec_reads)

lemma s_root_entries:
  "pyslice s_root 0 32 = s_rec n_zk 0x10 2 0 0" "pyslice s_root 32 64 = s_rec n_a 0x20 3 0x58 2"
  "pyslice s_root 64 96 = replicate 32 0"
  by (simp_all add: s_root_def slice_simps s_names)

lemma s_zk_entries:
  "pyslice s_zk 0 32 = s_rec dot_raw 0x10 2 0 0" "pyslice s_zk 32 64 = s_rec dotdot_raw 0x10 0 0 0"
  "pyslice s_zk 64 96 = s_rec n_k 0x20 5 3 0" "pyslice s_zk 96 128 = replicate 32 0"
  by (simp_all add: s_zk_def slice_simps s_names)

lemma sample_clusters:
  "pyslice sample 17408 17920 = s_zk" "pyslice sample 17920 18432 = replicate 512 0x41"
  "pyslice sample 18432 18944 = replicate 512 0x42" "take 3 (pyslice sample 18944 19456) = [1, 2, 3]"
  by (simp_all add: sample_def s_data_def slice_simps) (simp add: pyslice_def)

lemma s_geom_ok: "geom_ok s_geom"
  using read_geometry_ok [OF sample_geometry] by simp

lemma s_chains:
  "cl 2 = None \<Longrightarrow> chain s_geom 2 p cl = Inr ([2], claim [2] p cl)"
  "cl 3 = None \<Longrightarrow> cl 4 = None \<Longrightarrow> chain s_geom 3 p cl = Inr ([3, 4], claim [3, 4] p cl)"
  "cl 5 = None \<Longrightarrow> chain s_geom 5 p cl = Inr ([5], claim [5] p cl)"
  by (simp_all add: chain_iff [OF s_geom_ok] usable_def data_cluster_def sample_fat s_fat_reads)
    (simp_all add: s_geom_def)

lemma s_offsets:
  "cluster_offset s_geom 2 = Inr 17408" "cluster_offset s_geom 3 = Inr 17920"
  "cluster_offset s_geom 4 = Inr 18432" "cluster_offset s_geom 5 = Inr 18944"
  by (simp_all add: cluster_offset_def s_geom_def)

definition s_state :: "(bytes \<Rightarrow> pystr) \<Rightarrow> vstate" where
  "s_state sha =
    \<lparr>v_claimed = claim [3, 4] (py ''/A'') (claim [5] (py ''/ZK/K.ELF'') (claim [2] (py ''/ZK'') Map.empty)),
     v_files = [py ''/ZK/K.ELF'' \<mapsto> [1, 2, 3], py ''/A'' \<mapsto> replicate 512 0x41 @ replicate 88 0x42],
     v_entries =
       [\<lparr>e_path = py ''/ZK'', e_raw_name83 = py ''ZK         '', e_offset = 16896, e_cluster = 2, e_size = 0,
         e_type = Directory, e_clusters = [2], e_sha256 = None\<rparr>,
        \<lparr>e_path = py ''/ZK/K.ELF'', e_raw_name83 = py ''K       ELF'', e_offset = 17472, e_cluster = 5,
         e_size = 3, e_type = File, e_clusters = [5], e_sha256 = Some (sha [1, 2, 3])\<rparr>,
        \<lparr>e_path = py ''/A'', e_raw_name83 = py ''A          '', e_offset = 16928, e_cluster = 3, e_size = 600,
         e_type = File, e_clusters = [3, 4],
         e_sha256 = Some (sha (replicate 512 0x41 @ replicate 88 0x42))\<rparr>],
     v_paths = {py ''/A'', py ''/ZK/K.ELF'', py ''/ZK''}\<rparr>"

lemmas s_scan_simps = scan_entry_def scan_named_def scan_dot_def entry_chain_def absolute_offset_def
  Let_def s_rec_reads s_names s_root_entries s_zk_entries sample_clusters s_chains s_offsets first_of_def

definition s_zk_state :: vstate where
  "s_zk_state =
    \<lparr>v_claimed = claim [2] (py ''/ZK'') Map.empty, v_files = Map.empty,
     v_entries =
       [\<lparr>e_path = py ''/ZK'', e_raw_name83 = py ''ZK         '', e_offset = 16896, e_cluster = 2, e_size = 0,
         e_type = Directory, e_clusters = [2], e_sha256 = None\<rparr>],
     v_paths = {py ''/ZK''}\<rparr>"

definition s_k_state :: "(bytes \<Rightarrow> pystr) \<Rightarrow> vstate" where
  "s_k_state sha =
    \<lparr>v_claimed = claim [5] (py ''/ZK/K.ELF'') (claim [2] (py ''/ZK'') Map.empty),
     v_files = [py ''/ZK/K.ELF'' \<mapsto> [1, 2, 3]],
     v_entries = v_entries s_zk_state @
       [\<lparr>e_path = py ''/ZK/K.ELF'', e_raw_name83 = py ''K       ELF'', e_offset = 17472, e_cluster = 5,
         e_size = 3, e_type = File, e_clusters = [5], e_sha256 = Some (sha [1, 2, 3])\<rparr>],
     v_paths = {py ''/ZK/K.ELF'', py ''/ZK''}\<rparr>"

definition s_zk_ctx :: dirctx where
  "s_zk_ctx = \<lparr>d_buf = s_zk, d_directory = py ''/ZK/'', d_cluster = 2, d_parent = 0, d_base_offset = 17408,
     d_depth = 1, d_offsets = Some [17408]\<rparr>"

lemma s_root_ctx: "d_buf (root_ctx s_geom) = s_root" "d_directory (root_ctx s_geom) = py ''/''"
  "d_cluster (root_ctx s_geom) = 0" "d_base_offset (root_ctx s_geom) = 16896" "d_depth (root_ctx s_geom) = 0"
  "d_offsets (root_ctx s_geom) = None"
  by (simp_all add: root_ctx_def s_geom_def sample_slices)

lemma s_geom_fields: "g_data s_geom = sample" "g_cluster_bytes s_geom = 512"
  by (simp_all add: s_geom_def)

lemma scan_root:
  "scan_entry sha s_geom (root_ctx s_geom) 0 {} {} init_vstate = Inr (Descend {py ''ZK''} s_zk_ctx s_zk_state)"
  "scan_entry sha s_geom (root_ctx s_geom) 32 {py ''ZK''} {} (s_k_state sha) =
     Inr (Next {py ''A'', py ''ZK''} {} (s_state sha))"
  "scan_entry sha s_geom (root_ctx s_geom) 64 names dots st = Inr Stop"
  subgoal by (simp add: s_scan_simps s_root_ctx s_geom_fields init_vstate_def s_zk_ctx_def s_zk_state_def)
  subgoal by (simp add: s_scan_simps s_root_ctx s_geom_fields s_k_state_def s_zk_state_def s_state_def claim_def insert_commute fun_upd_twist)
  subgoal by (simp add: s_scan_simps s_root_ctx byte_at_def)
  done

lemma scan_zk:
  "scan_entry sha s_geom s_zk_ctx 0 {} {} st = Inr (Next {py ''.''} {py ''.''} st)"
  "scan_entry sha s_geom s_zk_ctx 32 {py ''.''} {py ''.''} st = Inr (Next {py ''.'', py ''..''} {py ''.'', py ''..''} st)"
  "scan_entry sha s_geom s_zk_ctx 64 {py ''.'', py ''..''} {py ''.'', py ''..''} s_zk_state =
     Inr (Next {py ''K.ELF'', py ''.'', py ''..''} {py ''.'', py ''..''} (s_k_state sha))"
  "scan_entry sha s_geom s_zk_ctx 96 names dots st = Inr Stop"
  subgoal by (simp add: s_scan_simps s_zk_ctx_def)
  subgoal by (simp add: s_scan_simps s_zk_ctx_def insert_commute)
  subgoal by (simp add: s_scan_simps s_zk_ctx_def s_geom_fields s_zk_state_def s_k_state_def claim_def)
  subgoal by (simp add: s_scan_simps s_zk_ctx_def byte_at_def)
  done

lemma sample_walk_zk: "walk sha s_geom s_zk_ctx s_zk_state = Inr (s_k_state sha)"
proof -
  have ctx: "length (d_buf s_zk_ctx) = 512" "d_depth s_zk_ctx = 1" "d_directory s_zk_ctx = py ''/ZK/''"
    by (simp_all add: s_zk_ctx_def)
  have "walk_loop sha s_geom s_zk_ctx 0 {} {} s_zk_state = Inr ({py ''.'', py ''..''}, s_k_state sha)"
    by (simp add: walk_loop_unfold [of sha s_geom s_zk_ctx] scan_zk [simplified list.map] ctx)
  then show ?thesis by (simp add: walk_def finish_walk_def ctx)
qed

lemma sample_walk: "walk sha s_geom (root_ctx s_geom) init_vstate = Inr (s_state sha)"
proof -
  have "walk_loop sha s_geom (root_ctx s_geom) 0 {} {} init_vstate = Inr ({}, s_state sha)"
    by (simp add: walk_loop_unfold [of sha s_geom "root_ctx s_geom"] scan_root [simplified list.map] sample_walk_zk s_root_ctx)
  then show ?thesis by (simp add: walk_def finish_walk_def s_root_ctx)
qed

lemma check_reachable_iff:
  "check_reachable g cl cs = Inr () \<longleftrightarrow>
   (\<forall>c\<in>set cs. \<exists>v. fat g c = Inr v \<and> (v \<noteq> 0 \<longrightarrow> cl c \<noteq> None))"
  by (induction cs) (auto simp: exc_simps split: if_splits)

theorem sample_opens: "fat16_open sha sample = Inr (s_geom, s_state sha)"
proof -
  have "check_reachable s_geom (v_claimed (s_state sha)) [2..<4087] = Inr ()"
    unfolding check_reachable_iff
  proof
    fix c :: nat assume "c \<in> set [2..<4087]"
    then have c: "2 \<le> c" "c < 4087" by (simp_all only: set_upt atLeastLessThan_iff)
    show "\<exists>v. fat s_geom c = Inr v \<and> (v \<noteq> 0 \<longrightarrow> v_claimed (s_state sha) c \<noteq> None)"
    proof (cases "6 \<le> c")
      case True
      with c show ?thesis by (simp add: sample_fat s_fat_free)
    next
      case False
      with c have "c = 2 \<or> c = 3 \<or> c = 4 \<or> c = 5" by auto
      then show ?thesis by (auto simp: sample_fat s_fat_reads s_state_def claim_def)
    qed
  qed
  moreover have "g_cluster_count s_geom + 2 = 4087" by (simp add: s_geom_def)
  ultimately show ?thesis
    by (simp only: fat16_open_def sample_geometry sample_walk ebind_simps)
qed

end
