(* ===== verification/Fat16_Volume.thy ===== *)
theory Fat16_Volume
  imports Fat16_Sample
begin

text \<open>
  What an opened volume satisfies: the interpretations of the walk's interface on the
  invariants, and the properties of \<open>FAT16.__init__\<close> as a whole, each applied to the sample
  image.
\<close>

section \<open>The invariants of a walk\<close>

lemma root_ctx_ok:
  assumes "geom_ok g"
  shows "dir_ok g (root_ctx g)"
proof -
  let ?buf = "pyslice (g_data g) (g_root_offset g) (g_data_offset g)"
  have len: "length ?buf = g_root_entries g * 32" using assms by (auto simp: geom_ok_def)
  with assms show ?thesis
    by (auto simp: dir_ok_def root_ctx_def geom_ok_def intro!: exI [of _ "[]"])
qed

interpretation alloc: walk_exceptions geom_ok dir_ok "\<lambda>_. alloc_ok" is_check
proof unfold_locales
  fix g ctx st sha off names dots n d st'
  assume "geom_ok g" "alloc_ok g st" "scan_entry sha g ctx off names dots st = Inr (Next n d st')"
  then show "alloc_ok g st'" by (auto dest!: scan_entry_Next intro: admits_alloc)
next
  fix g ctx st sha off names dots n ctx' st'
  assume h: "geom_ok g" "dir_ok g ctx" "alloc_ok g st" "32 dvd off" "off < length (d_buf ctx)"
    "scan_entry sha g ctx off names dots st = Inr (Descend n ctx' st')"
  then show "dir_ok g ctx' \<and> alloc_ok g st'"
    by (auto dest!: scan_entry_Descend intro: admits_alloc sub_ctx_ok)
qed (auto intro: scan_entry_exc)

interpretation table: walk_invariant geom_ok dir_ok table_ok
proof unfold_locales
  fix g ctx st sha off names dots n d st'
  assume "geom_ok g" "table_ok sha g st" "scan_entry sha g ctx off names dots st = Inr (Next n d st')"
  then show "table_ok sha g st'" by (auto dest!: scan_entry_Next intro: admits_table)
next
  fix g ctx st sha off names dots n ctx' st'
  assume h: "geom_ok g" "dir_ok g ctx" "table_ok sha g st" "32 dvd off" "off < length (d_buf ctx)"
    "scan_entry sha g ctx off names dots st = Inr (Descend n ctx' st')"
  then show "dir_ok g ctx' \<and> table_ok sha g st'"
    by (auto dest!: scan_entry_Descend intro: admits_table sub_ctx_ok)
qed

interpretation records: walk_invariant geom_ok dir_ok "\<lambda>_. records_ok"
proof unfold_locales
  fix g ctx st sha off names dots n d st'
  assume "geom_ok g" "dir_ok g ctx" "records_ok g st" "d_depth ctx \<le> 8" "32 dvd off" "off < length (d_buf ctx)"
    "scan_entry sha g ctx off names dots st = Inr (Next n d st')"
  then show "records_ok g st'"
    by (auto dest!: scan_entry_Next simp: records_ok_def intro: admits_record)
next
  fix g ctx st sha off names dots n ctx' st'
  assume h: "geom_ok g" "dir_ok g ctx" "records_ok g st" "d_depth ctx \<le> 8" "32 dvd off" "off < length (d_buf ctx)"
    "scan_entry sha g ctx off names dots st = Inr (Descend n ctx' st')"
  then show "dir_ok g ctx' \<and> records_ok g st'"
    by (auto dest!: scan_entry_Descend simp: records_ok_def intro: admits_record sub_ctx_ok)
qed

lemma fat16_open_walk:
  assumes "fat16_open sha data = Inr (g, st)"
  shows "geom_ok g" "g_data g = data" "alloc_ok g st" "table_ok sha g st" "records_ok g st"
    "data_cluster g c \<Longrightarrow> \<exists>v. fat g c = Inr v \<and> (v \<noteq> 0 \<longrightarrow> v_claimed st c \<noteq> None)"
proof -
  from assms have geo: "read_geometry data = Inr g" and w: "walk sha g (root_ctx g) init_vstate = Inr st"
    and reach: "check_reachable g (v_claimed st) [2..<g_cluster_count g + 2] = Inr ()"
    by (auto simp: fat16_open_def exc_simps)
  from read_geometry_ok [OF geo] show g: "geom_ok g" and "g_data g = data" by auto
  note ok = root_ctx_ok [OF g]
  show "alloc_ok g st" by (rule alloc.walk_keeps [OF g ok init_vstate_ok(1) w])
  show "table_ok sha g st" by (rule table.walk_keeps [OF g ok init_vstate_ok(2) w])
  show "records_ok g st" by (rule records.walk_keeps [OF g ok init_vstate_ok(3) w])
  show "data_cluster g c \<Longrightarrow> \<exists>v. fat g c = Inr v \<and> (v \<noteq> 0 \<longrightarrow> v_claimed st c \<noteq> None)"
    using reach unfolding check_reachable_iff data_cluster_def
    by (simp only: set_upt atLeastLessThan_iff Ball_def)
qed

lemma reads_in_range:
  "off + 2 \<le> length data \<Longrightarrow> raises_only P (u16 data off)"
  "off + 4 \<le> length data \<Longrightarrow> raises_only P (u32 data off)"
  "off < length data \<Longrightarrow> raises_only P (byte_at data off)"
  by (auto simp: raises_only_def u16_def u32_def byte_at_def)

lemma read_geometry_exc: "raises_only is_check (read_geometry data)"
  unfolding read_geometry_def Let_def fat_def geom.simps
  by (intro raises reads_in_range is_check_simps) auto

lemma walk_exc:
  assumes "geom_ok g"
  shows "raises_only is_check (walk sha g (root_ctx g) init_vstate)"
  using alloc.walk_expected [OF assms root_ctx_ok [OF assms] init_vstate_ok(1)]
  by (simp add: raises_only_def)

lemma check_reachable_exc:
  assumes "geom_ok g"
  shows "set cs \<subseteq> {..<g_cluster_count g + 2} \<Longrightarrow> raises_only is_check (check_reachable g cl cs)"
proof (induction cs)
  case (Cons c cs)
  then have "c < g_cluster_count g + 2" "set cs \<subseteq> {..<g_cluster_count g + 2}" by auto
  with fat_in_range [OF assms, of c] Cons.IH show ?case
    by (auto simp: raises_only_def exc_simps split: if_splits)
qed (simp add: raises)

lemma open_exc: "raises_only is_check (fat16_open sha data)"
  unfolding fat16_open_def
proof (intro raises read_geometry_exc)
  fix g assume "read_geometry data = Inr g"
  then have g: "geom_ok g" using read_geometry_ok by blast
  show "raises_only is_check (walk sha g (root_ctx g) init_vstate)" by (rule walk_exc [OF g])
  show "raises_only is_check (check_reachable g (v_claimed st) [2..<g_cluster_count g + 2])" for st
    by (rule check_reachable_exc [OF g]) (auto simp only: set_upt atLeastLessThan_iff lessThan_iff)
qed

lemma alloc_chain: "alloc_ok g st \<Longrightarrow> r \<in> set (v_entries st) \<Longrightarrow> chain_ok g r"
  by (simp add: alloc_ok_def)

lemma alloc_claimed:
  "alloc_ok g st \<Longrightarrow>
   v_claimed st c = Some p \<longleftrightarrow> (\<exists>r\<in>set (v_entries st). c \<in> set (e_clusters r) \<and> e_path r = p)"
  by (simp add: alloc_ok_def)

lemma alloc_unique:
  assumes "alloc_ok g st" "table_ok sha g st"
    and r: "r \<in> set (v_entries st)" "c \<in> set (e_clusters r)"
    and r': "r' \<in> set (v_entries st)" "c \<in> set (e_clusters r')"
  shows "r = r'"
proof -
  have "v_claimed st c = Some (e_path r)" using r alloc_claimed [OF assms(1)] by blast
  moreover have "v_claimed st c = Some (e_path r')" using r' alloc_claimed [OF assms(1)] by blast
  moreover have "inj_on e_path (set (v_entries st))"
    using assms(2) by (simp add: table_ok_def distinct_map)
  ultimately show ?thesis using r(1) r'(1) by (auto dest: inj_onD)
qed

lemma table_entry:
  assumes "table_ok sha g st" "r \<in> set (v_entries st)"
  shows "e_type r = File \<Longrightarrow> e_sha256 r = Some (sha (entry_content g r))"
    "e_type r = File \<Longrightarrow> v_files st (e_path r) = Some (entry_content g r)"
    "e_type r = Directory \<Longrightarrow> v_files st (e_path r) = None"
  using assms by (auto simp: table_ok_def dest!: bspec [of _ _ r])

lemma table_files:
  assumes "table_ok sha g st"
  shows "v_files st p = Some content \<longleftrightarrow>
    (\<exists>r\<in>set (v_entries st). e_path r = p \<and> e_type r = File \<and> content = entry_content g r)"
proof
  assume f: "v_files st p = Some content"
  then have "p \<in> e_path ` set (v_entries st)" using assms by (auto simp: table_ok_def)
  then obtain r where "r \<in> set (v_entries st)" "e_path r = p" by auto
  with f table_entry [OF assms, of r]
  show "\<exists>r\<in>set (v_entries st). e_path r = p \<and> e_type r = File \<and> content = entry_content g r"
    by (cases "e_type r") auto
next
  assume "\<exists>r\<in>set (v_entries st). e_path r = p \<and> e_type r = File \<and> content = entry_content g r"
  with table_entry(2) [OF assms] show "v_files st p = Some content" by auto
qed

lemma entry_content_length:
  assumes g: "geom_ok g" and r: "chain_ok g r" "e_type r = File"
  shows "length (entry_content g r) = e_size r"
proof -
  let ?w = "g_cluster_bytes g"
  have w: "0 < ?w" using g by (auto simp: geom_ok_def)
  have ps: "\<forall>p\<in>set (map (cluster_pos g) (e_clusters r)). p + ?w \<le> length (g_data g)"
    using r(1) fat_chain_usable [of g "e_clusters r"] cluster_pos_bound [OF g]
    by (auto simp: chain_ok_def usable_def split: if_splits)
  have "e_size r \<le> length (e_clusters r) * ?w"
  proof -
    have "(e_size r + ?w - 1) mod ?w < ?w" using w by simp
    then have "e_size r \<le> (e_size r + ?w - 1) div ?w * ?w"
      using div_mult_mod_eq [of "e_size r + ?w - 1" ?w] w by linarith
    with r show ?thesis by (simp add: chain_ok_def)
  qed
  with length_payload [OF ps] show ?thesis by (simp add: entry_content_def file_content_def)
qed

lemma record_reads:
  assumes "off + 32 \<le> length data"
  shows "byte_at (pyslice data off (off + 32)) 11 = byte_at data (off + 11)"
    "u16 (pyslice data off (off + 32)) 26 = u16 data (off + 26)"
    "u32 (pyslice data off (off + 32)) 28 = u32 data (off + 28)"
    "take 11 (pyslice data off (off + 32)) = pyslice data off (off + 11)"
  using assms by (simp_all add: byte_at_def u16_def u32_def nth_slice add.commute) (simp_all add: pyslice_def)

section \<open>Properties\<close>

text \<open>
  C33: opening an image of any content either succeeds or raises \<open>InvalidESP\<close>; no
  \<open>struct.error\<close>, \<open>IndexError\<close> or decoding error escapes from the bounded reads.
\<close>

theorem open_raises_only_invalid_esp:
  assumes "fat16_open sha data = Inl e"
  shows "\<exists>m. e = InvalidESP m"
  using raises_onlyD [OF open_exc assms] by (simp add: is_check_iff)

theorem open_raises_only_invalid_esp_witness: "\<exists>m. InvalidESP InvalidImageSize = InvalidESP m"
proof (rule open_raises_only_invalid_esp)
  show "fat16_open (\<lambda>_. []) [] = Inl (InvalidESP InvalidImageSize)"
    by (simp add: fat16_open_def read_geometry_def)
qed

text \<open>
  C3: cluster allocation is exact. In an opened volume a data cluster has a nonzero FAT
  entry if and only if exactly one listed entry has it in its chain, so nothing allocated is
  unreachable, nothing reachable is free, and no two entries share a cluster.
\<close>

theorem open_allocation_exact:
  assumes "fat16_open sha data = Inr (g, st)" "data_cluster g c"
  shows "fat g c \<noteq> Inr 0 \<longleftrightarrow> (\<exists>!r. r \<in> set (v_entries st) \<and> c \<in> set (e_clusters r))"
proof -
  note inv = fat16_open_walk [OF assms(1)]
  show ?thesis
  proof
    assume "fat g c \<noteq> Inr 0"
    with inv(6) [OF assms(2)] obtain p where "v_claimed st c = Some p" by auto
    then obtain r where "r \<in> set (v_entries st)" "c \<in> set (e_clusters r)"
      using alloc_claimed [OF inv(3)] by blast
    then show "\<exists>!r. r \<in> set (v_entries st) \<and> c \<in> set (e_clusters r)"
      using alloc_unique [OF inv(3,4)] by (intro ex_ex1I) blast+
  next
    assume "\<exists>!r. r \<in> set (v_entries st) \<and> c \<in> set (e_clusters r)"
    then obtain r where r: "r \<in> set (v_entries st)" "c \<in> set (e_clusters r)" by blast
    with alloc_chain [OF inv(3) r(1)] have "fat_chain g (e_clusters r)"
      by (auto simp: chain_ok_def split: if_splits)
    from fat_chain_allocated [OF this r(2)] show "fat g c \<noteq> Inr 0" by auto
  qed
qed

theorem open_allocation_exact_witness:
  "fat s_geom 4 \<noteq> Inr 0 \<longleftrightarrow> (\<exists>!r. r \<in> set (v_entries (s_state (\<lambda>_. []))) \<and> 4 \<in> set (e_clusters r))"
  by (rule open_allocation_exact [OF sample_opens]) (simp add: data_cluster_def s_geom_def)

text \<open>
  C28: every entry's clusters follow the file allocation table. An entry without clusters is
  an empty file with first cluster zero; otherwise its list starts at the recorded first
  cluster, each cluster is a data cluster whose FAT entry is the next one, the last carries an
  end mark, none repeats, and a file has exactly the clusters its size needs.
\<close>

theorem open_chains_follow_fat:
  assumes "fat16_open sha data = Inr (g, st)" "r \<in> set (v_entries st)"
  shows "(if e_clusters r = [] then e_type r = File \<and> e_size r = 0 \<and> e_cluster r = 0
          else fat_chain g (e_clusters r) \<and> hd (e_clusters r) = e_cluster r) \<and>
         distinct (e_clusters r) \<and>
         (e_type r = File \<longrightarrow>
            length (e_clusters r) = (e_size r + g_cluster_bytes g - 1) div g_cluster_bytes g)"
proof -
  from fat16_open_walk(3) [OF assms(1)] have "\<forall>r\<in>set (v_entries st). chain_ok g r"
    "distinct (concat (map e_clusters (v_entries st)))" by (auto simp: alloc_ok_def)
  with assms(2) show ?thesis
    by (auto simp: chain_ok_def distinct_concat_iff split: if_splits)
qed

theorem open_chains_follow_fat_witness:
  "fat_chain s_geom [3, 4] \<and> hd [3, 4 :: nat] = 3 \<and> length [3, 4 :: nat] = (600 + 512 - 1) div 512"
proof -
  have "v_entries (s_state (\<lambda>_. [])) ! 2 \<in> set (v_entries (s_state (\<lambda>_. [])))" by (simp add: s_state_def)
  from open_chains_follow_fat [OF sample_opens this] show ?thesis
    by (simp add: s_state_def s_geom_fields)
qed

text \<open>
  C27: the file table is the content of the image. A path is in \<open>files\<close> if and only if it is
  the path of a listed file entry, and what it maps to is the first \<open>size\<close> bytes of the
  data of the entry's clusters, of exactly the recorded size and with the recorded digest.
\<close>

theorem open_files_are_contents:
  assumes "fat16_open sha data = Inr (g, st)"
  shows "v_files st p = Some content \<longleftrightarrow>
    (\<exists>r\<in>set (v_entries st). e_path r = p \<and> e_type r = File \<and> length content = e_size r \<and>
       e_sha256 r = Some (sha content) \<and>
       content = take (e_size r) (concat (map (\<lambda>c. pyslice data (cluster_pos g c)
         (cluster_pos g c + g_cluster_bytes g)) (e_clusters r))))"
proof -
  note inv = fat16_open_walk [OF assms]
  have content: "entry_content g r = take (e_size r) (concat (map (\<lambda>c. pyslice data (cluster_pos g c)
      (cluster_pos g c + g_cluster_bytes g)) (e_clusters r)))" for r
    using inv(2) by (simp add: entry_content_def file_content_def cluster_data_def comp_def)
  have len: "length (entry_content g r) = e_size r" if "r \<in> set (v_entries st)" "e_type r = File" for r
    by (rule entry_content_length [OF inv(1)]) (use inv(3) that in \<open>simp_all add: alloc_ok_def\<close>)
  have "v_files st p = Some content \<longleftrightarrow>
      (\<exists>r\<in>set (v_entries st). e_path r = p \<and> e_type r = File \<and> content = entry_content g r)"
    by (rule table_files [OF inv(4)])
  with len table_entry(1) [OF inv(4)] show ?thesis unfolding content [symmetric] by auto
qed

theorem open_files_are_contents_witness:
  "v_files (s_state (\<lambda>_. [])) (py ''/ZK/K.ELF'') = Some [1, 2, 3] \<and>
   (\<exists>r\<in>set (v_entries (s_state (\<lambda>_. []))). e_path r = py ''/ZK/K.ELF'' \<and> e_size r = 3)"
proof -
  have k: "v_files (s_state (\<lambda>_. [])) (py ''/ZK/K.ELF'') = Some [1, 2, 3]" by (simp add: s_state_def)
  from k [unfolded open_files_are_contents [OF sample_opens]] k show ?thesis by auto
qed

text \<open>
  C29: every entry is the decoding of the 32-byte record at its \<open>entry_offset\<close>, which lies
  inside the image: attribute, first cluster, size and raw name are the record's fields, the
  last component of the path is the record's short name, every component is a canonical
  8.3 name, and no path is deeper than nine components.
\<close>

theorem open_entries_are_records:
  assumes "fat16_open sha data = Inr (g, st)" "r \<in> set (v_entries st)"
  shows "e_offset r + 32 \<le> length data \<and>
    byte_at data (e_offset r + 11) = Inr (if e_type r = Directory then 0x10 else 0x20) \<and>
    u16 data (e_offset r + 26) = Inr (e_cluster r) \<and> u32 data (e_offset r + 28) = Inr (e_size r) \<and>
    decode_ascii (pyslice data (e_offset r) (e_offset r + 11)) = Inr (e_raw_name83 r) \<and>
    (\<exists>dir name. short_name (pyslice data (e_offset r) (e_offset r + 11)) = Inr name \<and>
       e_path r = path_string (dir @ [name]) \<and> length dir \<le> 8 \<and> list_all valid_name (dir @ [name]))"
proof -
  note inv = fat16_open_walk [OF assms(1)]
  from inv(5) assms(2) have rec: "record_ok g r" by (auto simp: records_ok_def)
  then have len: "e_offset r + 32 \<le> length data" using inv(2) by (simp add: record_ok_def)
  from record_reads [OF len] rec inv(2) len show ?thesis
    by (auto simp: record_ok_def record_fields_def attr_of_def Let_def list_all_iff split: entry_type.splits)
qed

theorem open_entries_are_records_witness:
  "byte_at sample 17483 = Inr 0x20 \<and> u16 sample 17498 = Inr 5 \<and> u32 sample 17500 = Inr 3 \<and>
   (\<exists>dir name. short_name (pyslice sample 17472 17483) = Inr name \<and>
      py ''/ZK/K.ELF'' = path_string (dir @ [name]) \<and> length dir \<le> 8)"
proof -
  have "v_entries (s_state (\<lambda>_. [])) ! 1 \<in> set (v_entries (s_state (\<lambda>_. [])))" by (simp add: s_state_def)
  from open_entries_are_records [OF sample_opens this] show ?thesis
    by (simp add: s_state_def) blast
qed

text \<open>
  C30: following a chain is exactly the search for a FAT chain. On checked geometry \<open>chain\<close>
  returns a list of clusters if and only if the list is a chain of usable data clusters from
  the given start to an end mark with no cluster claimed before, and it then claims those
  clusters for the owner and nothing else; every other start raises, and the loop always ends.
\<close>

theorem chain_finds_fat_chains:
  assumes "read_geometry data = Inr g"
  shows "chain g start owner claimed = Inr (cs, cl) \<longleftrightarrow>
    fat_chain g cs \<and> hd cs = start \<and> distinct cs \<and> (\<forall>c\<in>set cs. claimed c = None) \<and>
    cl = (\<lambda>c. if c \<in> set cs then Some owner else claimed c)"
  using chain_iff [of g] read_geometry_ok [OF assms] by (simp add: claim_def)

theorem chain_finds_fat_chains_witness:
  "chain s_geom 3 (py ''/A'') Map.empty =
     Inr ([3, 4], \<lambda>c. if c \<in> set [3, 4] then Some (py ''/A'') else None)"
  unfolding chain_finds_fat_chains [OF sample_geometry]
  by (simp add: usable_def data_cluster_def sample_fat s_fat_reads) (simp add: s_geom_def)

text \<open>
  C35: accepted geometry bounds every later read. The FATs, the root directory and the data
  region follow each other inside the image, the two FATs are equal, every data cluster has
  a FAT entry that can be read, and its bytes lie inside the image.
\<close>

theorem geometry_bounds_reads:
  assumes "read_geometry data = Inr g" "data_cluster g c"
  shows "g_root_offset g = g_fat_offset g + 2 * g_fat_bytes g \<and>
    g_data_offset g = g_root_offset g + g_root_entries g * 32 \<and> g_data_offset g < length data \<and>
    pyslice data (g_fat_offset g) (g_fat_offset g + g_fat_bytes g) =
      pyslice data (g_fat_offset g + g_fat_bytes g) (g_root_offset g) \<and>
    (\<exists>v. fat g c = Inr v \<and> v < 65536) \<and>
    cluster_offset g c = Inr (g_data_offset g + (c - 2) * g_cluster_bytes g) \<and>
    g_data_offset g + (c - 2) * g_cluster_bytes g + g_cluster_bytes g \<le> length data"
proof -
  from read_geometry_ok [OF assms(1)] have g: "geom_ok g" and d: "g_data g = data" by auto
  from assms(2) fat_in_range [OF g, of c] cluster_pos_bound [OF g assms(2)] d
  show ?thesis
    using g by (simp add: geom_ok_def cluster_offset_eq [OF g] cluster_pos_def data_cluster_def)
qed

theorem geometry_bounds_reads_witness: "cluster_offset s_geom 4086 = Inr 2108416"
proof -
  have "data_cluster s_geom 4086" by (simp add: data_cluster_def s_geom_def)
  from geometry_bounds_reads [OF sample_geometry this] show ?thesis by (simp add: s_geom_def)
qed

end
