(* ===== verification/Esp_Verify.thy ===== *)
theory Esp_Verify
  imports Fat16_Volume
begin

text \<open>
  Artifact binding: \<open>canonical_path\<close>, \<open>read_bounded\<close>, \<open>FAT16.geometry\<close> and \<open>verify\<close> of
  \<open>scripts/qualify-native/fat16.py\<close>. The file system, \<open>Path.resolve\<close> and SHA-256 are the
  fields of \<open>host\<close>; a report is a record with the keys of the source's dictionary.
\<close>

section \<open>Paths\<close>

definition canonical_path :: "pystr \<Rightarrow> exc + pystr" where
  "canonical_path raw =
    (let value = map (\<lambda>c. if c = Ch CHR 0x5C then Ch CHR ''/'' else c) raw;
         parts = split_on (Ch CHR ''/'') value in
     ensure (take 1 value = py ''/'' \<and> 1 < length parts) (InvalidESP (NotAbsolute value))
    (ensure (\<forall>p\<in>set (tl parts). p \<noteq> [] \<and> p \<noteq> py ''.'' \<and> p \<noteq> py ''..'' \<and> (\<forall>c\<in>set p. is_ascii c))
       (InvalidESP (InvalidVolumePath value))
    (Inr (py ''/'' @ join_with (py ''/'') (map ascii_upper (tl parts))))))"

definition path_component :: "pystr \<Rightarrow> bool" where
  "path_component p \<longleftrightarrow> p \<noteq> [] \<and> p \<noteq> py ''.'' \<and> p \<noteq> py ''..'' \<and>
     (\<forall>c\<in>set p. is_ascii c \<and> c \<noteq> Ch CHR ''/'' \<and> c \<noteq> Ch CHR 0x5C) \<and> ascii_upper p = p"

lemma split_on_subset: "p \<in> set (split_on c xs) \<Longrightarrow> set p \<subseteq> set xs"
proof (induction xs arbitrary: p)
  case (Cons x xs)
  then show ?case by (cases "split_on c xs") (force split: if_splits)+
qed simp

lemma valid_name_component: "valid_name n \<Longrightarrow> path_component n"
  by (simp add: valid_name_def path_component_def)

lemma code_slash: "code_of (Ch CHR ''/'') = 47" "code_of (Ch CHR 0x5C) = 92" "code_of (Ch CHR ''.'') = 46"
  by simp_all

lemma upper_char_eq:
  assumes "k < 97 \<or> 122 < k" "\<not> (65 \<le> k \<and> k \<le> 90)" "code_of d = k"
  shows "upper_char c = d \<longleftrightarrow> c = d"
proof
  assume "upper_char c = d"
  with assms have "code_of c = code_of d" by (auto simp: code_of_upper split: if_splits)
  then show "c = d" by (rule code_of_inj)
next
  assume "c = d"
  with assms show "upper_char c = d" by (auto simp: upper_char_def)
qed

lemma upper_special:
  "upper_char c = Ch CHR ''/'' \<longleftrightarrow> c = Ch CHR ''/''" "upper_char c = Ch CHR 0x5C \<longleftrightarrow> c = Ch CHR 0x5C"
  "upper_char c = Ch CHR ''.'' \<longleftrightarrow> c = Ch CHR ''.''"
  by (rule upper_char_eq; simp)+

lemma upper_component:
  assumes "p \<noteq> []" "p \<noteq> py ''.''" "p \<noteq> py ''..''" "\<forall>c\<in>set p. is_ascii c"
    "Ch CHR ''/'' \<notin> set p" "Ch CHR 0x5C \<notin> set p"
  shows "path_component (ascii_upper p)"
proof -
  have "ascii_upper p \<noteq> py ''.''" "ascii_upper p \<noteq> py ''..''"
    using assms(2,3) by (auto simp: ascii_upper_def map_eq_Cons_conv upper_special)
  moreover have "is_ascii c \<and> c \<noteq> Ch CHR ''/'' \<and> c \<noteq> Ch CHR 0x5C" if "c \<in> set (ascii_upper p)" for c
  proof -
    from that obtain d where "c = upper_char d" "d \<in> set p" by (auto simp: ascii_upper_def)
    with assms(4-6) show ?thesis by (metis upper_special(1,2) upper_char_ascii)
  qed
  ultimately show ?thesis using assms(1) by (simp add: path_component_def) (simp add: ascii_upper_def)
qed

text \<open>The canonical paths are exactly the strings of one or more canonical components.\<close>

lemma canonical_path_components:
  assumes "canonical_path raw = Inr p"
  shows "\<exists>comps. comps \<noteq> [] \<and> list_all path_component comps \<and> p = path_string comps"
proof -
  let ?v = "map (\<lambda>c. if c = Ch CHR 0x5C then Ch CHR ''/'' else c) raw"
  let ?ps = "tl (split_on (Ch CHR ''/'') ?v)"
  from assms have len: "1 < length (split_on (Ch CHR ''/'') ?v)"
    and ok: "\<forall>p\<in>set ?ps. p \<noteq> [] \<and> p \<noteq> py ''.'' \<and> p \<noteq> py ''..'' \<and> (\<forall>c\<in>set p. is_ascii c)"
    and p: "p = path_string (map ascii_upper ?ps)"
    by (auto simp: canonical_path_def Let_def exc_simps path_string_def)
  have "Ch CHR ''/'' \<notin> set q \<and> Ch CHR 0x5C \<notin> set q" if "q \<in> set ?ps" for q
  proof -
    from that have q: "q \<in> set (split_on (Ch CHR ''/'') ?v)" by (rule list.set_sel(2) [rotated]) simp
    from split_on_parts [OF q] split_on_subset [OF q] show ?thesis by auto
  qed
  with ok have "list_all path_component (map ascii_upper ?ps)"
    by (auto simp: list_all_iff intro!: upper_component)
  moreover have "?ps \<noteq> []" using len by (cases "split_on (Ch CHR ''/'') ?v") auto
  ultimately show ?thesis using p by blast
qed

lemma canonical_path_fixed:
  assumes "comps \<noteq> []" "list_all path_component comps"
  shows "canonical_path (path_string comps) = Inr (path_string comps)"
proof -
  have sub: "set (join_with sep cs) \<subseteq> set sep \<union> \<Union> (set ` set cs)" for sep :: pystr and cs
    by (induction sep cs rule: join_with.induct) auto
  have "c \<noteq> Ch CHR 0x5C" if "c \<in> set (path_string comps)" for c
  proof -
    from that sub [of "py ''/''" comps] have "c = Ch CHR ''/'' \<or> (\<exists>p\<in>set comps. c \<in> set p)"
      by (auto simp: path_string_def)
    with assms(2) show ?thesis by (auto simp: list_all_iff path_component_def)
  qed
  then have v: "map (\<lambda>c. if c = Ch CHR 0x5C then Ch CHR ''/'' else c) (path_string comps) = path_string comps"
    by (intro map_idI) auto
  have s: "split_on (Ch CHR ''/'') (path_string comps) = [] # comps"
    using assms split_join [of comps "Ch CHR ''/''"]
    by (auto simp: path_string_def list_all_iff path_component_def)
  have up: "map ascii_upper comps = comps"
    using assms(2) by (intro map_idI) (auto simp: list_all_iff path_component_def)
  have ok: "\<forall>p\<in>set comps. p \<noteq> [] \<and> p \<noteq> py ''.'' \<and> p \<noteq> py ''..'' \<and> (\<forall>c\<in>set p. is_ascii c)"
    using assms(2) by (auto simp: list_all_iff path_component_def)
  show ?thesis
    unfolding canonical_path_def v s Let_def list.sel up
    using assms(1) ok by (simp add: ensure_def) (simp add: path_string_def)
qed

section \<open>Verification of an image against external artifacts\<close>

text \<open>What the host answers: the content of a file or a resolved path, or the exception raised.\<close>

record host =
  h_read :: "pystr \<Rightarrow> exc + bytes"
  h_resolve :: "pystr \<Rightarrow> exc + pystr"
  h_sha :: "bytes \<Rightarrow> pystr"

text \<open>\<open>handle.read(maximum + 1)\<close> returns at most that many bytes.\<close>

definition read_bounded :: "host \<Rightarrow> pystr \<Rightarrow> exc + bytes" where
  "read_bounded h path =
    ebind (h_read h path) (\<lambda>content.
      let data = take (MAX_IMAGE + 1) content in
      ensure (length data \<le> MAX_IMAGE) (InvalidESP (InputExceeds MAX_IMAGE path)) (Inr data))"

record geometry_view =
  gv_sector_bytes :: nat
  gv_cluster_bytes :: nat
  gv_clusters :: nat
  gv_fat_offset :: nat
  gv_fat_bytes :: nat
  gv_root_offset :: nat
  gv_data_offset :: nat

definition geometry :: "geom \<Rightarrow> geometry_view" where
  "geometry g = \<lparr>gv_sector_bytes = 512, gv_cluster_bytes = g_cluster_bytes g,
     gv_clusters = g_cluster_count g, gv_fat_offset = g_fat_offset g, gv_fat_bytes = g_fat_bytes g,
     gv_root_offset = g_root_offset g, gv_data_offset = g_data_offset g\<rparr>"

record comparison =
  c_path :: pystr
  c_external :: pystr
  c_external_bytes :: nat
  c_external_sha256 :: pystr
  c_embedded_bytes :: "nat option"
  c_embedded_sha256 :: "pystr option"
  c_match :: bool

datatype esp_error = Raised exc | MissingPath pystr | ArtifactMismatch pystr

datatype status = Pass | Fail | Unavailable_status

record esp_report =
  r_status :: status
  r_image :: pystr
  r_image_sha256 :: "pystr option"
  r_image_bytes :: "nat option"
  r_geometry :: "geometry_view option"
  r_entries :: "dentry list option"
  r_comparisons :: "comparison list"
  r_errors :: "esp_error list"

definition compare_item :: "host \<Rightarrow> vstate \<Rightarrow> pystr \<Rightarrow> pystr \<Rightarrow> bytes \<Rightarrow> comparison" where
  "compare_item h st logical resolved wanted =
    (let actual = v_files st logical in
     \<lparr>c_path = logical, c_external = resolved, c_external_bytes = length wanted,
      c_external_sha256 = h_sha h wanted, c_embedded_bytes = map_option length actual,
      c_embedded_sha256 = map_option (h_sha h) actual, c_match = (actual = Some wanted)\<rparr>)"

definition record_item :: "host \<Rightarrow> vstate \<Rightarrow> pystr \<Rightarrow> pystr \<Rightarrow> bytes \<Rightarrow> esp_report \<Rightarrow> esp_report" where
  "record_item h st logical resolved wanted rep =
    (let item = compare_item h st logical resolved wanted;
         rep' = rep\<lparr>r_comparisons := r_comparisons rep @ [item]\<rparr> in
     if c_match item then rep'
     else rep'\<lparr>r_errors := r_errors rep' @
       [if v_files st logical = None then MissingPath logical else ArtifactMismatch logical]\<rparr>)"

text \<open>
  The loop over the expected artifacts. It extends the report, which keeps what was added
  when an exception ends the loop, so the exception is returned next to the report.
\<close>

fun compare_all ::
  "host \<Rightarrow> vstate \<Rightarrow> (pystr \<times> pystr) list \<Rightarrow> pystr set \<Rightarrow> esp_report \<Rightarrow> esp_report \<times> exc option" where
  "compare_all h st [] used rep = (rep, None)"
| "compare_all h st ((path, external) # expected) used rep =
    (case canonical_path path of
       Inl e \<Rightarrow> (rep, Some e)
     | Inr logical \<Rightarrow>
         if logical \<in> used then (rep, Some (InvalidESP (DuplicateExpectedPath logical)))
         else (case read_bounded h external of
            Inl e \<Rightarrow> (rep, Some e)
          | Inr wanted \<Rightarrow>
              (case h_resolve h external of
                 Inl e \<Rightarrow> (rep, Some e)
               | Inr resolved \<Rightarrow>
                   compare_all h st expected (insert logical used) (record_item h st logical resolved wanted rep))))"

text \<open>The \<open>except\<close> clause: \<open>InvalidESP\<close>, \<open>OSError\<close> and \<open>struct.error\<close> become an error of the report.\<close>

definition caught :: "exc \<Rightarrow> bool" where
  "caught e \<longleftrightarrow> (case e of InvalidESP _ \<Rightarrow> True | OSError _ _ \<Rightarrow> True | StructError \<Rightarrow> True | _ \<Rightarrow> False)"

definition handle :: "esp_report \<Rightarrow> exc \<Rightarrow> 'v \<Rightarrow> exc + (esp_report \<times> 'v)" where
  "handle rep e volume =
    (if caught e then Inr (rep\<lparr>r_errors := r_errors rep @ [Raised e], r_status := Fail\<rparr>, volume) else Inl e)"

definition verify ::
  "host \<Rightarrow> pystr \<Rightarrow> (pystr \<times> pystr) list \<Rightarrow> exc + (esp_report \<times> (geom \<times> vstate) option)" where
  "verify h img expected =
    ebind (h_resolve h img) (\<lambda>resolved.
     let rep = \<lparr>r_status = Fail, r_image = resolved, r_image_sha256 = None, r_image_bytes = None,
       r_geometry = None, r_entries = None, r_comparisons = [], r_errors = []\<rparr> in
     case read_bounded h img of
       Inl e \<Rightarrow> handle rep e None
     | Inr data \<Rightarrow>
        let rep = rep\<lparr>r_image_sha256 := Some (h_sha h data), r_image_bytes := Some (length data)\<rparr> in
        case fat16_open (h_sha h) data of
          Inl e \<Rightarrow> handle rep e None
        | Inr (g, st) \<Rightarrow>
           let rep = rep\<lparr>r_geometry := Some (geometry g), r_entries := Some (v_entries st)\<rparr> in
           case compare_all h st expected {} rep of
             (rep, Some e) \<Rightarrow> handle rep e (Some (g, st))
           | (rep, None) \<Rightarrow>
              Inr (rep\<lparr>r_status := (if r_errors rep \<noteq> [] then Fail else Pass)\<rparr>, Some (g, st)))"

section \<open>What the comparison loop establishes\<close>

lemma caught_iff: "caught e \<longleftrightarrow> (\<exists>m. e = InvalidESP m) \<or> (\<exists>n t. e = OSError n t) \<or> e = StructError"
  by (cases e) (simp_all add: caught_def)

lemma canonical_path_exc: "raises_only caught (canonical_path p)"
  unfolding canonical_path_def Let_def by (intro raises) (simp_all add: caught_def)

lemma read_bounded_Inl: "read_bounded h p = Inl e \<Longrightarrow> caught e \<or> h_read h p = Inl e"
  by (auto simp: read_bounded_def caught_def Let_def exc_simps split: if_splits)

lemma read_bounded_Inr:
  "read_bounded h p = Inr data \<longleftrightarrow> h_read h p = Inr data \<and> length data \<le> MAX_IMAGE"
  by (auto simp: read_bounded_def Let_def exc_simps)

text \<open>The exceptions of the host on the external files, as the loop meets them.\<close>

definition external_raises :: "host \<Rightarrow> (pystr \<times> pystr) list \<Rightarrow> exc \<Rightarrow> bool" where
  "external_raises h expected e \<longleftrightarrow>
     (\<exists>path external. (path, external) \<in> set expected \<and> (h_read h external = Inl e \<or> h_resolve h external = Inl e))"

lemma compare_all_exc:
  "compare_all h st expected used rep = (rep', Some e) \<Longrightarrow> caught e \<or> external_raises h expected e"
proof (induction expected arbitrary: used rep)
  case (Cons x expected)
  then show ?case
    using raises_onlyD [OF canonical_path_exc, of "fst x"] read_bounded_Inl [of h "snd x"]
    by (cases x) (auto simp: caught_def external_raises_def split: sum.splits if_splits)
qed simp

lemma record_item_errors:
  "r_errors (record_item h st logical resolved wanted rep) = r_errors rep @
     (if v_files st logical = Some wanted then []
      else [if v_files st logical = None then MissingPath logical else ArtifactMismatch logical])"
  by (simp add: record_item_def compare_item_def Let_def)

text \<open>One expected artifact is bound: the volume holds the external bytes at its canonical path.\<close>

definition bound :: "host \<Rightarrow> vstate \<Rightarrow> pystr \<times> pystr \<Rightarrow> pystr \<Rightarrow> bool" where
  "bound h st x logical \<longleftrightarrow> canonical_path (fst x) = Inr logical \<and>
     (\<exists>wanted resolved. read_bounded h (snd x) = Inr wanted \<and> h_resolve h (snd x) = Inr resolved \<and>
        v_files st logical = Some wanted)"

lemma compare_all_errors:
  "compare_all h st expected used rep = (rep', e) \<Longrightarrow> \<exists>es. r_errors rep' = r_errors rep @ es"
proof (induction expected arbitrary: used rep)
  case (Cons x expected)
  obtain path external where x: "x = (path, external)" by (cases x)
  show ?case
  proof (cases "canonical_path path")
    case p: (Inr logical)
    show ?thesis
    proof (cases "\<exists>wanted resolved. read_bounded h external = Inr wanted \<and> h_resolve h external = Inr resolved")
      case True
      with p Cons x show ?thesis
        by (cases "logical \<in> used") (fastforce simp: record_item_errors)+
    qed (use p Cons x in \<open>auto split: if_splits sum.splits\<close>)
  qed (use Cons x in auto)
qed simp

lemma compare_all_clean:
  "(\<exists>rep'. compare_all h st expected used rep = (rep', None) \<and> r_errors rep' = []) \<longleftrightarrow>
   r_errors rep = [] \<and> (\<exists>ps. list_all2 (bound h st) expected ps \<and> distinct ps \<and> set ps \<inter> used = {})"
proof (induction expected arbitrary: used rep)
  case (Cons x expected)
  obtain path external where x: "x = (path, external)" by (cases x)
  show ?case
  proof (cases "\<exists>logical wanted resolved. canonical_path path = Inr logical \<and> logical \<notin> used \<and>
      read_bounded h external = Inr wanted \<and> h_resolve h external = Inr resolved")
    case False
    then show ?thesis
      by (auto simp: x bound_def list_all2_Cons1 split: sum.splits)
  next
    case True
    then obtain logical wanted resolved where l: "canonical_path path = Inr logical" "logical \<notin> used"
      "read_bounded h external = Inr wanted" "h_resolve h external = Inr resolved" by blast
    have "bound h st x l' \<longleftrightarrow> l' = logical \<and> v_files st logical = Some wanted" for l'
      using l by (auto simp: x bound_def)
    then have cons: "list_all2 (bound h st) (x # expected) ps \<longleftrightarrow>
        v_files st logical = Some wanted \<and> (\<exists>qs. ps = logical # qs \<and> list_all2 (bound h st) expected qs)" for ps
      by (auto simp: list_all2_Cons1)
    have "(\<exists>ps. list_all2 (bound h st) (x # expected) ps \<and> distinct ps \<and> set ps \<inter> used = {}) \<longleftrightarrow>
        v_files st logical = Some wanted \<and>
        (\<exists>qs. list_all2 (bound h st) expected qs \<and> distinct qs \<and> set qs \<inter> insert logical used = {})"
    proof -
      have "(\<exists>ps. (F \<and> (\<exists>qs. ps = logical # qs \<and> A qs)) \<and> B ps) \<longleftrightarrow> F \<and> (\<exists>qs. A qs \<and> B (logical # qs))"
        for F A B by blast
      from this [of "v_files st logical = Some wanted" "list_all2 (bound h st) expected"
          "\<lambda>ps. distinct ps \<and> set ps \<inter> used = {}"]
      show ?thesis unfolding cons using l(2) by (simp add: conj_ac)
    qed
    then show ?thesis
      using l Cons.IH [of "insert logical used" "record_item h st logical resolved wanted rep"]
      by (auto simp: x record_item_errors)
  qed
qed auto

lemma handle_Inr:
  "handle rep e volume = Inr (rep', volume') \<longleftrightarrow>
     caught e \<and> volume' = volume \<and> rep' = rep\<lparr>r_errors := r_errors rep @ [Raised e], r_status := Fail\<rparr>"
  by (auto simp: handle_def)

lemma handle_caught: "caught e \<Longrightarrow> \<exists>r. handle rep e volume = Inr r"
  by (simp add: handle_def)

text \<open>How \<open>verify\<close> goes: the image does not resolve, cannot be read, is no volume, or the loop runs.\<close>

lemma verify_cases:
  obtains (unresolved) e where "h_resolve h img = Inl e" "verify h img expected = Inl e"
  | (image_error) e rep0 where "read_bounded h img = Inl e" "verify h img expected = handle rep0 e None"
  | (volume_error) data e rep0 where "read_bounded h img = Inr data" "fat16_open (h_sha h) data = Inl e"
      "verify h img expected = handle rep0 e None"
  | (loop) data g st rep0 rep' e where "read_bounded h img = Inr data"
      "fat16_open (h_sha h) data = Inr (g, st)" "r_errors rep0 = []"
      "compare_all h st expected {} rep0 = (rep', e)"
      "verify h img expected = (case e of Some x \<Rightarrow> handle rep' x (Some (g, st))
         | None \<Rightarrow> Inr (rep'\<lparr>r_status := (if r_errors rep' \<noteq> [] then Fail else Pass)\<rparr>, Some (g, st)))"
proof (cases "h_resolve h img")
  case (Inl e)
  then show thesis by (intro unresolved [OF Inl]) (simp add: verify_def)
next
  case resolved: (Inr r)
  show thesis
  proof (cases "read_bounded h img")
    case (Inl e)
    then show thesis by (intro image_error [OF Inl]) (simp add: verify_def Let_def resolved)
  next
    case data: (Inr data)
    show thesis
    proof (cases "fat16_open (h_sha h) data")
      case (Inl e)
      show thesis by (rule volume_error [OF data Inl]) (simp add: verify_def Let_def resolved data Inl)
    next
      case (Inr gs)
      obtain g st where gs: "gs = (g, st)" by (cases gs)
      let ?rep = "\<lparr>r_status = Fail, r_image = r, r_image_sha256 = Some (h_sha h data),
        r_image_bytes = Some (length data), r_geometry = Some (geometry g),
        r_entries = Some (v_entries st), r_comparisons = [], r_errors = []\<rparr>"
      obtain rep' e where c: "compare_all h st expected {} ?rep = (rep', e)" by (metis surj_pair)
      show thesis
        by (rule loop [OF data Inr [unfolded gs] _ c])
          (simp_all add: verify_def Let_def resolved data Inr gs c split: option.split)
    qed
  qed
qed

lemma verify_raises:
  assumes "verify h img expected = Inl e"
  shows "h_resolve h img = Inl e \<or> \<not> caught e \<and> (h_read h img = Inl e \<or> external_raises h expected e)"
proof (cases h img expected rule: verify_cases)
  case (image_error e' rep0)
  then have "e' = e" "\<not> caught e" using assms by (auto simp: handle_def split: if_splits)
  with read_bounded_Inl [OF image_error(1)] show ?thesis by blast
next
  case (volume_error data e' rep0)
  then have "caught e'" using raises_onlyD [OF open_exc] by (force simp: is_check_iff caught_def)
  with volume_error(3) assms show ?thesis by (simp add: handle_def)
next
  case (loop data g st rep0 rep' e')
  then have "e' = Some e" "\<not> caught e" using assms by (auto simp: handle_def split: option.splits if_splits)
  with compare_all_exc [of h st expected "{}" rep0 rep' e] loop(4) show ?thesis by blast
qed (use assms in auto)

lemma handle_fails: "handle rep0 e v = Inr (rep, volume) \<Longrightarrow> r_status rep = Fail \<and> r_errors rep \<noteq> []"
  by (auto simp: handle_Inr)

lemma verify_status:
  assumes "verify h img expected = Inr (rep, volume)"
  shows "r_status rep = (if r_errors rep = [] then Pass else Fail)"
proof (cases h img expected rule: verify_cases)
  case (loop data g st rep0 rep' e)
  with assms show ?thesis by (cases e) (auto dest: handle_fails handle_fails [OF sym])
qed (use assms in \<open>auto dest: handle_fails handle_fails [OF sym]\<close>)

lemma verify_Pass:
  assumes "verify h img expected = Inr (rep, volume)"
  shows "r_status rep = Pass \<longleftrightarrow>
    (\<exists>data g st. read_bounded h img = Inr data \<and> fat16_open (h_sha h) data = Inr (g, st) \<and>
       (\<exists>ps. list_all2 (bound h st) expected ps \<and> distinct ps))"
proof (cases h img expected rule: verify_cases)
  case (loop data g st rep0 rep' e)
  have "r_status rep = Pass \<longleftrightarrow> e = None \<and> r_errors rep' = []"
    using assms loop(5) by (cases e) (auto dest: handle_fails handle_fails [OF sym] split: if_splits)
  also have "\<dots> \<longleftrightarrow> (\<exists>ps. list_all2 (bound h st) expected ps \<and> distinct ps)"
    using compare_all_clean [of h st expected "{}" rep0] loop(3,4) by simp
  finally show ?thesis using loop(1,2) by simp
qed (use assms in \<open>auto dest: handle_fails handle_fails [OF sym]\<close>)

section \<open>Properties\<close>

text \<open>
  C34: \<open>verify\<close> reports, whatever bytes the image and the artifacts have: the status of a report is pass
  exactly when it records no error. No exception of the FAT16 reader leaves it. What leaves is raised by the
  host: by resolving the path of the image, which is outside the \<open>try\<close>, or, when it is none of the three
  classes caught, by reading the image or by reading or resolving an external file.
\<close>

theorem verify_reports:
  "case verify h img expected of
     Inr (rep, volume) \<Rightarrow> r_status rep = (if r_errors rep = [] then Pass else Fail)
   | Inl e \<Rightarrow> h_resolve h img = Inl e \<or>
       \<not> ((\<exists>m. e = InvalidESP m) \<or> (\<exists>n t. e = OSError n t) \<or> e = StructError) \<and>
       (h_read h img = Inl e \<or>
        (\<exists>path external. (path, external) \<in> set expected \<and> (h_read h external = Inl e \<or> h_resolve h external = Inl e)))"
  using verify_status [of h img expected] verify_raises [of h img expected]
  unfolding caught_iff external_raises_def by (auto split: sum.split)

text \<open>
  C8: a pass is a proof of binding and nothing weaker passes. The report says pass if and
  only if the image is readable within the size bound and opens as a volume, every expected
  path is canonical with no two equal, every external file is readable within the bound and its path resolves,
  and the volume's file at the canonical path is byte for byte that external file.
\<close>

theorem verify_pass_iff_bound:
  assumes "verify h img expected = Inr (rep, volume)"
  shows "r_status rep = Pass \<longleftrightarrow>
    (\<exists>data g st paths. h_read h img = Inr data \<and> length data \<le> MAX_IMAGE \<and>
       fat16_open (h_sha h) data = Inr (g, st) \<and> distinct paths \<and>
       list_all2 (\<lambda>(path, external) logical. canonical_path path = Inr logical \<and>
         (\<exists>wanted resolved. h_read h external = Inr wanted \<and> length wanted \<le> MAX_IMAGE \<and>
            h_resolve h external = Inr resolved \<and> v_files st logical = Some wanted)) expected paths)"
proof -
  have "bound h st = (\<lambda>(path, external) logical. canonical_path path = Inr logical \<and>
         (\<exists>wanted resolved. h_read h external = Inr wanted \<and> length wanted \<le> MAX_IMAGE \<and>
            h_resolve h external = Inr resolved \<and> v_files st logical = Some wanted))" for st
    by (auto simp: bound_def fun_eq_iff read_bounded_Inr)
  then show ?thesis
    unfolding verify_Pass [OF assms] read_bounded_Inr by metis
qed

definition sample_host :: host where
  "sample_host =
    \<lparr>h_read = (\<lambda>p. if p = py ''esp.img'' then Inr sample else if p = py ''k'' then Inr [1, 2, 3]
       else Inl (OSError (py ''FileNotFoundError'') p)),
     h_resolve = Inr, h_sha = (\<lambda>_. [])\<rparr>"

text \<open>A host that resolves every path and reads without exceptions of other classes gets a report.\<close>

lemma verify_total:
  assumes "\<And>p e. h_read h p = Inl e \<Longrightarrow> caught e" "\<And>p. \<exists>r. h_resolve h p = Inr r"
  shows "\<exists>r. verify h img expected = Inr r"
proof (cases "verify h img expected")
  case (Inl e)
  from verify_raises [OF Inl] assms show ?thesis unfolding external_raises_def by (metis sum.distinct(1))
qed blast

theorem verify_pass_iff_bound_witness:
  "\<exists>rep volume. verify sample_host (py ''esp.img'') [(py ''/zk/k.elf'', py ''k'')] = Inr (rep, volume) \<and>
     r_status rep = Pass"
proof -
  have "\<exists>r. verify sample_host (py ''esp.img'') [(py ''/zk/k.elf'', py ''k'')] = Inr r"
    by (rule verify_total) (auto simp: sample_host_def caught_def split: if_splits)
  then obtain rep volume where r: "verify sample_host (py ''esp.img'') [(py ''/zk/k.elf'', py ''k'')] = Inr (rep, volume)"
    by (metis surj_pair)
  have "canonical_path (py ''/zk/k.elf'') = Inr (py ''/ZK/K.ELF'')" by code_simp
  then have "r_status rep = Pass"
    unfolding verify_pass_iff_bound [OF r]
    using sample_opens [of "\<lambda>_. []"]
    by (intro exI [of _ sample] exI [of _ s_geom] exI [of _ "s_state (\<lambda>_. [])"] exI [of _ "[py ''/ZK/K.ELF'']"])
      (simp add: sample_host_def s_state_def MAX_IMAGE_def)
  with r show ?thesis by blast
qed

text \<open>
  canonical paths are stable. Canonicalising a canonical path returns it unchanged, so
  the duplicate check and the lookup compare normal forms.
\<close>

theorem canonical_path_idempotent:
  assumes "canonical_path raw = Inr p"
  shows "canonical_path p = Inr p"
  using canonical_path_components [OF assms] canonical_path_fixed by blast

theorem canonical_path_idempotent_witness: "canonical_path (py ''/ZK/K.ELF'') = Inr (py ''/ZK/K.ELF'')"
proof (rule canonical_path_idempotent)
  show "canonical_path (py ''/zk'' @ [Ch CHR 0x5C] @ py ''K.elf'') = Inr (py ''/ZK/K.ELF'')" by code_simp
qed

text \<open>
  Every file of a volume can be asked for. The path of each listed entry is canonical,
  so a lookup through \<open>canonical_path\<close> reaches every embedded file by its own path.
\<close>

theorem embedded_paths_are_canonical:
  assumes "fat16_open sha data = Inr (g, st)" "v_files st p = Some content"
  shows "canonical_path p = Inr p"
proof -
  note inv = fat16_open_walk [OF assms(1)]
  from assms(2) table_files [OF inv(4)] obtain r where r: "r \<in> set (v_entries st)" "e_path r = p" by blast
  with inv(5) have "record_ok g r" by (simp add: records_ok_def)
  with r(2) obtain comps name where "p = path_string (comps @ [name])"
    "\<forall>c\<in>set (comps @ [name]). valid_name c" by (auto simp: record_ok_def Let_def)
  then show ?thesis
    by (auto simp: list_all_iff intro!: canonical_path_fixed valid_name_component)
qed

theorem embedded_paths_are_canonical_witness: "canonical_path (py ''/ZK/K.ELF'') = Inr (py ''/ZK/K.ELF'')"
  by (rule embedded_paths_are_canonical [OF sample_opens [of "\<lambda>_. []"], where content = "[1, 2, 3]"])
    (simp add: s_state_def)

end
