(* ===== verification/PyText.thy ===== *)
theory PyText
  imports Prelude
begin

text \<open>
  The parts of Python's \<open>str\<close> and \<open>re\<close> that the transcript verifiers use: \<open>startswith\<close>,
  \<open>splitlines\<close>, \<open>int\<close> on decimal and hexadecimal digits, and a matcher for the fragment of
  regular expressions that occurs in the program. A regular expression is data, and
  \<open>rmatch\<close> lists its successes in the order in which Python's backtracking finds them.
\<close>

named_theorems rx \<open>inversion rules for the successes of a regular expression\<close>

section \<open>Strings\<close>

definition starts_with :: "pystr \<Rightarrow> pystr \<Rightarrow> bool" where
  "starts_with line p \<longleftrightarrow> take (length p) line = p"

lemma starts_with_iff: "starts_with line p \<longleftrightarrow> (\<exists>t. line = p @ t)"
proof
  assume "starts_with line p"
  then show "\<exists>t. line = p @ t" unfolding starts_with_def by (metis append_take_drop_id)
qed (auto simp: starts_with_def)

lemma starts_with_append [simp]: "starts_with (p @ t) p"
  by (simp add: starts_with_def)

text \<open>\<open>needle in text\<close>.\<close>

fun contains :: "pystr \<Rightarrow> pystr \<Rightarrow> bool" where
  "contains needle [] \<longleftrightarrow> needle = []"
| "contains needle (c # cs) \<longleftrightarrow> starts_with (c # cs) needle \<or> contains needle cs"

abbreviation LF :: pychar where "LF \<equiv> Ch CHR 0x0A"
abbreviation CR :: pychar where "CR \<equiv> Ch CHR 0x0D"
abbreviation SP :: pychar where "SP \<equiv> Ch CHR '' ''"
abbreviation TAB :: pychar where "TAB \<equiv> Ch CHR 0x09"

text \<open>The line boundaries of \<open>str.splitlines\<close>.\<close>

definition line_break :: "pychar \<Rightarrow> bool" where
  "line_break c \<longleftrightarrow> code_of c \<in> {0x0A, 0x0D, 0x0B, 0x0C, 0x1C, 0x1D, 0x1E, 0x85, 0x2028, 0x2029}"

function splitlines :: "pystr \<Rightarrow> pystr list" where
  "splitlines [] = []"
| "splitlines (c # cs) =
     (if line_break c then [] # splitlines (if c = CR \<and> take 1 cs = [LF] then tl cs else cs)
      else (case splitlines cs of [] \<Rightarrow> [[c]]
            | l # ls \<Rightarrow> (c # l) # ls))"
  by pat_completeness auto
termination
  by (relation "measure length") auto

lemma splitlines_no_break: "l \<in> set (splitlines s) \<Longrightarrow> c \<in> set l \<Longrightarrow> \<not> line_break c"
proof (induction s arbitrary: l rule: splitlines.induct)
  case (2 x xs)
  then show ?case by (force split: if_splits list.splits)
qed simp

lemma splitlines_no_LF: "l \<in> set (splitlines s) \<Longrightarrow> LF \<notin> set l"
  using splitlines_no_break by (fastforce simp: line_break_def)

text \<open>Text of the form line, newline, line, newline splits into its lines.\<close>

lemma splitlines_line:
  "\<forall>c\<in>set l. \<not> line_break c \<Longrightarrow> splitlines (l @ LF # s) = l # splitlines s"
  by (induction l) (auto simp: line_break_def)

lemma splitlines_concat:
  "\<forall>l\<in>set ls. \<forall>c\<in>set l. \<not> line_break c \<Longrightarrow> splitlines (concat (map (\<lambda>l. l @ [LF]) ls)) = ls"
  by (induction ls) (auto simp: splitlines_line)

text \<open>\<open>enumerate(lines, 1)\<close>.\<close>

definition numbered :: "'a list \<Rightarrow> (nat \<times> 'a) list" where
  "numbered xs = List.enumerate 1 xs"

lemma numbered_Nil [simp]: "numbered [] = []"
  by (simp add: numbered_def)

lemma numbered_snoc [simp]: "numbered (xs @ [x]) = numbered xs @ [(Suc (length xs), x)]"
  by (simp add: numbered_def enumerate_append_eq)

lemma numbered_map_snd [simp]: "map snd (numbered xs) = xs"
  by (simp add: numbered_def)

lemma in_numbered: "(n, x) \<in> set (numbered xs) \<longleftrightarrow> 0 < n \<and> n \<le> length xs \<and> x = xs ! (n - 1)"
  by (auto simp: numbered_def in_set_enumerate_eq)

section \<open>Integers\<close>

text \<open>
  \<open>int(text)\<close> on decimal digits raises \<open>ValueError\<close> for more digits than the interpreter's
  conversion limit; base 16 has no limit.
\<close>

datatype value_error = DigitLimit nat

definition MAX_STR_DIGITS :: nat where "MAX_STR_DIGITS = 4300"

definition digit_value :: "pychar \<Rightarrow> nat" where
  "digit_value c = (if code_of c \<le> 57 then code_of c - 48 else code_of c - 87)"

definition from_digits :: "nat \<Rightarrow> pystr \<Rightarrow> nat" where
  "from_digits b s = foldl (\<lambda>a c. b * a + digit_value c) 0 s"

definition int_dec :: "pystr \<Rightarrow> value_error + nat" where
  "int_dec s = ensure (length s \<le> MAX_STR_DIGITS) (DigitLimit (length s)) (Inr (from_digits 10 s))"

definition int_hex :: "pystr \<Rightarrow> nat" where
  "int_hex s = from_digits 16 s"

lemma from_digits_snoc [simp]: "from_digits b (s @ [c]) = b * from_digits b s + digit_value c"
  by (simp add: from_digits_def)

lemma digit_value_digit [simp]: "d < 10 \<Longrightarrow> digit_value (digit_char d) = d"
  by (simp add: digit_value_def)

lemma from_digits_show_nat [simp]: "from_digits 10 (show_nat n) = n"
proof (induction n rule: show_nat.induct)
  case (1 n)
  show ?case
  proof (cases "n < 10")
    case True
    then show ?thesis by (subst show_nat.simps) (simp add: from_digits_def)
  next
    case False
    with 1 show ?thesis by (subst show_nat.simps) simp
  qed
qed

lemma from_digits_bound:
  "\<forall>c\<in>set s. digit_value c < b \<Longrightarrow> from_digits b s < b ^ length s"
proof (induction s rule: rev_induct)
  case (snoc c s)
  then have "from_digits b s + 1 \<le> b ^ length s" "digit_value c < b" by auto
  then have "b * from_digits b s + b \<le> b * b ^ length s"
    by (metis Suc_eq_plus1 add.commute mult_Suc_right mult_le_mono2)
  with \<open>digit_value c < b\<close> show ?case by simp
qed (simp add: from_digits_def)

section \<open>Regular expressions\<close>

text \<open>A character class is a list of code point ranges; \<open>Dot\<close> is every character but newline.\<close>

datatype cls = Ranges "(nat \<times> nat) list" | Dot

fun in_cls :: "cls \<Rightarrow> pychar \<Rightarrow> bool" where
  "in_cls (Ranges rs) c = list_ex (\<lambda>(a, b). a \<le> code_of c \<and> code_of c \<le> b) rs"
| "in_cls Dot c = (c \<noteq> LF)"

text \<open>
  \<open>Rep c lo hi\<close> is a greedy repetition of a class (\<open>[..]\<close>, \<open>[..]+\<close>, \<open>[..]*\<close>, \<open>[..]{16}\<close>),
  \<open>Grp i r\<close> the capturing group number \<open>i\<close>, \<open>Opt r\<close> the greedy \<open>(?:r)?\<close>, \<open>Eol\<close> is \<open>$\<close>.
  Every pattern of the program starts with \<open>^\<close> and is applied at position 0, where it always
  holds.
\<close>

datatype regex =
    Lit pystr
  | Rep cls nat "nat option"
  | Cat regex regex
  | Alt regex regex
  | Opt regex
  | Grp nat regex
  | Eol

text \<open>The matcher's state: the characters consumed so far, the rest, and the captured groups.\<close>

type_synonym groups = "(nat \<times> pystr) list"
type_synonym mstate = "pystr \<times> groups"

fun rmatch :: "regex \<Rightarrow> mstate \<Rightarrow> mstate list" where
  "rmatch (Lit p) (s, g) = (if starts_with s p then [(drop (length p) s, g)] else [])"
| "rmatch (Rep c lo hi) (s, g) =
     (let n = length (takeWhile (in_cls c) s);
          top = (case hi of None \<Rightarrow> n | Some h \<Rightarrow> min n h) in
      map (\<lambda>k. (drop k s, g)) (rev [lo..<Suc top]))"
| "rmatch (Cat r q) st = concat (map (rmatch q) (rmatch r st))"
| "rmatch (Alt r q) st = rmatch r st @ rmatch q st"
| "rmatch (Opt r) st = rmatch r st @ [st]"
| "rmatch (Grp i r) (s, g) =
     map (\<lambda>(s', g'). (s', (i, take (length s - length s') s) # g')) (rmatch r (s, g))"
| "rmatch Eol (s, g) = (if s = [] \<or> s = [LF] then [(s, g)] else [])"

primrec cats :: "regex list \<Rightarrow> regex" where
  "cats [] = Lit []"
| "cats (r # rs) = (if rs = [] then r else Cat r (cats rs))"

text \<open>\<open>re.match\<close> takes the first success, \<open>re.fullmatch\<close> the first that consumes everything.\<close>

definition re_match :: "regex \<Rightarrow> pystr \<Rightarrow> groups option" where
  "re_match r s = (case rmatch r (s, []) of [] \<Rightarrow> None | (_, g) # _ \<Rightarrow> Some g)"

definition re_fullmatch :: "regex \<Rightarrow> pystr \<Rightarrow> groups option" where
  "re_fullmatch r s =
    (case filter (\<lambda>(s', _). s' = []) (rmatch r (s, [])) of [] \<Rightarrow> None | (_, g) # _ \<Rightarrow> Some g)"

text \<open>\<open>m.group(i)\<close>, the empty string for a group that did not take part (\<open>m.group(i) or ''''\<close>).\<close>

definition group :: "groups \<Rightarrow> nat \<Rightarrow> pystr" where
  "group g i = (case map_of g i of None \<Rightarrow> [] | Some t \<Rightarrow> t)"

lemma group_simps [simp]:
  "group ((i, t) # g) j = (if i = j then t else group g j)" "group [] j = []"
  by (simp_all add: group_def)

subsection \<open>Inversion\<close>

lemma rmatch_Lit [rx]: "(s', g') \<in> set (rmatch (Lit p) (s, g)) \<longleftrightarrow> s = p @ s' \<and> g' = g"
  by (auto simp: starts_with_iff)

lemma prefix_in_cls: "(k \<le> length (takeWhile P s)) \<longleftrightarrow> (k \<le> length s \<and> (\<forall>c\<in>set (take k s). P c))"
proof (induction s arbitrary: k)
  case (Cons a s)
  then show ?case by (cases k) auto
qed auto

lemma rmatch_Rep [rx]:
  "(s', g') \<in> set (rmatch (Rep c lo hi) (s, g)) \<longleftrightarrow>
    (\<exists>w. s = w @ s' \<and> (\<forall>x\<in>set w. in_cls c x) \<and> lo \<le> length w \<and>
       (\<forall>h. hi = Some h \<longrightarrow> length w \<le> h)) \<and> g' = g"
    (is "?L \<longleftrightarrow> ?R")
proof
  assume ?L
  then obtain k where k: "s' = drop k s" "g' = g" "lo \<le> k" "k \<le> length (takeWhile (in_cls c) s)"
    "\<forall>h. hi = Some h \<longrightarrow> k \<le> h"
    by (auto simp: Let_def split: option.splits)
  then show ?R unfolding prefix_in_cls by (intro conjI exI [of _ "take k s"]) auto
next
  assume ?R
  then obtain w where w: "s = w @ s'" "\<forall>x\<in>set w. in_cls c x" "lo \<le> length w"
    "\<forall>h. hi = Some h \<longrightarrow> length w \<le> h" "g' = g" by blast
  then have "length w \<le> length (takeWhile (in_cls c) s)" by (simp add: prefix_in_cls)
  with w(2-5) show ?L unfolding w(1)
    by (cases hi) (auto simp: Let_def min_def intro!: rev_image_eqI [of "length w"])
qed

lemma rmatch_Cat [rx]:
  "(s', g') \<in> set (rmatch (Cat r q) st) \<longleftrightarrow>
    (\<exists>s1 g1. (s1, g1) \<in> set (rmatch r st) \<and> (s', g') \<in> set (rmatch q (s1, g1)))"
  by auto

lemma rmatch_Alt [rx]:
  "(s', g') \<in> set (rmatch (Alt r q) st) \<longleftrightarrow> (s', g') \<in> set (rmatch r st) \<or> (s', g') \<in> set (rmatch q st)"
  by simp

lemma rmatch_Opt [rx]:
  "(s', g') \<in> set (rmatch (Opt r) st) \<longleftrightarrow> (s', g') \<in> set (rmatch r st) \<or> (s', g') = st"
  by auto

lemma rmatch_Grp [rx]:
  "(s', g') \<in> set (rmatch (Grp i r) (s, g)) \<longleftrightarrow>
    (\<exists>g1. (s', g1) \<in> set (rmatch r (s, g)) \<and> g' = (i, take (length s - length s') s) # g1)"
  by force

lemma rmatch_Eol [rx]: "(s', g') \<in> set (rmatch Eol (s, g)) \<longleftrightarrow> (s = [] \<or> s = [LF]) \<and> s' = s \<and> g' = g"
  by auto

lemma re_fullmatch_Some:
  "re_fullmatch r s = Some g \<Longrightarrow> ([], g) \<in> set (rmatch r (s, []))"
proof -
  assume a: "re_fullmatch r s = Some g"
  then obtain s' rest where "filter (\<lambda>(s', _). s' = []) (rmatch r (s, [])) = (s', g) # rest"
    by (auto simp: re_fullmatch_def split: list.splits)
  then have "(s', g) \<in> set (filter (\<lambda>(s', _). s' = []) (rmatch r (s, [])))" by simp
  then show "([], g) \<in> set (rmatch r (s, []))" by auto
qed

lemma re_fullmatch_None: "re_fullmatch r s = None \<longleftrightarrow> (\<forall>g. ([], g) \<notin> set (rmatch r (s, [])))"
proof -
  have "re_fullmatch r s = None \<longleftrightarrow> filter (\<lambda>(s', _). s' = []) (rmatch r (s, [])) = []"
    by (auto simp: re_fullmatch_def split: list.splits)
  then show ?thesis by (auto simp: filter_empty_conv)
qed

lemma re_fullmatch_ex: "(\<exists>g. re_fullmatch r s = Some g) \<longleftrightarrow> (\<exists>g. ([], g) \<in> set (rmatch r (s, [])))"
  using re_fullmatch_None [of r s] by (metis not_None_eq)

lemma re_match_ex: "re_match r s \<noteq> None \<longleftrightarrow> (\<exists>st. st \<in> set (rmatch r (s, [])))"
  by (cases "rmatch r (s, [])") (auto simp: re_match_def)

declare rmatch.simps [simp del]

end
