(* ===== verification/Transcript.thy ===== *)
theory Transcript
  imports PyText
begin

text \<open>
  The native serial transcript verifier \<open>scripts/qualify-native/transcript.py\<close>. The loop of
  \<open>parse_serial\<close> is a fold of \<open>parse_step\<close> over the numbered lines; its local variables
  \<open>seen\<close>, \<open>cursor\<close>, \<open>errors\<close> and \<open>exit_lines\<close> are the record \<open>tstate\<close>.
  The locale \<open>ordered_stages\<close> states the contract of a stage cursor with one repeatable
  stage; both transcript verifiers advance such a cursor.
\<close>

section \<open>Markers\<close>

definition MARKERS :: "pystr list" where
  "MARKERS = [
    py ''ZKL: start'', py ''ZKL: kernel-loaded'', py ''ZKL: initramfs-loaded'', py ''ZKL: map-frozen'',
    py ''ZKL: ebs-ok'', py ''ZKN: entry'', py ''ZKN: bootinfo-ok'', py ''ZKN: serial-ok'',
    py ''ZKN: gdt-ok'', py ''ZKN: idt-ok'', py ''ZKN: paging-ok'', py ''ZKN: pmm-ok'',
    py ''ZKN: trap-ud2-ok'', py ''ZKN: trap-pf-unmapped-ok'', py ''ZKN: trap-pf-ro-write-ok'',
    py ''ZKN: trap-pf-nx-exec-ok'', py ''ZKN: timer-ok'', py ''ZKN: done'']"

definition MAP_FROZEN :: pystr where "MAP_FROZEN = py ''ZKL: map-frozen''"

definition BLANK :: regex where "BLANK = Rep (Ranges [(32, 32), (9, 9)]) 1 (Some 1)"

definition FAILURE :: regex where
  "FAILURE = Alt (cats [Lit (py ''ZKL: fail''), Alt BLANK Eol])
     (cats [Lit (py ''ZKN: ''),
        Alt (Alt (Lit (py ''PANIC'')) (Lit (py ''FAULT''))) (Lit (py ''bootinfo-invalid'')),
        Alt BLANK Eol])"

definition marker_re :: "pystr \<Rightarrow> regex" where
  "marker_re marker = cats [Lit marker, Opt (Cat BLANK (Rep Dot 0 None)), Eol]"

text \<open>The inner loop stops at the first pattern that matches the whole line.\<close>

fun first_index :: "('a \<Rightarrow> bool) \<Rightarrow> 'a list \<Rightarrow> nat option" where
  "first_index P [] = None"
| "first_index P (x # xs) = (if P x then Some 0 else map_option Suc (first_index P xs))"

definition stage_index :: "pystr list \<Rightarrow> pystr \<Rightarrow> nat option" where
  "stage_index markers line = first_index (\<lambda>m. re_fullmatch (marker_re m) line \<noteq> None) markers"

text \<open>
  The cursor after a stage: the expected stage advances it, a repeated
  \<open>ZKL: map-frozen\<close> right after the first keeps it, anything else is an error.
\<close>

definition advance :: "pystr list \<Rightarrow> nat \<Rightarrow> nat \<Rightarrow> nat option" where
  "advance markers cursor index =
    (let retry_map = markers ! index = MAP_FROZEN \<and> cursor = index + 1 in
     if index = cursor then Some (cursor + 1) else if retry_map then Some cursor else None)"

section \<open>The parser\<close>

record tstate =
  t_seen :: "nat list"
  t_cursor :: nat
  t_errors :: "pystr list"
  t_exits :: "(nat \<times> pystr) list"

definition init_tstate :: tstate where
  "init_tstate = \<lparr>t_seen = replicate (length MARKERS) 0, t_cursor = 0, t_errors = [], t_exits = []\<rparr>"

definition t_error :: "pystr \<Rightarrow> tstate \<Rightarrow> tstate" where
  "t_error msg st = st\<lparr>t_errors := t_errors st @ [msg]\<rparr>"

definition at_line :: "string \<Rightarrow> nat \<Rightarrow> pystr \<Rightarrow> pystr" where
  "at_line what number line = py what @ py '' at line '' @ show_nat number @ py '': '' @ line"

definition note_failure :: "nat \<Rightarrow> pystr \<Rightarrow> tstate \<Rightarrow> tstate" where
  "note_failure number line st =
    (if re_match FAILURE line \<noteq> None then t_error (at_line ''Explicit native failure'' number line) st else st)"

definition EXIT_PREFIX :: pystr where "EXIT_PREFIX = py ''ZKN: exit''"
definition EXIT_OK :: pystr where "EXIT_OK = py ''ZKN: exit code=10''"

definition note_exit :: "nat \<Rightarrow> pystr \<Rightarrow> tstate \<Rightarrow> tstate" where
  "note_exit number line st =
    (if starts_with line EXIT_PREFIX then
       let st = st\<lparr>t_exits := t_exits st @ [(number, line)]\<rparr>;
           st = (if line \<noteq> EXIT_OK
                 then t_error (at_line ''Contradictory or malformed native exit'' number line) st else st)
       in if t_cursor st \<noteq> length MARKERS
          then t_error (py ''Native exit precedes completion at line '' @ show_nat number) st else st
     else st)"

definition note_stage :: "nat \<Rightarrow> pystr \<Rightarrow> tstate \<Rightarrow> tstate" where
  "note_stage number line st =
    (case stage_index MARKERS line of
       None \<Rightarrow> st
     | Some index \<Rightarrow>
         let st = st\<lparr>t_seen := (t_seen st)[index := t_seen st ! index + 1]\<rparr>;
             st = (case advance MARKERS (t_cursor st) index of
                     Some cursor \<Rightarrow> st\<lparr>t_cursor := cursor\<rparr>
                   | None \<Rightarrow> t_error (at_line ''Duplicate/out-of-order native stage'' number line) st)
         in if t_exits st \<noteq> []
            then t_error (at_line ''Native stage after terminal exit'' number line) st else st)"

definition parse_step :: "tstate \<Rightarrow> nat \<times> pystr \<Rightarrow> tstate" where
  "parse_step st = (\<lambda>(number, line). note_stage number line (note_exit number line (note_failure number line st)))"

record base_report =
  kernel_entry_observed :: bool
  marker_counts :: "(pystr \<times> nat) list"
  terminal_exit_markers :: "(nat \<times> pystr) list"
  transcript_errors :: "pystr list"

definition parse_serial :: "pystr \<Rightarrow> base_report" where
  "parse_serial serial =
    (let st = foldl parse_step init_tstate (numbered (splitlines serial));
         missing = (if t_cursor st \<noteq> length MARKERS
                    then [py ''Required native stages missing or out of order''] else []);
         count = (if length (t_exits st) \<noteq> 1
                  then [py ''Expected one terminal native exit marker, observed '' @ show_nat (length (t_exits st))]
                  else [])
     in \<lparr>kernel_entry_observed =
           (case first_index (\<lambda>m. m = py ''ZKN: entry'') MARKERS of Some i \<Rightarrow> 0 < t_seen st ! i | None \<Rightarrow> False),
         marker_counts = zip MARKERS (t_seen st),
         terminal_exit_markers = t_exits st,
         transcript_errors = t_errors st @ missing @ count\<rparr>)"

section \<open>Stage cursors\<close>

text \<open>
  The contract of a cursor over stages \<open>0 .. n - 1\<close>, of which stage \<open>r\<close> may repeat while the
  cursor is right behind it, and what an error-free run to the last stage looks like.
\<close>

locale ordered_stages =
  fixes adv :: "nat \<Rightarrow> nat \<Rightarrow> nat option" and n r :: nat
  assumes adv_iff: "i < n \<Longrightarrow> adv c i = Some c' \<longleftrightarrow> (i = c \<and> c' = Suc c) \<or> (i = r \<and> c = Suc r \<and> c' = c)"
    and retry_stage: "r < n"
begin

lemma adv_next [simp]: "i < n \<Longrightarrow> adv i i = Some (Suc i)"
  by (simp add: adv_iff)

lemma adv_retry [simp]: "adv (Suc r) r = Some (Suc r)"
  using retry_stage by (simp add: adv_iff)

fun run :: "nat \<Rightarrow> nat list \<Rightarrow> nat option" where
  "run c [] = Some c"
| "run c (i # is) = (case adv c i of None \<Rightarrow> None | Some c' \<Rightarrow> run c' is)"

lemma run_append: "run c (is @ js) = (case run c is of None \<Rightarrow> None | Some c' \<Rightarrow> run c' js)"
  by (induction "is" arbitrary: c) (auto split: option.splits)

definition rest :: "nat \<Rightarrow> nat \<Rightarrow> nat list" where
  "rest c k = [c..<Suc r] @ replicate k r @ [max c (Suc r)..<n]"

lemma rest_run: "c \<le> n \<Longrightarrow> (Suc r < c \<longrightarrow> k = 0) \<Longrightarrow> run c (rest c k) = Some n"
proof -
  have up: "c \<le> d \<Longrightarrow> d \<le> n \<Longrightarrow> run c [c..<d] = Some d" for c d
  proof (induction d)
    case (Suc d)
    then show ?case by (cases "c = Suc d") (auto simp: run_append)
  qed simp
  have rep: "run (Suc r) (replicate k r) = Some (Suc r)" for k
    by (induction k) auto
  assume "c \<le> n" "Suc r < c \<longrightarrow> k = 0"
  then show ?thesis
    using retry_stage up [of c n] up [of c "Suc r"] up [of "Suc r" n] rep
    by (cases "c \<le> Suc r") (auto simp: rest_def run_append max_def simp del: upt_Suc)
qed

lemma run_rest:
  "run c is = Some n \<Longrightarrow> \<forall>i\<in>set is. i < n \<Longrightarrow> c \<le> n \<Longrightarrow> \<exists>k. (Suc r < c \<longrightarrow> k = 0) \<and> is = rest c k"
proof (induction "is" arbitrary: c)
  case Nil
  then show ?case using retry_stage by (intro exI [of _ 0]) (simp add: rest_def)
next
  case (Cons i js)
  then obtain c' where c': "adv c i = Some c'" "run c' js = Some n" by (auto split: option.splits)
  from c'(1) Cons.prems(2) have i: "i < n" "(i = c \<and> c' = Suc c) \<or> (i = r \<and> c = Suc r \<and> c' = c)"
    using adv_iff by auto
  then have "c' \<le> n" using Cons.prems(3) by auto
  with Cons.IH [OF c'(2)] Cons.prems(2) obtain k where k: "Suc r < c' \<longrightarrow> k = 0" "js = rest c' k" by auto
  from i(2) show ?case
  proof
    assume a: "i = c \<and> c' = Suc c"
    show ?thesis
    proof (cases "c \<le> r")
      case True
      with a have "i # js = rest c k" by (auto simp: k(2) rest_def upt_conv_Cons max_def)
      with True show ?thesis by (intro exI [of _ k]) auto
    next
      case False
      with a k have "i # js = rest c 0"
        using i(1) by (cases "c = Suc r") (auto simp: rest_def upt_conv_Cons max_def)
      then show ?thesis by auto
    qed
  next
    assume a: "i = r \<and> c = Suc r \<and> c' = c"
    then have "i # js = rest c (Suc k)" by (simp add: k(2) rest_def)
    with a show ?thesis by auto
  qed
qed

theorem run_complete:
  assumes "\<forall>i\<in>set is. i < n"
  shows "run 0 is = Some n \<longleftrightarrow> (\<exists>k. is = [0..<Suc r] @ replicate k r @ [Suc r..<n])"
  using rest_run [of 0] run_rest [of 0 "is"] assms by (fastforce simp: rest_def)

end

lemma first_index_Some: "first_index P xs = Some i \<Longrightarrow> i < length xs \<and> P (xs ! i)"
  by (induction xs arbitrary: i) (auto split: if_splits)

lemma first_index_None: "first_index P xs = None \<longleftrightarrow> (\<forall>x\<in>set xs. \<not> P x)"
  by (induction xs) auto

lemma first_index_unique:
  assumes "i < length xs" "P (xs ! i)" "\<And>j. j < length xs \<Longrightarrow> P (xs ! j) \<Longrightarrow> j = i"
  shows "first_index P xs = Some i"
proof (cases "first_index P xs")
  case None
  with assms(1,2) show ?thesis unfolding first_index_None by (meson nth_mem)
next
  case (Some j)
  with first_index_Some [OF Some] assms(3) show ?thesis by blast
qed

lemma stage_index_less: "stage_index ms line = Some i \<Longrightarrow> i < length ms"
  by (auto simp: stage_index_def dest: first_index_Some)

lemma length_MARKERS [simp]: "length MARKERS = 18"
  by (simp add: MARKERS_def)

lemma map_frozen_only: "i < 18 \<Longrightarrow> MARKERS ! i = MAP_FROZEN \<longleftrightarrow> i = 3"
proof -
  have "\<forall>i\<in>set [0..<18]. MARKERS ! i = MAP_FROZEN \<longleftrightarrow> i = 3" by code_simp
  then show "i < 18 \<Longrightarrow> ?thesis" by simp
qed

interpretation boot: ordered_stages "advance MARKERS" 18 3
  by unfold_locales (auto simp: advance_def Let_def map_frozen_only)

end
