(* ===== verification/VM_Scan.thy ===== *)
theory VM_Scan
  imports Transcript
begin

text \<open>
  The scan of \<open>parse_vm_serial\<close> in \<open>scripts/qualify-native/transcript_vm.py\<close>: the line
  grammars of \<open>native-vm-probe-v1\<close> and the pass over the numbered lines that files each line
  under \<open>starts\<close>, \<open>fixtures\<close>, \<open>cycles\<close>, \<open>completes\<close>, \<open>fails\<close> and \<open>exits\<close>. The lists are
  the fields of \<open>vscan\<close>.
\<close>

section \<open>Grammars\<close>

definition MODES :: "pystr list" where
  "MODES = [py ''positive'', py ''skip-switch'', py ''writable-ro'']"

abbreviation POSITIVE :: pystr where "POSITIVE \<equiv> MODES ! 0"
abbreviation SKIP_SWITCH :: pystr where "SKIP_SWITCH \<equiv> MODES ! 1"
abbreviation WRITABLE_RO :: pystr where "WRITABLE_RO \<equiv> MODES ! 2"

definition CYCLE_STAGES :: "pystr list" where
  "CYCLE_STAGES = [
    py ''control'', py ''template'', py ''construct'', py ''walk'',
    py ''switch'', py ''content'', py ''fault-ro'', py ''fault-nx'',
    py ''fault-guard'', py ''fault-top'', py ''restore'', py ''absent'', py ''destroy'']"

definition N6_LAST :: pystr where "N6_LAST = py ''ZKN: trap-pf-nx-exec-ok''"
definition TIMER :: pystr where "TIMER = py ''ZKN: timer-ok''"
definition DONE :: pystr where "DONE = py ''ZKN: done''"
definition EXIT_VM :: pystr where "EXIT_VM = py ''ZKN: exit code=17''"
definition VM_PREFIX :: pystr where "VM_PREFIX = py ''ZKN: vm-''"

definition DIGITS :: regex where "DIGITS = Rep (Ranges [(48, 57)]) 1 None"
definition ONE_TWO :: regex where "ONE_TWO = Rep (Ranges [(49, 50)]) 1 (Some 1)"
definition HEX :: "nat \<Rightarrow> regex" where "HEX n = Rep (Ranges [(48, 57), (97, 102)]) n (Some n)"
definition SLUG :: regex where "SLUG = Rep (Ranges [(97, 122), (48, 57), (45, 45)]) 1 None"

definition START_RE :: regex where
  "START_RE = cats [Lit (py ''ZKN: vm-start profile=native-vm-probe-v1 mode=''),
     Grp 1 (Alt (Lit (py ''positive'')) (Alt (Lit (py ''skip-switch'')) (Lit (py ''writable-ro'')))), Eol]"

definition FIXTURE_RE :: regex where
  "FIXTURE_RE = cats [Lit (py ''ZKN: vm-fixture cycle=''), Grp 1 ONE_TWO, Lit (py '' len=''), Grp 2 DIGITS,
     Lit (py '' sha256=''), Grp 3 (HEX 64), Eol]"

definition CYCLE_RE :: regex where
  "CYCLE_RE = cats [Lit (py ''ZKN: vm-cycle cycle=''), Grp 1 ONE_TWO, Lit (py '' stage=''), Grp 2 SLUG,
     Opt (Cat (Rep (Ranges [(32, 32), (9, 9)]) 1 None) (Grp 3 (Rep Dot 0 None))), Eol]"

definition COMPLETE_RE :: regex where
  "COMPLETE_RE = cats [Lit (py ''ZKN: vm-complete cycles=2''), Eol]"

definition FAIL_RE :: regex where
  "FAIL_RE = cats [Lit (py ''ZKN: vm-fail cycle=''), Grp 1 ONE_TWO, Lit (py '' stage=''), Grp 2 SLUG,
     Lit (py '' reason=''), Grp 3 SLUG, Eol]"

section \<open>The scan\<close>

type_synonym fixture = "nat \<times> nat \<times> nat \<times> pystr"
type_synonym cycle_line = "nat \<times> nat \<times> pystr \<times> pystr"
type_synonym fail_line = "nat \<times> nat \<times> pystr \<times> pystr"

record vscan =
  v_errors :: "pystr list"
  v_starts :: "(nat \<times> pystr) list"
  v_fixtures :: "fixture list"
  v_cycles :: "cycle_line list"
  v_completes :: "nat list"
  v_fails :: "fail_line list"
  v_exits :: "(nat \<times> pystr) list"
  v_n6_at :: "nat list"
  v_timer_at :: "nat list"
  v_done_at :: "nat list"
  v_vm_lines :: "nat list"

definition init_vscan :: vscan where
  "init_vscan = \<lparr>v_errors = [], v_starts = [], v_fixtures = [], v_cycles = [], v_completes = [],
     v_fails = [], v_exits = [], v_n6_at = [], v_timer_at = [], v_done_at = [], v_vm_lines = []\<rparr>"

definition v_error :: "pystr \<Rightarrow> vscan \<Rightarrow> vscan" where
  "v_error msg st = st\<lparr>v_errors := v_errors st @ [msg]\<rparr>"

text \<open>The kind of a line that starts with \<open>ZKN: vm-\<close>, tried in the order of the code.\<close>

datatype vm_line =
    VStart pystr
  | VFixture nat nat pystr
  | VStage nat pystr pystr
  | VComplete
  | VFail nat pystr pystr
  | VMalformed

definition vm_line_of :: "pystr \<Rightarrow> value_error + vm_line" where
  "vm_line_of line =
    (case re_fullmatch START_RE line of
       Some g \<Rightarrow> Inr (VStart (group g 1))
     | None \<Rightarrow>
    (case re_fullmatch FIXTURE_RE line of
       Some g \<Rightarrow> ebind (int_dec (group g 1)) (\<lambda>cycle. ebind (int_dec (group g 2)) (\<lambda>len.
                   Inr (VFixture cycle len (group g 3))))
     | None \<Rightarrow>
    (case re_fullmatch CYCLE_RE line of
       Some g \<Rightarrow> ebind (int_dec (group g 1)) (\<lambda>cycle. Inr (VStage cycle (group g 2) (group g 3)))
     | None \<Rightarrow>
    (case re_fullmatch COMPLETE_RE line of
       Some g \<Rightarrow> Inr VComplete
     | None \<Rightarrow>
    (case re_fullmatch FAIL_RE line of
       Some g \<Rightarrow> ebind (int_dec (group g 1)) (\<lambda>cycle. Inr (VFail cycle (group g 2) (group g 3)))
     | None \<Rightarrow> Inr VMalformed)))))"

fun file_vm_line :: "nat \<Rightarrow> pystr \<Rightarrow> vm_line \<Rightarrow> vscan \<Rightarrow> vscan" where
  "file_vm_line number line (VStart mode) st = st\<lparr>v_starts := v_starts st @ [(number, mode)]\<rparr>"
| "file_vm_line number line (VFixture cycle len digest) st =
     st\<lparr>v_fixtures := v_fixtures st @ [(number, cycle, len, digest)]\<rparr>"
| "file_vm_line number line (VStage cycle stage txt) st =
     (let st = (if stage \<notin> set CYCLE_STAGES
                then v_error (py ''Unknown VM stage '' @ stage @ py '' at line '' @ show_nat number) st else st)
      in st\<lparr>v_cycles := v_cycles st @ [(number, cycle, stage, txt)]\<rparr>)"
| "file_vm_line number line VComplete st = st\<lparr>v_completes := v_completes st @ [number]\<rparr>"
| "file_vm_line number line (VFail cycle stage reason) st =
     st\<lparr>v_fails := v_fails st @ [(number, cycle, stage, reason)]\<rparr>"
| "file_vm_line number line VMalformed st = v_error (at_line ''Malformed or spoofed VM marker'' number line) st"

definition is_or_spaced :: "pystr \<Rightarrow> pystr \<Rightarrow> bool" where
  "is_or_spaced m line \<longleftrightarrow> line = m \<or> starts_with line (m @ [SP])"

definition note_vm_failure :: "nat \<Rightarrow> pystr \<Rightarrow> vscan \<Rightarrow> vscan" where
  "note_vm_failure number line st =
    (if re_match FAILURE line \<noteq> None then v_error (at_line ''Explicit native failure'' number line) st else st)"

definition note_vm_line :: "nat \<Rightarrow> pystr \<Rightarrow> vscan \<Rightarrow> value_error + vscan" where
  "note_vm_line number line st =
    (if starts_with line VM_PREFIX then
       ebind (vm_line_of line)
         (\<lambda>k. Inr (file_vm_line number line k (st\<lparr>v_vm_lines := v_vm_lines st @ [number]\<rparr>)))
     else Inr st)"

definition note_anchors :: "nat \<Rightarrow> pystr \<Rightarrow> vscan \<Rightarrow> vscan" where
  "note_anchors number line st =
    st\<lparr>v_n6_at := v_n6_at st @ (if is_or_spaced N6_LAST line then [number] else []),
       v_timer_at := v_timer_at st @ (if is_or_spaced TIMER line then [number] else []),
       v_done_at := v_done_at st @ (if line = DONE then [number] else []),
       v_exits := v_exits st @ (if starts_with line EXIT_PREFIX then [(number, line)] else [])\<rparr>"

definition vm_step :: "vscan \<Rightarrow> nat \<times> pystr \<Rightarrow> value_error + vscan" where
  "vm_step st = (\<lambda>(number, line).
    ebind (note_vm_line number line (note_vm_failure number line st))
      (\<lambda>st. Inr (note_anchors number line st)))"

definition vm_scan :: "pystr list \<Rightarrow> value_error + vscan" where
  "vm_scan lines = efold vm_step init_vscan (numbered lines)"

end
