(* ===== verification/VM_Checks.thy ===== *)
theory VM_Checks
  imports VM_Scan
begin

unbundle bit_operations_syntax

text \<open>
  The checks of \<open>scripts/qualify-native/transcript_vm.py\<close> over the scanned lines:
  the order of a positive run, the N6 prefix and the sequence of a negative run, and the field
  semantics of the cycles. A check of the source appends to \<open>errors\<close>; here it returns what it
  appends. Fields of sixteen hexadecimal digits are 64-bit words.
\<close>

section \<open>Frames\<close>

definition PHYS_TOP :: "64 word" where "PHYS_TOP = 256 * 1024 * 1024"
definition PAGE :: "64 word" where "PAGE = 4096"
definition KERNEL_LO :: "64 word" where "KERNEL_LO = 0x200000"
definition KERNEL_HI :: "64 word" where "KERNEL_HI = 0x400000"
definition CR3_ADDR :: "64 word" where "CR3_ADDR = 0x000FFFFFFFFFF000"
definition PTE_P :: "64 word" where "PTE_P = push_bit 0 1"
definition PTE_U :: "64 word" where "PTE_U = push_bit 2 1"
definition PTE_PS :: "64 word" where "PTE_PS = push_bit 7 1"
definition PTE_AD :: "64 word" where "PTE_AD = push_bit 5 1 OR push_bit 6 1"
definition CR0_WP :: "64 word" where "CR0_WP = push_bit 16 1"
definition CR4_LA57 :: "64 word" where "CR4_LA57 = push_bit 12 1"
definition CR4_PCIDE :: "64 word" where "CR4_PCIDE = push_bit 17 1"
definition CR4_SMEP :: "64 word" where "CR4_SMEP = push_bit 20 1"
definition CR4_SMAP :: "64 word" where "CR4_SMAP = push_bit 21 1"
definition EFER_NXE :: "64 word" where "EFER_NXE = push_bit 11 1"
definition RFLAGS_IF :: "64 word" where "RFLAGS_IF = push_bit 9 1"

text \<open>\<open>int(text, 16)\<close> of a sixteen-digit field.\<close>

definition hex64 :: "pystr \<Rightarrow> 64 word" where
  "hex64 s = of_nat (int_hex s)"

definition frame_ok :: "64 word \<Rightarrow> bool" where
  "frame_ok value \<longleftrightarrow> value \<noteq> 0 \<and> value mod PAGE = 0 \<and> value < PHYS_TOP"

definition cyc :: "nat \<Rightarrow> string \<Rightarrow> pystr" where
  "cyc cycle text = py ''cycle '' @ show_nat cycle @ py '' '' @ py text"

definition unless :: "bool \<Rightarrow> pystr \<Rightarrow> pystr list" where
  "unless ok msg = (if ok then [] else [msg])"

lemma unless_Nil [simp]: "unless ok msg = [] \<longleftrightarrow> ok"
  by (simp add: unless_def)

definition check_borrowed_pdpt :: "nat \<Rightarrow> 64 word \<Rightarrow> 64 word option \<Rightarrow> pystr list" where
  "check_borrowed_pdpt cycle pdpt_entry kernel_root =
    (let addr = pdpt_entry AND CR3_ADDR in
     unless (pdpt_entry AND PTE_P \<noteq> 0) (cyc cycle ''borrowed PDPT is not present'') @
     unless (pdpt_entry AND PTE_U = 0) (cyc cycle ''borrowed PDPT is not supervisor'') @
     unless (pdpt_entry AND PTE_PS = 0) (cyc cycle ''borrowed PDPT is huge'') @
     (if \<not> frame_ok addr then [cyc cycle ''borrowed PDPT address is not a domain-aligned frame'']
      else if kernel_root = Some addr then [cyc cycle ''borrowed PDPT aliases original root''] else []))"

section \<open>Order of a positive run\<close>

definition reject_vm_after_terminal :: "nat list \<Rightarrow> nat list \<Rightarrow> (nat \<times> pystr) list \<Rightarrow> pystr list" where
  "reject_vm_after_terminal vm_lines completes exits =
    (let limit = (if completes \<noteq> [] then Some (hd completes) else None);
         limit = (if exits \<noteq> []
                  then Some (case limit of None \<Rightarrow> fst (hd exits) | Some l \<Rightarrow> min l (fst (hd exits))) else limit)
     in case limit of
          None \<Rightarrow> []
        | Some l \<Rightarrow> unless (\<not> list_ex (\<lambda>n. l < n) vm_lines) (py ''VM marker after completion or terminal exit''))"

datatype mark = FixtureMark nat | StageMark nat pystr | StartMark | FailMark nat | ExitMark

definition fixture_marks :: "fixture list \<Rightarrow> (nat \<times> mark) list" where
  "fixture_marks fixtures = map (\<lambda>(n, c, _, _). (n, FixtureMark c)) fixtures"

definition stage_marks :: "cycle_line list \<Rightarrow> (nat \<times> mark) list" where
  "stage_marks cycles = map (\<lambda>(n, c, s, _). (n, StageMark c s)) cycles"

definition want_positive :: "mark list" where
  "want_positive = concat (map (\<lambda>c. FixtureMark c # map (StageMark c) CYCLE_STAGES) [1, 2])"

definition check_positive_order :: "vscan \<Rightarrow> pystr list" where
  "check_positive_order st =
    (if v_starts st = [] \<or> v_completes st = [] \<or> v_n6_at st = [] \<or> v_timer_at st = [] \<or> v_done_at st = [] \<or>
        v_exits st = []
     then [py ''Positive VM order is missing N6, timer, done, or VM markers'']
     else
       (let start_n = fst (hd (v_starts st)); complete_n = hd (v_completes st); n6_n = last (v_n6_at st);
            timer_n = hd (v_timer_at st); done_n = hd (v_done_at st); exit_n = fst (hd (v_exits st));
            merged = sort_key fst (fixture_marks (v_fixtures st) @ stage_marks (v_cycles st))
        in
        unless (n6_n < start_n) (py ''vm-start must follow the last N6 trap marker'') @
        unless (start_n < complete_n) (py ''vm-complete must follow vm-start'') @
        unless (complete_n < timer_n) (py ''vm-complete must precede timer-ok'') @
        unless (timer_n < done_n) (py ''done must follow timer-ok'') @
        unless (done_n < exit_n) (py ''success exit must follow done'') @
        unless (list_all (\<lambda>(n, _). start_n < n \<and> n < complete_n) (v_fixtures st))
          (py ''fixture outside start/complete window'') @
        unless (list_all (\<lambda>(n, _). start_n < n \<and> n < complete_n) (v_cycles st))
          (py ''cycle marker outside start/complete window'') @
        unless (map snd merged = want_positive) (py ''VM cycle/stage order mismatch'')))"

section \<open>Order of a negative run\<close>

definition N6_MARKERS :: "pystr list" where
  "N6_MARKERS = take 16 MARKERS"

text \<open>The state is the cursor, \<open>last_n6\<close> and the errors.\<close>

definition n6_step :: "nat \<times> nat \<times> pystr list \<Rightarrow> nat \<times> pystr \<Rightarrow> nat \<times> nat \<times> pystr list" where
  "n6_step = (\<lambda>(cursor, last_n6, errs) (number, line).
    (case stage_index N6_MARKERS line of
       None \<Rightarrow> (cursor, last_n6, errs)
     | Some index \<Rightarrow>
        (case advance N6_MARKERS cursor index of
           Some cursor' \<Rightarrow> (cursor', if index = cursor then number else last_n6, errs)
         | None \<Rightarrow> (cursor, last_n6, errs @ [at_line ''Duplicate/out-of-order N6 stage'' number line]))))"

definition check_n6_prefix :: "pystr list \<Rightarrow> (nat \<times> pystr) list \<Rightarrow> pystr list" where
  "check_n6_prefix lines starts =
    (if starts = [] then []
     else
       (let start_n = fst (hd starts);
            (cursor, last_n6, errs) =
              foldl n6_step (0, 0, []) (takeWhile (\<lambda>(number, _). number < start_n) (numbered lines))
        in errs @
          (if cursor \<noteq> length N6_MARKERS then [py ''Negative run missing complete ordered N6 prefix'']
           else if last_n6 \<noteq> 0 \<and> start_n \<le> last_n6 then [py ''vm-start must follow the last N6 trap marker'']
           else [])))"

definition SWITCH_RE :: regex where
  "SWITCH_RE = cats [Lit (py ''expected=''), Grp 1 (HEX 16), Lit (py '' observed=''), Grp 2 (HEX 16), Eol]"

definition CONTROL_RE :: regex where
  "CONTROL_RE = cats [Lit (py ''cr3=''), Grp 1 (HEX 16), Lit (py '' rflags=''), Grp 2 (HEX 16),
     Lit (py '' cr0=''), Grp 3 (HEX 16), Lit (py '' cr4=''), Grp 4 (HEX 16), Lit (py '' efer=''), Grp 5 (HEX 16),
     Lit (py '' pmm-total=''), Grp 6 DIGITS, Lit (py '' pmm-free=''), Grp 7 DIGITS,
     Lit (py '' pmm-used=''), Grp 8 DIGITS, Lit (py '' pmm-unmanaged=''), Grp 9 DIGITS,
     Lit (py '' pmm-excluded=''), Grp 10 DIGITS, Eol]"

definition stage_fields :: "nat \<Rightarrow> pystr \<Rightarrow> cycle_line list \<Rightarrow> pystr list" where
  "stage_fields cycle stage cycles =
    map (\<lambda>(_, _, _, f). f) (filter (\<lambda>(_, c, s, _). c = cycle \<and> s = stage) cycles)"

definition check_skip_switch_observed :: "cycle_line list \<Rightarrow> pystr list" where
  "check_skip_switch_observed cycles =
    (case stage_fields 1 (py ''switch'') cycles of
       [] \<Rightarrow> [py ''skip-switch missing switch observation'']
     | switch_text # _ \<Rightarrow>
    (case re_fullmatch SWITCH_RE switch_text of
       None \<Rightarrow> [py ''skip-switch switch field mismatch'']
     | Some parsed \<Rightarrow>
    (let expected = hex64 (group parsed 1); observed = hex64 (group parsed 2);
         errs = unless (group parsed 1 \<noteq> group parsed 2) (py ''skip-switch CR3 readback matched the private root'')
     in if \<not> frame_ok observed
        then errs @ [py ''skip-switch observed CR3 is not a valid saved original root'']
        else (case stage_fields 1 (py ''control'') cycles of
           [] \<Rightarrow> errs @ [py ''skip-switch missing control observation'']
         | control_text # _ \<Rightarrow>
        (case re_fullmatch CONTROL_RE control_text of
           None \<Rightarrow> errs @ [py ''skip-switch control field mismatch'']
         | Some control \<Rightarrow>
           (let orig_addr = hex64 (group control 1) AND CR3_ADDR in
            errs @
            unless (observed = orig_addr) (py ''skip-switch observed CR3 is not the saved original CR3 address'') @
            unless (observed \<noteq> expected) (py ''skip-switch observed CR3 equals the private root'')))))))"

definition required_stages :: "pystr \<Rightarrow> pystr list" where
  "required_stages mode =
    (if mode = SKIP_SWITCH then [py ''control'', py ''template'', py ''construct'', py ''walk'', py ''switch'']
     else if mode = WRITABLE_RO
     then [py ''control'', py ''template'', py ''construct'', py ''walk'', py ''switch'', py ''content'']
     else [])"

text \<open>The branch on the mode: required stages and the stage that must not have been passed.\<close>

definition check_mode_stages :: "pystr \<Rightarrow> pystr list \<Rightarrow> cycle_line list \<Rightarrow> pystr list" where
  "check_mode_stages mode stage_names cycles =
    (if mode = SKIP_SWITCH then
       unless (stage_names = required_stages mode)
         (py ''skip-switch missing construction/walk/switch before failure'') @
       unless (py ''content'' \<notin> set stage_names) (py ''skip-switch emitted virtual content success'') @
       check_skip_switch_observed cycles
     else if mode = WRITABLE_RO then
       unless (stage_names = required_stages mode) (py ''writable-ro missing stages before RO-fault failure'') @
       unless (py ''fault-ro'' \<notin> set stage_names) (py ''writable-ro emitted successful fault-ro'') @
       (case stage_fields 1 (py ''switch'') cycles of
          [] \<Rightarrow> [py ''writable-ro missing switch observation'']
        | switch_text # _ \<Rightarrow>
            unless (case re_fullmatch SWITCH_RE switch_text of None \<Rightarrow> False
                    | Some parsed \<Rightarrow> group parsed 1 = group parsed 2)
              (py ''writable-ro switch readback must match before RO tamper''))
     else [])"

definition first_of :: "(nat \<times> 'a) list \<Rightarrow> nat option" where
  "first_of xs = (case xs of [] \<Rightarrow> None | (n, _) # _ \<Rightarrow> Some n)"

definition negative_events :: "nat \<Rightarrow> fixture list \<Rightarrow> cycle_line list \<Rightarrow> fail_line list \<Rightarrow> (nat \<times> pystr) list \<Rightarrow> (nat \<times> mark) list" where
  "negative_events start_n fixtures cycles fails exits =
    [(start_n, StartMark)] @ fixture_marks fixtures @ stage_marks cycles @
    (case fails of [] \<Rightarrow> [] | (n, c, _, _) # _ \<Rightarrow> [(n, FailMark c)]) @
    (case exits of [] \<Rightarrow> [] | (n, _) # _ \<Rightarrow> [(n, ExitMark)])"

definition want_negative :: "pystr \<Rightarrow> fail_line list \<Rightarrow> (nat \<times> pystr) list \<Rightarrow> mark list" where
  "want_negative mode fails exits =
    [StartMark, FixtureMark 1] @ map (StageMark 1) (required_stages mode) @
    (if fails \<noteq> [] then [FailMark 1] else []) @ (if exits \<noteq> [] then [ExitMark] else [])"

definition check_negative_sequence :: "pystr \<Rightarrow> vscan \<Rightarrow> pystr list" where
  "check_negative_sequence mode st =
    (if v_starts st = [] then []
     else
       (let fixtures = v_fixtures st; cycles = v_cycles st; fails = v_fails st; exits = v_exits st;
            start_n = fst (hd (v_starts st)); fail_n = first_of fails; exit_n = first_of exits;
            stages = map (\<lambda>(n, _, s, _). (n, s)) (filter (\<lambda>(_, c, _, _). c = 1) cycles);
            got = map snd (sort_key fst (negative_events start_n fixtures cycles fails exits))
        in
        unless (list_all (\<lambda>(_, c, _, _). c = 1) fixtures \<and> list_all (\<lambda>(_, c, _, _). c = 1) cycles)
          (py ''Negative run must not emit cycle 2'') @
        unless (map (\<lambda>(_, c, _, _). c) fixtures = [1]) (py ''Negative run must record exactly one cycle-1 fixture'') @
        unless (fixtures = [] \<or> start_n < fst (hd fixtures)) (py ''cycle 1 fixture must follow vm-start'') @
        check_mode_stages mode (map snd stages) cycles @
        unless (required_stages mode = [] \<or> got = want_negative mode fails exits)
          (py ''negative fixture/stage order mismatch'') @
        (case fail_n of None \<Rightarrow> [] | Some f \<Rightarrow>
          unless (stages = [] \<or> fst (last stages) \<le> f) (py ''vm-fail precedes the last reached cycle stage'') @
          unless (fixtures = [] \<or> fst (hd fixtures) \<le> f) (py ''vm-fail precedes cycle evidence'') @
          unless (\<not> list_ex (\<lambda>n. f < n) (v_vm_lines st)) (py ''VM marker after named failure'')) @
        (case exit_n of None \<Rightarrow> [] | Some e \<Rightarrow>
          unless (\<not> list_ex (\<lambda>n. e < n) (v_vm_lines st)) (py ''VM marker after terminal exit'') @
          unless (case fail_n of None \<Rightarrow> True | Some f \<Rightarrow> f \<le> e) (py ''vm-fail after terminal exit''))))"

end
