(* ===== verification/VM_Cycles.thy ===== *)
theory VM_Cycles
  imports VM_Checks
begin

unbundle bit_operations_syntax

text \<open>
  \<open>_check_cycle_semantics\<close> and \<open>parse_vm_serial\<close> of
  \<open>scripts/qualify-native/transcript_vm.py\<close>. The dictionary \<open>by_cycle\<close> is a map from cycle and
  stage to the text of the fields; the locals that survive an iteration over the cycles (the
  baselines and the fault generations) are the record \<open>baseline\<close>. Decimal conversions can
  raise, so a check returns the errors it appends or the \<open>ValueError\<close>.
\<close>

section \<open>Field grammars\<close>

definition FIXTURE_LEN :: nat where "FIXTURE_LEN = 5120"

definition FIXTURE_SHA256 :: "nat \<Rightarrow> pystr option" where
  "FIXTURE_SHA256 cycle =
    (if cycle = 1 then Some (py ''b9b1c7085cc32a99ff7127d83f845525115f4d0c57d67566c2521fa9681486b9'')
     else if cycle = 2 then Some (py ''f2bb6508933e81ba28e67fe968508db2c6888681a508019c8935f1b663d6c447'')
     else None)"

definition EXPECT_IMAGE :: nat where "EXPECT_IMAGE = 4"
definition EXPECT_STACK :: nat where "EXPECT_STACK = 16"
definition EXPECT_TABLES :: nat where "EXPECT_TABLES = 6"
definition EXPECT_OWNED :: nat where "EXPECT_OWNED = 26"
definition EXPECT_IMAGE_PTS :: nat where "EXPECT_IMAGE_PTS = 2"
definition EXPECT_STACK_PTS :: nat where "EXPECT_STACK_PTS = 1"

definition TEMPLATE_RE :: regex where
  "TEMPLATE_RE = cats [Lit (py ''root=''), Grp 1 (HEX 16), Lit (py '' pdpt0=''), Grp 2 (HEX 16), Eol]"

definition CONSTRUCT_RE :: regex where
  "CONSTRUCT_RE = cats [Lit (py ''owned=''), Grp 1 DIGITS, Lit (py '' image=''), Grp 2 DIGITS,
     Lit (py '' stack=''), Grp 3 DIGITS, Lit (py '' tables=''), Grp 4 DIGITS,
     Lit (py '' root=''), Grp 5 (HEX 16), Eol]"

definition WALK_RE :: regex where
  "WALK_RE = cats [Lit (py ''image-pts=''), Grp 1 DIGITS, Lit (py '' stack-pts=''), Grp 2 DIGITS,
     Lit (py '' rx=''), Grp 3 (HEX 16), Lit (py '' rx1=''), Grp 4 (HEX 16),
     Lit (py '' ro=''), Grp 5 (HEX 16), Lit (py '' rw=''), Grp 6 (HEX 16), Eol]"

definition CONTENT_RE :: regex where "CONTENT_RE = cats [Lit (py ''fetch=0''), Eol]"

definition FAULT_RE :: regex where
  "FAULT_RE = cats [Lit (py ''vector=14 pfec=''), Grp 1 (Rep (Ranges [(48, 57), (97, 102)]) 1 None),
     Lit (py '' cr2=''), Grp 2 (HEX 16), Lit (py '' rip=''), Grp 3 (HEX 16), Lit (py '' gen=''), Grp 4 DIGITS, Eol]"

definition DESTROY_RE :: regex where
  "DESTROY_RE = cats [Lit (py ''owned=0 adapter=0 pmm-total=''), Grp 1 DIGITS, Lit (py '' pmm-free=''), Grp 2 DIGITS,
     Lit (py '' pmm-used=''), Grp 3 DIGITS, Lit (py '' pmm-unmanaged=''), Grp 4 DIGITS,
     Lit (py '' pmm-excluded=''), Grp 5 DIGITS, Eol]"

text \<open>The fault stages in the order of the dictionary \<open>PFEC\<close>, with error code and address.\<close>

definition PFEC :: "(pystr \<times> nat) list" where
  "PFEC = [(py ''fault-ro'', 3), (py ''fault-nx'', 0x11), (py ''fault-guard'', 0), (py ''fault-top'', 0), (py ''absent'', 0)]"

definition FAULT_CR2 :: "pystr \<Rightarrow> 64 word option" where
  "FAULT_CR2 = map_of [(py ''fault-ro'', 0x40202180), (py ''fault-nx'', 0x40204030),
     (py ''fault-guard'', 0x7FFED000), (py ''fault-top'', 0x7FFFE000), (py ''absent'', 0x401FF100)]"

section \<open>Collecting the cycles\<close>

type_synonym fields_map = "nat \<times> pystr \<Rightarrow> pystr option"

definition collect_step :: "fields_map \<times> pystr list \<Rightarrow> cycle_line \<Rightarrow> fields_map \<times> pystr list" where
  "collect_step = (\<lambda>(by_cycle, errs) (_, cycle, stage, txt).
    (by_cycle((cycle, stage) \<mapsto> txt),
     errs @ unless (by_cycle (cycle, stage) = None)
       (py ''Duplicated cycle '' @ show_nat cycle @ py '' stage '' @ stage)))"

definition collect_cycles :: "cycle_line list \<Rightarrow> fields_map \<times> pystr list" where
  "collect_cycles cycles = foldl collect_step (Map.empty, []) cycles"

definition seen_stages :: "nat \<Rightarrow> cycle_line list \<Rightarrow> pystr list" where
  "seen_stages cycle cycles = map (\<lambda>(_, _, s, _). s) (filter (\<lambda>(_, c, _, _). c = cycle) cycles)"

definition check_fixtures :: "bool \<Rightarrow> fixture list \<Rightarrow> pystr list" where
  "check_fixtures require_full fixtures =
    (if require_full
     then unless (map (\<lambda>(_, c, _, _). c) fixtures = [1, 2]) (py ''Expected fixtures for cycles 1 then 2'')
     else unless (fixtures = [] \<or> fst (snd (hd fixtures)) = 1) (py ''Negative run must record cycle-1 fixture'')) @
    concat (map (\<lambda>(n, cycle, len, digest).
      unless (len = FIXTURE_LEN) (py ''cycle '' @ show_nat cycle @ py '' fixture length != '' @ show_nat FIXTURE_LEN) @
      unless (FIXTURE_SHA256 cycle = Some digest)
        (cyc cycle ''fixture digest is not the pinned native-vm-probe-v1 value'')) fixtures)"

section \<open>One cycle\<close>

record baseline =
  bl_pmm :: "pystr list option"
  bl_cr3 :: "pystr option"
  bl_template_root :: "pystr option"
  bl_pdpt :: "64 word option"
  bl_generations :: "nat list"

definition init_baseline :: baseline where
  "init_baseline = \<lparr>bl_pmm = None, bl_cr3 = None, bl_template_root = None, bl_pdpt = None, bl_generations = []\<rparr>"

text \<open>A stage's fields against its grammar; \<open>needed\<close> reports a stage that is not there.\<close>

definition parse_stage ::
  "bool \<Rightarrow> nat \<Rightarrow> string \<Rightarrow> regex \<Rightarrow> fields_map \<Rightarrow> groups option \<times> pystr list" where
  "parse_stage needed cycle stage re by_cycle =
    (case by_cycle (cycle, py stage) of
       Some txt \<Rightarrow>
         (case re_fullmatch re txt of
            Some g \<Rightarrow> (Some g, [])
          | None \<Rightarrow> (None, [cyc cycle (stage @ '' field mismatch'')]))
     | None \<Rightarrow> (None, unless (\<not> needed) (cyc cycle (stage @ '' field mismatch''))))"

definition groups_of :: "groups \<Rightarrow> nat list \<Rightarrow> pystr list" where
  "groups_of g is = map (group g) is"

definition check_control ::
  "nat \<Rightarrow> groups \<Rightarrow> groups option \<Rightarrow> groups option \<Rightarrow> groups option \<Rightarrow> baseline \<Rightarrow>
   value_error + (baseline \<times> pystr list)" where
  "check_control cycle control template restore destroy bl =
    ebind (int_dec (group control 6)) (\<lambda>total.
    ebind (int_dec (group control 7)) (\<lambda>free.
    ebind (int_dec (group control 8)) (\<lambda>used.
      let cr3 = group control 1;
          rflags_i = hex64 (group control 2); cr0_i = hex64 (group control 3);
          cr4_i = hex64 (group control 4); efer_i = hex64 (group control 5);
          kernel_root = hex64 cr3 AND CR3_ADDR;
          pmm = groups_of control [6, 7, 8, 9, 10];
          bl' = (if cycle = 1 then bl\<lparr>bl_pmm := Some pmm, bl_cr3 := Some cr3\<rparr> else bl)
      in Inr (bl',
        unless (rflags_i AND RFLAGS_IF = 0) (cyc cycle ''IF not masked'') @
        unless (cr0_i AND CR0_WP \<noteq> 0 \<and> efer_i AND EFER_NXE \<noteq> 0) (cyc cycle ''WP/NXE missing'') @
        unless (cr4_i AND (CR4_PCIDE OR CR4_LA57 OR CR4_SMEP OR CR4_SMAP) = 0) (cyc cycle ''unsupported CR4 profile'') @
        unless (total = free + used) (cyc cycle ''PMM accounting invalid'') @
        unless (frame_ok kernel_root) (cyc cycle ''original root is not a domain-aligned frame'') @
        (case template of None \<Rightarrow> []
         | Some t \<Rightarrow> unless (hex64 (group t 1) = kernel_root) (cyc cycle ''template root != CR3 address'')) @
        (if cycle = 1 then []
         else
           unless (bl_pmm bl = None \<or> bl_pmm bl = Some pmm) (cyc cycle ''PMM stats != run baseline'') @
           unless (bl_cr3 bl = None \<or> bl_cr3 bl = Some cr3) (cyc cycle ''original full CR3 != run baseline'')) @
        (case restore of None \<Rightarrow> []
         | Some r \<Rightarrow>
             unless (group r 1 = group r 2) (cyc cycle ''restore expected != observed'') @
             unless (group r 1 = cr3) (cyc cycle ''restore is not the original full CR3'')) @
        (case destroy of None \<Rightarrow> []
         | Some d \<Rightarrow>
             let destroyed = groups_of d [1, 2, 3, 4, 5] in
             unless (destroyed = pmm) (cyc cycle ''destroy PMM stats != control baseline'') @
             unless (bl_pmm bl' = None \<or> bl_pmm bl' = Some destroyed)
               (cyc cycle ''destroy PMM stats != run baseline''))))))"

definition check_template :: "nat \<Rightarrow> groups \<Rightarrow> 64 word option \<Rightarrow> baseline \<Rightarrow> baseline \<times> pystr list" where
  "check_template cycle template kernel_root bl =
    (let pdpt_entry = hex64 (group template 2);
         errs = check_borrowed_pdpt cycle pdpt_entry kernel_root;
         modulo = pdpt_entry AND NOT PTE_AD
     in if cycle = 1 then (bl\<lparr>bl_template_root := Some (group template 1), bl_pdpt := Some modulo\<rparr>, errs)
        else (bl, errs @
          unless (bl_template_root bl = None \<or> bl_template_root bl = Some (group template 1))
            (cyc cycle ''template root != run baseline'') @
          unless (bl_pdpt bl = None \<or> bl_pdpt bl = Some modulo)
            (cyc cycle ''borrowed PDPT != run baseline modulo A/D'')))"

definition check_construct ::
  "bool \<Rightarrow> nat \<Rightarrow> groups \<Rightarrow> groups option \<Rightarrow> 64 word option \<Rightarrow> value_error + pystr list" where
  "check_construct require_full cycle construct switch kernel_root =
    ebind (emap (\<lambda>i. int_dec (group construct i)) [1, 2, 3, 4]) (\<lambda>counts.
      let owned = counts ! 0; img = counts ! 1; stack = counts ! 2; tables = counts ! 3;
          root = group construct 5; root_i = hex64 root
      in Inr (
        unless (owned = EXPECT_OWNED \<and> img = EXPECT_IMAGE \<and> stack = EXPECT_STACK \<and> tables = EXPECT_TABLES)
          (cyc cycle ''page budgets != 4/16/6/26'') @
        unless (owned = img + stack + tables) (cyc cycle ''owned != image+stack+tables'') @
        unless (frame_ok root_i) (cyc cycle ''private root is not a domain-aligned frame'') @
        unless (kernel_root \<noteq> Some root_i) (cyc cycle ''private root equals original CR3 root'') @
        (case switch of None \<Rightarrow> []
         | Some s \<Rightarrow>
             unless (group s 1 = root) (cyc cycle ''switch expected != construct root'') @
             unless (\<not> require_full \<or> group s 1 = group s 2) (cyc cycle ''switch root mismatch''))))"

definition check_walk :: "nat \<Rightarrow> groups \<Rightarrow> groups option \<Rightarrow> pystr list" where
  "check_walk cycle walk construct =
    (let leaves = map hex64 (groups_of walk [3, 4, 5, 6]) in
     unless (group walk 1 = show_nat EXPECT_IMAGE_PTS \<and> group walk 2 = show_nat EXPECT_STACK_PTS)
       (cyc cycle ''image/stack PT counts'') @
     unless (card (set leaves) = 4) (cyc cycle ''leaf physical backings are not distinct'') @
     unless (list_all frame_ok leaves) (cyc cycle ''leaf physical id is not a domain-aligned frame'') @
     (case construct of None \<Rightarrow> []
      | Some c \<Rightarrow> unless (hex64 (group c 5) \<notin> set leaves) (cyc cycle ''leaf aliases the private root'')))"

definition stage_text :: "nat \<Rightarrow> pystr \<Rightarrow> string \<Rightarrow> pystr" where
  "stage_text cycle stage text = py ''cycle '' @ show_nat cycle @ py '' '' @ stage @ py '' '' @ py text"

definition check_fault ::
  "nat \<Rightarrow> fields_map \<Rightarrow> baseline \<times> pystr list \<Rightarrow> pystr \<times> nat \<Rightarrow> value_error + (baseline \<times> pystr list)" where
  "check_fault cycle by_cycle = (\<lambda>(bl, errs) (stage, want).
    (case by_cycle (cycle, stage) of
       None \<Rightarrow> Inr (bl, errs)
     | Some txt \<Rightarrow>
        (case re_fullmatch FAULT_RE txt of
           None \<Rightarrow> Inr (bl, errs @ [stage_text cycle stage ''field mismatch''])
         | Some g \<Rightarrow>
             ebind (int_dec (group g 4)) (\<lambda>gen.
               let pfec = int_hex (group g 1); cr2 = hex64 (group g 2); rip = hex64 (group g 3)
               in Inr (bl\<lparr>bl_generations := bl_generations bl @ [gen]\<rparr>,
                 errs @
                 unless (pfec = want) (stage_text cycle stage ''pfec mismatch'') @
                 unless (FAULT_CR2 stage = Some cr2) (stage_text cycle stage ''CR2 is not the expected fault VA'') @
                 unless (gen \<noteq> 0) (stage_text cycle stage ''generation is zero'') @
                 (if stage = py ''fault-nx''
                  then unless (FAULT_CR2 stage = Some rip) (cyc cycle ''fault-nx RIP is not the NX VA'')
                  else unless (KERNEL_LO \<le> rip \<and> rip < KERNEL_HI)
                    (stage_text cycle stage ''RIP is not a nonzero bounded kernel RIP'')))))))"

definition check_faults :: "nat \<Rightarrow> fields_map \<Rightarrow> baseline \<Rightarrow> value_error + (baseline \<times> pystr list)" where
  "check_faults cycle by_cycle bl = efold (check_fault cycle by_cycle) (bl, []) PFEC"

definition check_cycle ::
  "bool \<Rightarrow> fields_map \<Rightarrow> cycle_line list \<Rightarrow> baseline \<times> pystr list \<Rightarrow> nat \<Rightarrow> value_error + (baseline \<times> pystr list)" where
  "check_cycle require_full by_cycle cycles = (\<lambda>(bl, errs) cycle.
    if require_full \<and> seen_stages cycle cycles \<noteq> CYCLE_STAGES
    then Inr (bl, errs @ [py ''Cycle '' @ show_nat cycle @ py '' stages incomplete or reordered''])
    else
      (let (control, e1) = parse_stage require_full cycle ''control'' CONTROL_RE by_cycle;
           (construct, e2) = parse_stage require_full cycle ''construct'' CONSTRUCT_RE by_cycle;
           (walk, e3) = parse_stage require_full cycle ''walk'' WALK_RE by_cycle;
           (switch, e4) = parse_stage require_full cycle ''switch'' SWITCH_RE by_cycle;
           (template, e5) = parse_stage require_full cycle ''template'' TEMPLATE_RE by_cycle;
           (_, e6) = parse_stage False cycle ''content'' CONTENT_RE by_cycle;
           (restore, e7) = parse_stage False cycle ''restore'' SWITCH_RE by_cycle;
           (destroy, e8) = parse_stage False cycle ''destroy'' DESTROY_RE by_cycle;
           kernel_root = map_option (\<lambda>c. hex64 (group c 1) AND CR3_ADDR) control
       in
       ebind (case control of None \<Rightarrow> Inr (bl, []) | Some c \<Rightarrow> check_control cycle c template restore destroy bl)
         (\<lambda>(bl, c1).
       let (bl, c2) = (case template of None \<Rightarrow> (bl, []) | Some t \<Rightarrow> check_template cycle t kernel_root bl) in
       ebind (case construct of None \<Rightarrow> Inr []
              | Some c \<Rightarrow> check_construct require_full cycle c switch kernel_root) (\<lambda>c3.
       let c4 = (case walk of None \<Rightarrow> [] | Some w \<Rightarrow> check_walk cycle w construct) in
       ebind (check_faults cycle by_cycle bl) (\<lambda>(bl, c5).
       Inr (bl, errs @ e1 @ e2 @ e3 @ e4 @ e5 @ e6 @ e7 @ e8 @ c1 @ c2 @ c3 @ c4 @ c5))))))"

fun increasing :: "nat list \<Rightarrow> bool" where
  "increasing (a # b # xs) = (a < b \<and> increasing (b # xs))"
| "increasing _ = True"

definition check_cycle_semantics :: "fixture list \<Rightarrow> cycle_line list \<Rightarrow> bool \<Rightarrow> value_error + pystr list" where
  "check_cycle_semantics fixtures cycles require_full =
    (let (by_cycle, e1) = collect_cycles cycles;
         e2 = check_fixtures require_full fixtures
     in ebind (efold (check_cycle require_full by_cycle cycles) (init_baseline, []) (if require_full then [1, 2] else [1]))
       (\<lambda>(bl, e3). Inr (e1 @ e2 @ e3 @
         unless (increasing (bl_generations bl)) (py ''fault generations are not strictly increasing across cycles''))))"

section \<open>The verifier\<close>

record vm_report =
  vr_mode :: pystr
  vm_complete :: bool
  vm_fail :: "(nat \<times> pystr \<times> pystr) option"
  vr_fixtures :: "(nat \<times> nat \<times> pystr) list"
  vr_cycles :: "(nat \<times> pystr \<times> pystr) list"
  vr_base :: base_report
  vm_errors :: "pystr list"

definition check_positive :: "base_report \<Rightarrow> vscan \<Rightarrow> value_error + pystr list" where
  "check_positive base st =
    ebind (check_cycle_semantics (v_fixtures st) (v_cycles st) True) (\<lambda>sem. Inr (
      transcript_errors base @
      unless (v_fails st = []) (py ''Positive transcript contains vm-fail'') @
      unless (length (v_completes st) = 1)
        (py ''Expected one vm-complete, observed '' @ show_nat (length (v_completes st))) @
      unless (length (v_exits st) = 1 \<and> snd (hd (v_exits st)) = EXIT_OK)
        (py ''Positive VM run requires exactly one success exit code=10'') @
      reject_vm_after_terminal (v_vm_lines st) (v_completes st) (v_exits st) @
      check_positive_order st @ sem))"

definition expected_stage :: "pystr \<Rightarrow> pystr" where
  "expected_stage mode = (if mode = SKIP_SWITCH then py ''switch'' else py ''fault-ro'')"

definition check_fail_line :: "pystr \<Rightarrow> fail_line \<Rightarrow> pystr list" where
  "check_fail_line mode = (\<lambda>(_, _, stage, reason).
    unless (stage = expected_stage mode)
      (py ''vm-fail stage '' @ stage @ py '' does not match expected '' @ expected_stage mode) @
    unless (mode \<noteq> SKIP_SWITCH \<or> reason = py ''cr3-readback'') (py ''skip-switch reason must be cr3-readback'') @
    unless (mode \<noteq> WRITABLE_RO \<or> reason = py ''expected-pf'') (py ''writable-ro reason must be expected-pf''))"

definition check_negative :: "pystr \<Rightarrow> base_report \<Rightarrow> pystr list \<Rightarrow> vscan \<Rightarrow> value_error + pystr list" where
  "check_negative mode base lines st =
    ebind (check_cycle_semantics (v_fixtures st) (v_cycles st) False) (\<lambda>sem. Inr (
      unless (transcript_errors base \<noteq> []) (py ''Negative transcript passed the bootstrap parser'') @
      unless (v_completes st = []) (py ''Negative transcript contains vm-complete'') @
      unless (v_done_at st = []) (py ''Negative transcript contains ZKN: done'') @
      unless (v_timer_at st = []) (py ''Negative transcript contains timer-ok'') @
      unless (\<not> list_ex (\<lambda>(_, text). text = EXIT_OK) (v_exits st)) (py ''Negative transcript contains success exit'') @
      (if length (v_fails st) \<noteq> 1
       then [py ''Expected one vm-fail, observed '' @ show_nat (length (v_fails st))]
       else unless (fst (snd (hd (v_fails st))) = 1) (py ''vm-fail cycle must be 1'')) @
      unless (length (v_exits st) = 1 \<and> snd (hd (v_exits st)) = EXIT_VM)
        (py ''Negative VM run requires exactly one exit code=17'') @
      unless (v_fails st = [] \<or> v_exits st = [] \<or> fst (hd (v_fails st)) \<le> fst (hd (v_exits st)))
        (py ''vm-fail after terminal exit'') @
      (if v_fails st = [] then [] else check_fail_line mode (hd (v_fails st))) @
      check_n6_prefix lines (v_starts st) @
      check_negative_sequence mode st @ sem))"

definition check_starts :: "pystr \<Rightarrow> vscan \<Rightarrow> pystr list" where
  "check_starts mode st =
    (if length (v_starts st) \<noteq> 1
     then [py ''Expected one vm-start, observed '' @ show_nat (length (v_starts st))]
     else unless (snd (hd (v_starts st)) = mode)
       (py ''vm-start mode '' @ snd (hd (v_starts st)) @ py '' does not match expected '' @ mode))"

text \<open>\<open>repr(mode)\<close> in the message of an unsupported mode is the parameter \<open>repr\<close>.\<close>

definition parse_vm_serial :: "(pystr \<Rightarrow> pystr) \<Rightarrow> pystr \<Rightarrow> pystr \<Rightarrow> value_error + vm_report" where
  "parse_vm_serial repr serial mode =
    (if mode \<notin> set MODES
     then Inr \<lparr>vr_mode = mode, vm_complete = False, vm_fail = None, vr_fixtures = [], vr_cycles = [],
            vr_base = parse_serial serial, vm_errors = [py ''unsupported VM mode '' @ repr mode]\<rparr>
     else
       (let lines = splitlines serial; base = parse_serial serial in
        ebind (vm_scan lines) (\<lambda>st.
        ebind (if mode = POSITIVE then check_positive base st else check_negative mode base lines st) (\<lambda>errs.
        let errors = v_errors st @ check_starts mode st @ errs in
        Inr \<lparr>vr_mode = mode,
          vm_complete = (length (v_completes st) = 1 \<and> errors = [] \<and> mode = POSITIVE),
          vm_fail = (case v_fails st of [] \<Rightarrow> None | (_, c, s, r) # _ \<Rightarrow> Some (c, s, r)),
          vr_fixtures = map (\<lambda>(_, c, n, h). (c, n, h)) (v_fixtures st),
          vr_cycles = map (\<lambda>(_, c, s, f). (c, s, f)) (v_cycles st),
          vr_base = base, vm_errors = errors\<rparr>))))"

end
