(* ===== verification/Transcript_Spec.thy ===== *)
theory Transcript_Spec
  imports Transcript
begin

text \<open>
  What the transcript verifier accepts. A line is classified as one of the events of a boot;
  an accepted transcript is exactly one ordered boot, and the counts and exits of the report
  are those of the lines.
\<close>

section \<open>Lines\<close>

text \<open>A marker line is the marker alone or followed by a blank and arbitrary text.\<close>

definition marker_line :: "pystr \<Rightarrow> pystr \<Rightarrow> bool" where
  "marker_line m line \<longleftrightarrow>
    (\<exists>t. line = m @ t \<and> (t = [] \<or> (hd t = SP \<or> hd t = TAB) \<and> LF \<notin> set t))"

lemma in_BLANK: "in_cls (Ranges [(32, 32), (9, 9)]) c \<longleftrightarrow> c = SP \<or> c = TAB"
proof -
  have "code_of c = 32 \<longleftrightarrow> c = SP" "code_of c = 9 \<longleftrightarrow> c = TAB"
    using code_of_inj [of c SP] code_of_inj [of c TAB] by auto
  moreover have "in_cls (Ranges [(32, 32), (9, 9)]) c \<longleftrightarrow> code_of c = 32 \<or> code_of c = 9" by auto
  ultimately show ?thesis by blast
qed

lemma rmatch_BLANK [rx]:
  "(s', g') \<in> set (rmatch BLANK (s, g)) \<longleftrightarrow> (s = SP # s' \<or> s = TAB # s') \<and> g' = g"
proof -
  have len: "1 \<le> k \<and> (\<forall>h. Some (1::nat) = Some h \<longrightarrow> k \<le> h) \<longleftrightarrow> k = 1" for k by auto
  have "(\<exists>w. s = w @ s' \<and> (\<forall>x\<in>set w. x = SP \<or> x = TAB) \<and> length w = 1) \<longleftrightarrow>
      (\<exists>c. s = c # s' \<and> (c = SP \<or> c = TAB))"
  proof
    assume "\<exists>w. s = w @ s' \<and> (\<forall>x\<in>set w. x = SP \<or> x = TAB) \<and> length w = 1"
    then obtain w where w: "s = w @ s'" "\<forall>x\<in>set w. x = SP \<or> x = TAB" "length w = 1" by blast
    then obtain c where "w = [c]" by (cases w) auto
    with w show "\<exists>c. s = c # s' \<and> (c = SP \<or> c = TAB)" by simp
  next
    assume "\<exists>c. s = c # s' \<and> (c = SP \<or> c = TAB)"
    then obtain c where "s = [c] @ s'" "c = SP \<or> c = TAB" by auto
    then show "\<exists>w. s = w @ s' \<and> (\<forall>x\<in>set w. x = SP \<or> x = TAB) \<and> length w = 1"
      by (intro exI [of _ "[c]"]) simp
  qed
  then show ?thesis
    unfolding BLANK_def rmatch_Rep in_BLANK len by blast
qed

lemma marker_re_iff: "re_fullmatch (marker_re m) line \<noteq> None \<longleftrightarrow> marker_line m line"
proof -
  have "re_fullmatch (marker_re m) line \<noteq> None \<longleftrightarrow>
      (\<exists>t. line = m @ t \<and> (t = [] \<or> (\<exists>c w. t = c # w \<and> (c = SP \<or> c = TAB) \<and> LF \<notin> set w)))"
    unfolding re_fullmatch_None marker_re_def by (auto simp: rx cats_def)
  also have "\<dots> \<longleftrightarrow> marker_line m line"
    by (fastforce simp: marker_line_def neq_Nil_conv)
  finally show ?thesis .
qed

text \<open>No line is a marker line of two markers, and no exit line is one.\<close>

definition word_of :: "pystr \<Rightarrow> pystr" where
  "word_of line = takeWhile (\<lambda>c. c \<noteq> SP \<and> c \<noteq> TAB) (drop 5 line)"

definition well_formed_marker :: "pystr \<Rightarrow> bool" where
  "well_formed_marker m \<longleftrightarrow> 9 \<le> length m \<and> SP \<notin> set (drop 5 m) \<and> TAB \<notin> set (drop 5 m) \<and>
     take 9 m \<noteq> EXIT_PREFIX"

lemma MARKERS_well_formed: "m \<in> set MARKERS \<Longrightarrow> well_formed_marker m"
proof -
  have "list_all well_formed_marker MARKERS" by code_simp
  then show "m \<in> set MARKERS \<Longrightarrow> ?thesis" by (simp add: list_all_iff)
qed

lemma distinct_MARKERS: "distinct (map (\<lambda>m. (take 5 m, drop 5 m)) MARKERS)"
  by code_simp

lemma marker_line_word:
  assumes "marker_line m line" "well_formed_marker m"
  shows "word_of line = drop 5 m" "take 5 line = take 5 m" "take 9 line = take 9 m"
proof -
  from assms(1) obtain t where t: "line = m @ t" "t = [] \<or> hd t = SP \<or> hd t = TAB"
    by (auto simp: marker_line_def)
  from assms(2) have m: "9 \<le> length m" "SP \<notin> set (drop 5 m)" "TAB \<notin> set (drop 5 m)"
    by (auto simp: well_formed_marker_def)
  then have "drop 5 line = drop 5 m @ t" using t by simp
  moreover have "takeWhile (\<lambda>c. c \<noteq> SP \<and> c \<noteq> TAB) (drop 5 m @ t) = drop 5 m"
    using m t(2) by (cases t) (auto simp: takeWhile_append2 takeWhile_append)
  ultimately show "word_of line = drop 5 m" by (simp add: word_of_def)
  show "take 5 line = take 5 m" "take 9 line = take 9 m" using t m(1) by simp_all
qed

lemma marker_line_unique:
  assumes "marker_line (MARKERS ! i) line" "marker_line (MARKERS ! j) line" "i < 18" "j < 18"
  shows "i = j"
proof -
  have w: "well_formed_marker (MARKERS ! i)" "well_formed_marker (MARKERS ! j)"
    using assms(3,4) by (simp_all add: MARKERS_well_formed)
  have "(take 5 (MARKERS ! i), drop 5 (MARKERS ! i)) = (take 5 (MARKERS ! j), drop 5 (MARKERS ! j))"
    using marker_line_word [OF assms(1) w(1)] marker_line_word [OF assms(2) w(2)] by simp
  then show ?thesis
    using nth_eq_iff_index_eq [OF distinct_MARKERS, of i j] assms(3,4) by simp
qed

lemma stage_index_iff: "stage_index MARKERS line = Some i \<longleftrightarrow> i < 18 \<and> marker_line (MARKERS ! i) line"
proof
  assume "stage_index MARKERS line = Some i"
  then show "i < 18 \<and> marker_line (MARKERS ! i) line"
    unfolding stage_index_def marker_re_iff by (auto dest: first_index_Some)
next
  assume "i < 18 \<and> marker_line (MARKERS ! i) line"
  then show "stage_index MARKERS line = Some i"
    unfolding stage_index_def marker_re_iff
    by (intro first_index_unique) (auto intro: marker_line_unique)
qed

lemma exit_no_stage: "starts_with line EXIT_PREFIX \<Longrightarrow> stage_index MARKERS line = None"
proof (rule ccontr)
  assume e: "starts_with line EXIT_PREFIX" and "stage_index MARKERS line \<noteq> None"
  then obtain i where i: "i < 18" "marker_line (MARKERS ! i) line" by (auto simp: stage_index_iff)
  then have w: "well_formed_marker (MARKERS ! i)" by (simp add: MARKERS_well_formed)
  have "length EXIT_PREFIX = 9" by (simp add: EXIT_PREFIX_def)
  with e have "take 9 line = EXIT_PREFIX" by (simp add: starts_with_def)
  with marker_line_word(3) [OF i(2) w] w show False by (simp add: well_formed_marker_def)
qed

section \<open>Boots\<close>

datatype event = Stage nat | Exit | Contradiction

definition classify :: "pystr \<Rightarrow> event option" where
  "classify line =
    (if re_match FAILURE line \<noteq> None then Some Contradiction
     else if starts_with line EXIT_PREFIX then Some (if line = EXIT_OK then Exit else Contradiction)
     else map_option Stage (stage_index MARKERS line))"

definition events :: "pystr \<Rightarrow> event list" where
  "events serial = List.map_filter classify (splitlines serial)"

text \<open>The events of an error-free prefix: stages that advance the cursor, then exits.\<close>

fun ev_step :: "nat \<times> nat \<Rightarrow> event \<Rightarrow> (nat \<times> nat) option" where
  "ev_step (c, x) (Stage i) = (if x = 0 then map_option (\<lambda>c'. (c', x)) (advance MARKERS c i) else None)"
| "ev_step (c, x) Exit = (if c = 18 then Some (c, Suc x) else None)"
| "ev_step (c, x) Contradiction = None"

fun ev_run :: "nat \<times> nat \<Rightarrow> event list \<Rightarrow> (nat \<times> nat) option" where
  "ev_run st [] = Some st"
| "ev_run st (e # es) = (case ev_step st e of None \<Rightarrow> None | Some st' \<Rightarrow> ev_run st' es)"

lemma ev_run_append:
  "ev_run st (es @ fs) = (case ev_run st es of None \<Rightarrow> None | Some st' \<Rightarrow> ev_run st' fs)"
  by (induction es arbitrary: st) (auto split: option.splits)

lemma ev_run_exits: "ev_run (c, x) es = Some (c', x') \<Longrightarrow> x + length (filter (\<lambda>e. e = Exit) es) = x'"
proof (induction es arbitrary: c x)
  case (Cons e es)
  then show ?case by (cases e) (fastforce split: option.splits if_splits)+
qed simp

lemma ev_run_after_exit: "ev_run (18, Suc 0) es = Some (c, Suc 0) \<longleftrightarrow> es = [] \<and> c = 18"
proof (cases es)
  case (Cons e fs)
  then show ?thesis by (cases e) (auto dest: ev_run_exits)
qed auto

lemma ev_run_boot:
  "ev_run (c, 0) es = Some (18, 1) \<longleftrightarrow> (\<exists>is. es = map Stage is @ [Exit] \<and> boot.run c is = Some 18)"
proof (induction es arbitrary: c)
  case (Cons e es)
  show ?case
  proof (cases e)
    case (Stage i)
    then show ?thesis using Cons.IH
      by (auto simp: Cons_eq_append_conv Cons_eq_map_conv split: option.splits)
        (metis boot.run.simps(2) list.simps(9) option.simps(5))+
  next
    case Exit
    then show ?thesis
      by (auto simp: Cons_eq_append_conv ev_run_after_exit [unfolded One_nat_def] split: if_splits)
  qed (auto simp: Cons_eq_append_conv)
qed simp

lemma t_error_simps [simp]:
  "t_errors (t_error m st) = t_errors st @ [m]" "t_seen (t_error m st) = t_seen st"
  "t_cursor (t_error m st) = t_cursor st" "t_exits (t_error m st) = t_exits st"
  by (simp_all add: t_error_def)

lemma note_failure_simps [simp]:
  "t_cursor (note_failure n line st) = t_cursor st" "t_seen (note_failure n line st) = t_seen st"
  "t_exits (note_failure n line st) = t_exits st"
  "t_errors (note_failure n line st) = [] \<longleftrightarrow> t_errors st = [] \<and> re_match FAILURE line = None"
  by (simp_all add: note_failure_def)

lemma note_exit_simps [simp]:
  "t_cursor (note_exit n line st) = t_cursor st" "t_seen (note_exit n line st) = t_seen st"
  "t_exits (note_exit n line st) = t_exits st @ (if starts_with line EXIT_PREFIX then [(n, line)] else [])"
  "t_errors (note_exit n line st) = [] \<longleftrightarrow>
     t_errors st = [] \<and> (starts_with line EXIT_PREFIX \<longrightarrow> line = EXIT_OK \<and> t_cursor st = 18)"
  by (simp_all add: note_exit_def Let_def)

lemma note_stage_simps [simp]:
  "t_cursor (note_stage n line st) =
    (case stage_index MARKERS line of None \<Rightarrow> t_cursor st | Some i \<Rightarrow>
      (case advance MARKERS (t_cursor st) i of None \<Rightarrow> t_cursor st | Some c \<Rightarrow> c))"
  "t_seen (note_stage n line st) =
    (case stage_index MARKERS line of None \<Rightarrow> t_seen st | Some i \<Rightarrow> (t_seen st)[i := t_seen st ! i + 1])"
  "t_exits (note_stage n line st) = t_exits st"
  "t_errors (note_stage n line st) = [] \<longleftrightarrow> t_errors st = [] \<and>
    (case stage_index MARKERS line of None \<Rightarrow> True | Some i \<Rightarrow> advance MARKERS (t_cursor st) i \<noteq> None \<and> t_exits st = [])"
  by (simp_all add: note_stage_def Let_def split: option.split)

lemma parse_step_simps:
  "t_exits (parse_step st (n, line)) = t_exits st @ (if starts_with line EXIT_PREFIX then [(n, line)] else [])"
  "t_seen (parse_step st (n, line)) =
    (case stage_index MARKERS line of None \<Rightarrow> t_seen st | Some i \<Rightarrow> (t_seen st)[i := t_seen st ! i + 1])"
  "t_cursor (parse_step st (n, line)) =
    (case stage_index MARKERS line of None \<Rightarrow> t_cursor st | Some i \<Rightarrow>
      (case advance MARKERS (t_cursor st) i of None \<Rightarrow> t_cursor st | Some c \<Rightarrow> c))"
  by (simp_all add: parse_step_def split: option.split)

lemma parse_step_event:
  "t_errors (parse_step st (n, line)) = [] \<longleftrightarrow> t_errors st = [] \<and>
    (case classify line of None \<Rightarrow> True
     | Some e \<Rightarrow> ev_step (t_cursor st, length (t_exits st)) e \<noteq> None)"
  using exit_no_stage [of line]
  by (cases "stage_index MARKERS line") (auto simp: parse_step_def classify_def)

lemma parse_step_state:
  assumes "t_errors (parse_step st (n, line)) = []"
  shows "(case classify line of None \<Rightarrow> Some (t_cursor st, length (t_exits st))
      | Some e \<Rightarrow> ev_step (t_cursor st, length (t_exits st)) e) =
    Some (t_cursor (parse_step st (n, line)), length (t_exits (parse_step st (n, line))))"
  using assms exit_no_stage [of line]
  by (cases "stage_index MARKERS line") (auto simp: parse_step_event parse_step_simps classify_def split: if_splits)

definition parse_lines :: "pystr list \<Rightarrow> tstate" where
  "parse_lines ls = foldl parse_step init_tstate (numbered ls)"

lemma parse_lines_simps [simp]:
  "parse_lines [] = init_tstate"
  "parse_lines (ls @ [l]) = parse_step (parse_lines ls) (Suc (length ls), l)"
  by (simp_all add: parse_lines_def)

lemma map_filter_snoc [simp]:
  "List.map_filter f (xs @ [x]) = List.map_filter f xs @ (case f x of None \<Rightarrow> [] | Some y \<Rightarrow> [y])"
  by (auto simp: List.map_filter_def split: option.splits)

lemma parse_lines_run:
  "ev_run (0, 0) (List.map_filter classify ls) =
    (if t_errors (parse_lines ls) = []
     then Some (t_cursor (parse_lines ls), length (t_exits (parse_lines ls))) else None)"
proof (induction ls rule: rev_induct)
  case Nil
  show ?case by (simp add: init_tstate_def List.map_filter_def)
next
  case (snoc l ls)
  let ?st = "parse_lines ls" and ?n = "Suc (length ls)"
  show ?case
  proof (cases "t_errors (parse_step ?st (?n, l)) = []")
    case True
    then have "t_errors ?st = []" by (simp add: parse_step_event)
    with True snoc parse_step_state [OF True] show ?thesis
      by (auto simp: ev_run_append split: option.splits)
  next
    case False
    then consider "t_errors ?st \<noteq> []"
      | e where "t_errors ?st = []" "classify l = Some e" "ev_step (t_cursor ?st, length (t_exits ?st)) e = None"
      by (cases "classify l") (auto simp: parse_step_event simp del: split_paired_All not_None_eq)
    then show ?thesis using False snoc by cases (auto simp: ev_run_append)
  qed
qed

lemma parse_lines_exits:
  "t_exits (parse_lines ls) = filter (\<lambda>(n, l). starts_with l EXIT_PREFIX) (numbered ls)"
  by (induction ls rule: rev_induct) (simp_all add: init_tstate_def parse_step_simps)

lemma parse_lines_seen:
  "length (t_seen (parse_lines ls)) = 18 \<and>
   (\<forall>i<18. t_seen (parse_lines ls) ! i = length (filter (\<lambda>l. stage_index MARKERS l = Some i) ls))"
proof (induction ls rule: rev_induct)
  case (snoc l ls)
  then show ?case by (auto simp: parse_step_simps nth_list_update dest: stage_index_less split: option.splits)
qed (simp add: init_tstate_def)

lemma stage_events_less: "Stage i \<in> set (List.map_filter classify ls) \<Longrightarrow> i < 18"
proof -
  assume "Stage i \<in> set (List.map_filter classify ls)"
  then obtain l where "classify l = Some (Stage i)" by (auto simp: List.map_filter_def)
  then have "stage_index MARKERS l = Some i" by (auto simp: classify_def split: if_splits)
  then show "i < 18" by (simp add: stage_index_iff)
qed

text \<open>An accepted transcript, in terms of its events.\<close>

lemma parse_serial_events:
  "transcript_errors (parse_serial serial) = [] \<longleftrightarrow>
    (\<exists>k. events serial = map Stage ([0..<4] @ replicate k 3 @ [4..<18]) @ [Exit])"
proof -
  let ?st = "parse_lines (splitlines serial)"
  have "transcript_errors (parse_serial serial) = [] \<longleftrightarrow>
      t_errors ?st = [] \<and> t_cursor ?st = 18 \<and> length (t_exits ?st) = 1"
    by (simp add: parse_serial_def Let_def parse_lines_def [symmetric])
  also have "\<dots> \<longleftrightarrow> ev_run (0, 0) (events serial) = Some (18, 1)"
    using parse_lines_run [of "splitlines serial"] by (auto simp: events_def split: if_splits)
  also have "\<dots> \<longleftrightarrow> (\<exists>is. events serial = map Stage is @ [Exit] \<and> boot.run 0 is = Some 18)"
    by (rule ev_run_boot)
  also have "\<dots> \<longleftrightarrow> (\<exists>k. events serial = map Stage ([0..<4] @ replicate k 3 @ [4..<18]) @ [Exit])"
  proof -
    have "boot.run 0 is = Some 18 \<longleftrightarrow> (\<exists>k. is = [0..<4] @ replicate k 3 @ [4..<18])"
      if "events serial = map Stage is @ [Exit]" for "is"
    proof -
      have "\<forall>i\<in>set is. i < 18"
        using that stage_events_less [of _ "splitlines serial"] by (auto simp: events_def)
      from boot.run_complete [OF this] show ?thesis by (simp del: upt_Suc)
    qed
    then show ?thesis by metis
  qed
  finally show ?thesis .
qed

section \<open>Properties\<close>

text \<open>
  C7: the verifier accepts exactly one boot. A transcript has no error if and only if the
  sequence of its marker, exit and failure lines is the eighteen stages in order, with any
  number of repetitions of \<open>ZKL: map-frozen\<close> before the next stage, followed by one
  success exit and nothing else; all other lines are ignored.
\<close>

theorem parse_serial_accepts_iff:
  "transcript_errors (parse_serial serial) = [] \<longleftrightarrow>
    (\<exists>k. events serial = map Stage ([0..<4] @ replicate k 3 @ [4..<18]) @ [Exit])"
  by (rule parse_serial_events)

text \<open>
  C32: the report counts what the transcript contains. Each marker's count is the number of
  lines that are that marker, alone or followed by a blank; the exits are the numbered lines
  that start with \<open>ZKN: exit\<close>, and the kernel entry is observed exactly when such a line
  occurs.
\<close>

theorem parse_serial_observations:
  "marker_counts (parse_serial serial) =
     map (\<lambda>m. (m, length (filter (marker_line m) (splitlines serial)))) MARKERS \<and>
   terminal_exit_markers (parse_serial serial) =
     filter (\<lambda>(n, l). starts_with l EXIT_PREFIX) (numbered (splitlines serial)) \<and>
   (kernel_entry_observed (parse_serial serial) \<longleftrightarrow>
     (\<exists>l\<in>set (splitlines serial). marker_line (py ''ZKN: entry'') l))"
proof -
  let ?ls = "splitlines serial"
  have seen: "length (t_seen (parse_lines ?ls)) = 18"
    "\<And>i. i < 18 \<Longrightarrow> t_seen (parse_lines ?ls) ! i = length (filter (marker_line (MARKERS ! i)) ?ls)"
    using parse_lines_seen [of ?ls] by (auto simp: stage_index_iff)
  have counts: "zip MARKERS (t_seen (parse_lines ?ls)) = map (\<lambda>m. (m, length (filter (marker_line m) ?ls))) MARKERS"
    by (rule nth_equalityI) (simp_all add: seen)
  have entry: "first_index (\<lambda>m. m = py ''ZKN: entry'') MARKERS = Some 5" "MARKERS ! 5 = py ''ZKN: entry''"
    by code_simp+
  have "0 < length (filter P xs) \<longleftrightarrow> (\<exists>x\<in>set xs. P x)" for P and xs :: "pystr list"
    by (induction xs) auto
  then show ?thesis
    unfolding parse_serial_def parse_lines_def [symmetric] Let_def base_report.simps entry(1) option.case
      counts parse_lines_exits seen(2) [of 5, simplified] entry(2)
    by blast
qed

end
