(* ===== verification/VM_Order.thy ===== *)
theory VM_Order
  imports VM_Cycles Transcript_Spec
begin

text \<open>
  The scanned lists as views of the numbered lines, and the order theorems' common facts:
  a list of numbered events is determined by its set, because the numbers increase.
\<close>

section \<open>Numbered views\<close>

definition view :: "(pystr \<Rightarrow> 'a option) \<Rightarrow> pystr list \<Rightarrow> (nat \<times> 'a) list" where
  "view f lines = List.map_filter (\<lambda>(n, l). map_option (Pair n) (f l)) (numbered lines)"

lemma map_filter_Nil [simp]: "List.map_filter f [] = []"
  by (simp add: List.map_filter_def)

lemma view_Nil [simp]: "view f [] = []"
  by (simp add: view_def)

lemma view_snoc [simp]:
  "view f (ls @ [l]) = view f ls @ (case f l of None \<Rightarrow> [] | Some y \<Rightarrow> [(Suc (length ls), y)])"
  by (auto simp: view_def split: option.split)

lemma in_view: "(n, y) \<in> set (view f ls) \<longleftrightarrow> 0 < n \<and> n \<le> length ls \<and> f (ls ! (n - 1)) = Some y"
proof -
  have "(n, y) \<in> set (view f ls) \<longleftrightarrow> (\<exists>l. (n, l) \<in> set (numbered ls) \<and> f l = Some y)"
    by (force simp: view_def List.map_filter_def)
  then show ?thesis by (auto simp: in_numbered)
qed

lemma map_snd_view: "map snd (view f ls) = List.map_filter f ls"
  by (induction ls rule: rev_induct) (auto split: option.split)

lemma view_increasing: "sorted_wrt (<) (map fst (view f ls))"
proof (induction ls rule: rev_induct)
  case (snoc l ls)
  have "m < Suc (length ls)" if "m \<in> fst ` set (view f ls)" for m
    using that by (auto simp: in_view)
  with snoc show ?case by (auto simp: sorted_wrt_append split: option.split)
qed simp

lemma increasing_set_eq:
  fixes xs ys :: "(nat \<times> 'a) list"
  assumes "sorted_wrt (<) (map fst xs)" "sorted_wrt (<) (map fst ys)" "set xs = set ys"
  shows "xs = ys"
proof -
  have xs: "sorted (map fst xs)" "distinct (map fst xs)" and ys: "sorted (map fst ys)" "distinct (map fst ys)"
    using assms(1,2) by (auto simp: strict_sorted_iff)
  have "inj_on fst (set xs \<union> set ys)" using xs(2) assms(3) by (simp add: distinct_map)
  from map_sorted_distinct_set_unique [OF this xs ys assms(3)] show ?thesis .
qed

lemma sort_key_increasing:
  assumes "distinct (map fst xs)"
  shows "sorted_wrt (<) (map fst (sort_key fst xs :: (nat \<times> 'a) list))"
proof -
  have "distinct (map fst (sort_key fst xs))"
    using assms by (simp add: distinct_map)
  then show ?thesis by (simp add: strict_sorted_iff)
qed

section \<open>The scan\<close>

definition vkind :: "pystr \<Rightarrow> vm_line option" where
  "vkind line = (if starts_with line VM_PREFIX
     then (case vm_line_of line of Inr k \<Rightarrow> Some k | Inl _ \<Rightarrow> None) else None)"

definition "as_start k = (case k of VStart m \<Rightarrow> Some m | _ \<Rightarrow> None)"
definition "as_fixture k = (case k of VFixture c n h \<Rightarrow> Some (c, n, h) | _ \<Rightarrow> None)"
definition "as_stage k = (case k of VStage c s f \<Rightarrow> Some (c, s, f) | _ \<Rightarrow> None)"
definition "as_complete k = (case k of VComplete \<Rightarrow> Some () | _ \<Rightarrow> None)"
definition "as_fail k = (case k of VFail c s r \<Rightarrow> Some (c, s, r) | _ \<Rightarrow> None)"

lemmas as_defs = as_start_def as_fixture_def as_stage_def as_complete_def as_fail_def

definition scanned :: "pystr list \<Rightarrow> vscan \<Rightarrow> bool" where
  "scanned ls st \<longleftrightarrow>
    v_starts st = view (\<lambda>l. Option.bind (vkind l) as_start) ls \<and>
    v_fixtures st = view (\<lambda>l. Option.bind (vkind l) as_fixture) ls \<and>
    v_cycles st = view (\<lambda>l. Option.bind (vkind l) as_stage) ls \<and>
    v_completes st = map fst (view (\<lambda>l. Option.bind (vkind l) as_complete) ls) \<and>
    v_fails st = view (\<lambda>l. Option.bind (vkind l) as_fail) ls \<and>
    v_vm_lines st = map fst (view vkind ls) \<and>
    v_exits st = view (\<lambda>l. if starts_with l EXIT_PREFIX then Some l else None) ls \<and>
    v_n6_at st = map fst (view (\<lambda>l. if is_or_spaced N6_LAST l then Some () else None) ls) \<and>
    v_timer_at st = map fst (view (\<lambda>l. if is_or_spaced TIMER l then Some () else None) ls) \<and>
    v_done_at st = map fst (view (\<lambda>l. if l = DONE then Some () else None) ls)"

definition clean_line :: "pystr \<Rightarrow> bool" where
  "clean_line l \<longleftrightarrow> re_match FAILURE l = None \<and>
     (case vkind l of Some VMalformed \<Rightarrow> False | Some (VStage c s f) \<Rightarrow> s \<in> set CYCLE_STAGES | _ \<Rightarrow> True)"

lemma v_error_simps [simp]:
  "v_errors (v_error m st) = v_errors st @ [m]" "v_starts (v_error m st) = v_starts st"
  "v_fixtures (v_error m st) = v_fixtures st" "v_cycles (v_error m st) = v_cycles st"
  "v_completes (v_error m st) = v_completes st" "v_fails (v_error m st) = v_fails st"
  "v_exits (v_error m st) = v_exits st" "v_n6_at (v_error m st) = v_n6_at st"
  "v_timer_at (v_error m st) = v_timer_at st" "v_done_at (v_error m st) = v_done_at st"
  "v_vm_lines (v_error m st) = v_vm_lines st"
  by (simp_all add: v_error_def)

lemma note_vm_failure_cases:
  "note_vm_failure n l st = (if re_match FAILURE l = None then st else v_error (at_line ''Explicit native failure'' n l) st)"
  by (simp add: note_vm_failure_def)

lemma vm_step_scanned:
  assumes "vm_step st (Suc (length ls), l) = Inr st'" "scanned ls st"
  shows "scanned (ls @ [l]) st'"
proof -
  let ?n = "Suc (length ls)"
  let ?st = "note_vm_failure ?n l st"
  have f: "scanned ls ?st" using assms(2) by (simp add: note_vm_failure_cases scanned_def)
  obtain st1 where st1: "note_vm_line ?n l ?st = Inr st1" and st': "st' = note_anchors ?n l st1"
    using assms(1) by (auto simp: vm_step_def exc_simps)
  show ?thesis
  proof (cases "starts_with l VM_PREFIX")
    case False
    with st1 have "st1 = ?st" "vkind l = None" by (auto simp: note_vm_line_def vkind_def)
    with f show ?thesis by (simp add: st' scanned_def note_anchors_def)
  next
    case True
    with st1 obtain k where k: "vm_line_of l = Inr k"
      "st1 = file_vm_line ?n l k (?st\<lparr>v_vm_lines := v_vm_lines ?st @ [?n]\<rparr>)"
      by (auto simp: note_vm_line_def exc_simps)
    with True have "vkind l = Some k" by (simp add: vkind_def)
    with f show ?thesis
      by (cases k) (simp_all add: st' k(2) scanned_def note_anchors_def as_defs Let_def)
  qed
qed

lemma vm_step_errors:
  assumes "vm_step st (n, l) = Inr st'"
  shows "v_errors st' = [] \<longleftrightarrow> v_errors st = [] \<and> clean_line l"
proof -
  let ?st = "note_vm_failure n l st"
  have f: "v_errors ?st = [] \<longleftrightarrow> v_errors st = [] \<and> re_match FAILURE l = None"
    by (simp add: note_vm_failure_cases)
  obtain st1 where st1: "note_vm_line n l ?st = Inr st1" and st': "st' = note_anchors n l st1"
    using assms by (auto simp: vm_step_def exc_simps)
  show ?thesis
  proof (cases "starts_with l VM_PREFIX")
    case False
    with st1 have "st1 = ?st" "vkind l = None" by (auto simp: note_vm_line_def vkind_def)
    with f show ?thesis by (simp add: st' clean_line_def note_anchors_def)
  next
    case True
    with st1 obtain k where k: "vm_line_of l = Inr k"
      "st1 = file_vm_line n l k (?st\<lparr>v_vm_lines := v_vm_lines ?st @ [n]\<rparr>)"
      by (auto simp: note_vm_line_def exc_simps)
    with True have "vkind l = Some k" by (simp add: vkind_def)
    with f show ?thesis
      by (cases k) (simp_all add: st' k(2) clean_line_def note_anchors_def Let_def)
  qed
qed

lemma vm_scan_snoc: "vm_scan (ls @ [l]) = ebind (vm_scan ls) (\<lambda>st. vm_step st (Suc (length ls), l))"
  by (simp add: vm_scan_def)

lemma vm_scan_views:
  "vm_scan ls = Inr st \<Longrightarrow> scanned ls st \<and> (v_errors st = [] \<longleftrightarrow> (\<forall>l\<in>set ls. clean_line l))"
proof (induction ls arbitrary: st rule: rev_induct)
  case Nil
  then show ?case by (auto simp: vm_scan_def init_vscan_def scanned_def)
next
  case (snoc l ls)
  then obtain st0 where "vm_scan ls = Inr st0" "vm_step st0 (Suc (length ls), l) = Inr st"
    by (auto simp: vm_scan_snoc exc_simps)
  with snoc.IH [of st0] vm_step_scanned [of st0 ls l st] vm_step_errors [of st0 _ l st] show ?case
    by auto
qed

text \<open>Every line the scan filed has a kind: the conversion of its numbers did not raise.\<close>

lemma vm_scan_kind:
  assumes "vm_scan ls = Inr st" "l \<in> set ls" "starts_with l VM_PREFIX"
  shows "\<exists>k. vkind l = Some k"
  using assms(1,2)
proof (induction ls arbitrary: st rule: rev_induct)
  case (snoc x ls)
  then obtain st0 where s: "vm_scan ls = Inr st0" "vm_step st0 (Suc (length ls), x) = Inr st"
    by (auto simp: vm_scan_snoc exc_simps)
  show ?case
  proof (cases "l = x")
    case True
    with s(2) assms(3) show ?thesis
      by (auto simp: vm_step_def note_vm_line_def vkind_def exc_simps)
  next
    case False
    with snoc s(1) show ?thesis by auto
  qed
qed simp

end
