(* ===== verification/VM_Positive.thy ===== *)
theory VM_Positive
  imports VM_Order
begin

text \<open>
  An accepted positive run: its protocol lines, VM and bootstrap together, are exactly one
  sequence. The two verifiers check the two kinds of lines separately; the theorem puts their
  verdicts together through the line numbers.
\<close>

datatype pevent =
    Boot event | VmStart pystr | VmFixture nat | VmStage nat pystr | VmComplete | VmFail nat pystr pystr | VmBad

fun event_of :: "vm_line \<Rightarrow> pevent" where
  "event_of (VStart m) = VmStart m"
| "event_of (VFixture c n h) = VmFixture c"
| "event_of (VStage c s f) = VmStage c s"
| "event_of VComplete = VmComplete"
| "event_of (VFail c s r) = VmFail c s r"
| "event_of VMalformed = VmBad"

definition vm_class :: "pystr \<Rightarrow> pevent option" where
  "vm_class line = (if starts_with line VM_PREFIX
     then Some (case vkind line of None \<Rightarrow> VmBad | Some k \<Rightarrow> event_of k) else None)"

definition protocol_class :: "pystr \<Rightarrow> pevent option" where
  "protocol_class line =
    (case vm_class line of Some e \<Rightarrow> Some e | None \<Rightarrow> map_option Boot (classify line))"

text \<open>The VM and bootstrap lines of a transcript, in order; all other lines are noise.\<close>

definition protocol :: "pystr \<Rightarrow> pevent list" where
  "protocol serial = List.map_filter protocol_class (splitlines serial)"

section \<open>VM lines are no bootstrap lines\<close>

lemma MARKERS_not_vm: "m \<in> set MARKERS \<Longrightarrow> take 8 m \<noteq> VM_PREFIX"
proof -
  have "list_all (\<lambda>m. take 8 m \<noteq> VM_PREFIX) MARKERS" by code_simp
  then show "m \<in> set MARKERS \<Longrightarrow> ?thesis" by (simp add: list_all_iff)
qed

lemma vm_take8: "starts_with line VM_PREFIX \<Longrightarrow> take 8 line = VM_PREFIX"
proof -
  have "length VM_PREFIX = 8" by (simp add: VM_PREFIX_def)
  then show "starts_with line VM_PREFIX \<Longrightarrow> ?thesis" by (simp add: starts_with_def)
qed

lemma vm_not_failure: "starts_with line VM_PREFIX \<Longrightarrow> re_match FAILURE line = None"
proof (rule ccontr)
  assume v: "starts_with line VM_PREFIX" and "re_match FAILURE line \<noteq> None"
  then obtain s' g' where "(s', g') \<in> set (rmatch FAILURE (line, []))"
    unfolding re_match_ex by auto
  then show False
    using v by (auto simp: starts_with_iff VM_PREFIX_def FAILURE_def rx)
qed

lemma take8_take9: "take 9 (xs :: 'a list) = take 9 ys \<Longrightarrow> take 8 xs = take 8 ys"
proof -
  assume "take 9 xs = take 9 ys"
  then have "take 8 (take 9 xs) = take 8 (take 9 ys)" by simp
  then show ?thesis by (simp add: min_def)
qed

lemma vm_not_boot: "starts_with line VM_PREFIX \<Longrightarrow> classify line = None"
proof -
  assume v: "starts_with line VM_PREFIX"
  have "take 8 EXIT_PREFIX \<noteq> VM_PREFIX" "length EXIT_PREFIX = 9" by code_simp+
  then have "\<not> starts_with line EXIT_PREFIX"
    using vm_take8 [OF v] take8_take9 [of line EXIT_PREFIX] by (auto simp: starts_with_def)
  moreover have "stage_index MARKERS line = None"
  proof (rule ccontr)
    assume "stage_index MARKERS line \<noteq> None"
    then obtain i where i: "i < 18" "marker_line (MARKERS ! i) line" by (auto simp: stage_index_iff)
    then have "take 9 line = take 9 (MARKERS ! i)"
      by (simp add: marker_line_word(3) MARKERS_well_formed)
    from take8_take9 [OF this] vm_take8 [OF v] i(1) MARKERS_not_vm [of "MARKERS ! i"] show False by simp
  qed
  ultimately show ?thesis using vm_not_failure [OF v] by (simp add: classify_def)
qed

lemma in_protocol_view:
  "(n, e) \<in> set (view protocol_class ls) \<longleftrightarrow>
     (n, e) \<in> set (view vm_class ls) \<or> (\<exists>b. e = Boot b \<and> (n, b) \<in> set (view classify ls))"
  by (auto simp: in_view protocol_class_def vm_class_def vm_not_boot split: option.split)

section \<open>Scanned lists as events\<close>

lemma in_view_bind:
  "(n, x) \<in> set (view (\<lambda>l. Option.bind (vkind l) g) ls) \<longleftrightarrow> (\<exists>k. (n, k) \<in> set (view vkind ls) \<and> g k = Some x)"
  by (auto simp: in_view bind_eq_Some_conv)

lemma as_Some:
  "as_start k = Some m \<longleftrightarrow> k = VStart m" "as_fixture k = Some (c, len, h) \<longleftrightarrow> k = VFixture c len h"
  "as_stage k = Some (c, s, f) \<longleftrightarrow> k = VStage c s f" "as_complete k = Some u \<longleftrightarrow> k = VComplete"
  "as_fail k = Some (c, s, r) \<longleftrightarrow> k = VFail c s r"
  by (cases k; auto simp: as_defs)+

lemma scanned_kinds:
  assumes "scanned ls st"
  shows "(n, m) \<in> set (v_starts st) \<longleftrightarrow> (n, VStart m) \<in> set (view vkind ls)"
    "(n, c, len, h) \<in> set (v_fixtures st) \<longleftrightarrow> (n, VFixture c len h) \<in> set (view vkind ls)"
    "(n, c, s, f) \<in> set (v_cycles st) \<longleftrightarrow> (n, VStage c s f) \<in> set (view vkind ls)"
    "n \<in> set (v_completes st) \<longleftrightarrow> (n, VComplete) \<in> set (view vkind ls)"
    "(n, c, s, r) \<in> set (v_fails st) \<longleftrightarrow> (n, VFail c s r) \<in> set (view vkind ls)"
proof -
  have eqs: "v_starts st = view (\<lambda>l. Option.bind (vkind l) as_start) ls"
    "v_fixtures st = view (\<lambda>l. Option.bind (vkind l) as_fixture) ls"
    "v_cycles st = view (\<lambda>l. Option.bind (vkind l) as_stage) ls"
    "v_completes st = map fst (view (\<lambda>l. Option.bind (vkind l) as_complete) ls)"
    "v_fails st = view (\<lambda>l. Option.bind (vkind l) as_fail) ls"
    using assms by (simp_all add: scanned_def)
  show "(n, m) \<in> set (v_starts st) \<longleftrightarrow> (n, VStart m) \<in> set (view vkind ls)"
    "(n, c, len, h) \<in> set (v_fixtures st) \<longleftrightarrow> (n, VFixture c len h) \<in> set (view vkind ls)"
    "(n, c, s, f) \<in> set (v_cycles st) \<longleftrightarrow> (n, VStage c s f) \<in> set (view vkind ls)"
    "(n, c, s, r) \<in> set (v_fails st) \<longleftrightarrow> (n, VFail c s r) \<in> set (view vkind ls)"
    unfolding eqs in_view_bind as_Some by simp_all
  have "n \<in> fst ` set (view (\<lambda>l. Option.bind (vkind l) as_complete) ls) \<longleftrightarrow>
      (\<exists>u. (n, u) \<in> set (view (\<lambda>l. Option.bind (vkind l) as_complete) ls))" by force
  then show "n \<in> set (v_completes st) \<longleftrightarrow> (n, VComplete) \<in> set (view vkind ls)"
    unfolding eqs set_map in_view_bind as_Some by simp
qed

lemma view_functional: "(n, a) \<in> set (view f ls) \<Longrightarrow> (n, b) \<in> set (view f ls) \<Longrightarrow> a = b"
  by (simp add: in_view)

lemma view_distinct: "distinct (map fst (view f ls))"
  using view_increasing strict_sorted_iff by blast

lemma map_fst_marks [simp]:
  "map fst (fixture_marks fs) = map fst fs" "map fst (stage_marks cs) = map fst cs"
  by (auto simp: fixture_marks_def stage_marks_def)

lemma marks_distinct:
  assumes "scanned ls st"
  shows "distinct (map fst (fixture_marks (v_fixtures st) @ stage_marks (v_cycles st)))"
proof -
  have "distinct (map fst (v_fixtures st))" "distinct (map fst (v_cycles st))"
    using assms by (auto simp: scanned_def view_distinct)
  moreover have "n \<notin> fst ` set (v_cycles st)" if f: "n \<in> fst ` set (v_fixtures st)" for n
  proof
    assume "n \<in> fst ` set (v_cycles st)"
    with f obtain c len h c' s f where "(n, c, len, h) \<in> set (v_fixtures st)" "(n, c', s, f) \<in> set (v_cycles st)"
      by force
    then show False unfolding scanned_kinds [OF assms] using view_functional by fastforce
  qed
  ultimately show ?thesis by auto
qed

fun mark_event :: "mark \<Rightarrow> pevent" where
  "mark_event (FixtureMark c) = VmFixture c"
| "mark_event (StageMark c s) = VmStage c s"
| "mark_event StartMark = VmBad"
| "mark_event (FailMark c) = VmBad"
| "mark_event ExitMark = VmBad"

definition merged_events :: "vscan \<Rightarrow> (nat \<times> pevent) list" where
  "merged_events st =
    map (\<lambda>(n, m). (n, mark_event m)) (sort_key fst (fixture_marks (v_fixtures st) @ stage_marks (v_cycles st)))"

lemma merged_increasing: "scanned ls st \<Longrightarrow> sorted_wrt (<) (map fst (merged_events st))"
proof -
  assume "scanned ls st"
  then have "sorted_wrt (<) (map fst (sort_key fst (fixture_marks (v_fixtures st) @ stage_marks (v_cycles st))))"
    using marks_distinct sort_key_increasing by blast
  moreover have "map fst (merged_events st) =
      map fst (sort_key fst (fixture_marks (v_fixtures st) @ stage_marks (v_cycles st)))"
    by (simp add: merged_events_def case_prod_unfold)
  ultimately show ?thesis by simp
qed

lemma in_merged:
  assumes "scanned ls st"
  shows "(n, e) \<in> set (merged_events st) \<longleftrightarrow>
    (\<exists>k. (n, k) \<in> set (view vkind ls) \<and> e = event_of k \<and>
       ((\<exists>c len h. k = VFixture c len h) \<or> (\<exists>c s f. k = VStage c s f)))"
proof -
  have "(n, e) \<in> set (merged_events st) \<longleftrightarrow>
      (\<exists>c len h. (n, c, len, h) \<in> set (v_fixtures st) \<and> e = VmFixture c) \<or>
      (\<exists>c s f. (n, c, s, f) \<in> set (v_cycles st) \<and> e = VmStage c s)"
    by (force simp: merged_events_def fixture_marks_def stage_marks_def)
  then show ?thesis unfolding scanned_kinds [OF assms] by (metis event_of.simps(2,3))
qed

lemma merged_window:
  assumes "list_all (\<lambda>(n, _). a < n \<and> n < b) (v_fixtures st)" "list_all (\<lambda>(n, _). a < n \<and> n < b) (v_cycles st)"
    and "(n, e) \<in> set (merged_events st)"
  shows "a < n \<and> n < b"
  using assms by (force simp: merged_events_def fixture_marks_def stage_marks_def list_all_iff)

section \<open>The accepted sequence\<close>

lemma check_positive_order_Nil:
  "check_positive_order st = [] \<Longrightarrow>
    v_starts st \<noteq> [] \<and> v_completes st \<noteq> [] \<and> v_n6_at st \<noteq> [] \<and> v_timer_at st \<noteq> [] \<and>
    last (v_n6_at st) < fst (hd (v_starts st)) \<and> fst (hd (v_starts st)) < hd (v_completes st) \<and>
    hd (v_completes st) < hd (v_timer_at st) \<and>
    list_all (\<lambda>(n, _). fst (hd (v_starts st)) < n \<and> n < hd (v_completes st)) (v_fixtures st) \<and>
    list_all (\<lambda>(n, _). fst (hd (v_starts st)) < n \<and> n < hd (v_completes st)) (v_cycles st) \<and>
    map snd (merged_events st) = map mark_event want_positive"
proof -
  have m: "map snd (merged_events st) =
      map mark_event (map snd (sort_key fst (fixture_marks (v_fixtures st) @ stage_marks (v_cycles st))))"
    by (simp add: merged_events_def case_prod_unfold)
  assume a: "check_positive_order st = []"
  have ne: "\<not> (v_starts st = [] \<or> v_completes st = [] \<or> v_n6_at st = [] \<or> v_timer_at st = [] \<or>
      v_done_at st = [] \<or> v_exits st = [])"
  proof
    assume missing: "v_starts st = [] \<or> v_completes st = [] \<or> v_n6_at st = [] \<or> v_timer_at st = [] \<or>
      v_done_at st = [] \<or> v_exits st = []"
    show False using a unfolding check_positive_order_def if_P [OF missing] by simp
  qed
  show ?thesis
    using a ne unfolding m check_positive_order_def if_not_P [OF ne] Let_def append_is_Nil_conv unless_Nil by simp
qed

lemma vm_events_positive:
  assumes sc: "scanned ls st" and clean: "\<forall>l\<in>set ls. clean_line l"
    and kinds: "\<And>l. l \<in> set ls \<Longrightarrow> starts_with l VM_PREFIX \<Longrightarrow> \<exists>k. vkind l = Some k"
    and start: "v_starts st = [(s, m)]" and complete: "v_completes st = [c]" and nofail: "v_fails st = []"
    and "s < c" and window: "list_all (\<lambda>(n, _). s < n \<and> n < c) (v_fixtures st)"
      "list_all (\<lambda>(n, _). s < n \<and> n < c) (v_cycles st)"
  shows "view vm_class ls = (s, VmStart m) # merged_events st @ [(c, VmComplete)]"
proof (rule increasing_set_eq [OF view_increasing])
  have "s < n \<and> n < c" if "n \<in> fst ` set (merged_events st)" for n
    using that merged_window [OF window] by force
  then show "sorted_wrt (<) (map fst ((s, VmStart m) # merged_events st @ [(c, VmComplete)]))"
    using \<open>s < c\<close> merged_increasing [OF sc] by (auto simp: sorted_wrt_append)
  have vk: "(n, e) \<in> set (view vm_class ls) \<longleftrightarrow> (\<exists>k. (n, k) \<in> set (view vkind ls) \<and> e = event_of k)" for n e
  proof -
    have "n \<le> length ls \<Longrightarrow> 0 < n \<Longrightarrow> ls ! (n - 1) \<in> set ls" by simp
    then show ?thesis
      using kinds [of "ls ! (n - 1)"]
      by (auto simp: in_view vm_class_def vkind_def split: option.splits)
  qed
  have "(n, e) \<in> set (view vm_class ls) \<longleftrightarrow> (n, e) \<in> set ((s, VmStart m) # merged_events st @ [(c, VmComplete)])"
    for n e
  proof -
    have bad: "(n, VMalformed) \<notin> set (view vkind ls)"
    proof
      assume "(n, VMalformed) \<in> set (view vkind ls)"
      then have "ls ! (n - 1) \<in> set ls" "vkind (ls ! (n - 1)) = Some VMalformed" by (auto simp: in_view)
      with clean show False by (force simp: clean_line_def)
    qed
    have "(n, VStart m') \<in> set (view vkind ls) \<longleftrightarrow> n = s \<and> m' = m"
      "(n, VComplete) \<in> set (view vkind ls) \<longleftrightarrow> n = c" "(n, VFail c' s' r') \<notin> set (view vkind ls)"
      for m' c' s' r'
      using scanned_kinds [OF sc] start complete nofail by (metis list.set_intros empty_iff list.set(1,2) prod.inject insert_iff)+
    with bad show ?thesis
      unfolding vk using in_merged [OF sc, of n e]
      by (auto elim!: vm_line.exhaust) (metis event_of.simps vm_line.exhaust)+
  qed
  then show "set (view vm_class ls) = set ((s, VmStart m) # merged_events st @ [(c, VmComplete)])"
    by auto
qed

lemma length1: "length xs = 1 \<longleftrightarrow> (\<exists>x. xs = [x])"
  by (cases xs) auto

lemma positive_accepted:
  assumes "parse_vm_serial repr serial POSITIVE = Inr rep" "vm_errors rep = []"
  obtains st s c where "vm_scan (splitlines serial) = Inr st" "v_errors st = []"
    "v_starts st = [(s, POSITIVE)]" "v_completes st = [c]" "v_fails st = []"
    "transcript_errors (parse_serial serial) = []" "check_positive_order st = []"
    "check_cycle_semantics (v_fixtures st) (v_cycles st) True = Inr []"
    "vr_fixtures rep = map (\<lambda>(_, c, n, h). (c, n, h)) (v_fixtures st)"
    "vr_cycles rep = map (\<lambda>(_, c, s, f). (c, s, f)) (v_cycles st)"
    "vr_base rep = parse_serial serial" "vm_complete rep"
proof -
  have mode: "POSITIVE \<in> set MODES" by (simp add: MODES_def)
  from assms(1) mode obtain st errs where st: "vm_scan (splitlines serial) = Inr st"
    and errs: "check_positive (parse_serial serial) st = Inr errs"
    and rep: "vm_errors rep = v_errors st @ check_starts POSITIVE st @ errs"
      "vm_complete rep = (length (v_completes st) = 1 \<and> v_errors st @ check_starts POSITIVE st @ errs = [])"
      "vr_fixtures rep = map (\<lambda>(_, c, n, h). (c, n, h)) (v_fixtures st)"
      "vr_cycles rep = map (\<lambda>(_, c, s, f). (c, s, f)) (v_cycles st)" "vr_base rep = parse_serial serial"
    by (auto simp: parse_vm_serial_def exc_simps Let_def)
  obtain sem where sem: "check_cycle_semantics (v_fixtures st) (v_cycles st) True = Inr sem"
    using errs by (auto simp: check_positive_def exc_simps)
  have nil: "v_errors st = []" "check_starts POSITIVE st = []" "errs = []" using assms(2) rep(1) by auto
  from errs sem have all: "transcript_errors (parse_serial serial) = []" "v_fails st = []"
    "length (v_completes st) = 1" "check_positive_order st = []" "sem = []"
    unfolding check_positive_def nil by auto
  have "length (v_starts st) = 1"
    using nil(2) unfolding check_starts_def by (metis list.distinct(1))
  with nil(2) obtain s where "v_starts st = [(s, POSITIVE)]"
    by (cases "v_starts st") (auto simp: check_starts_def)
  moreover obtain c where "v_completes st = [c]" using all(3) unfolding length1 by blast
  ultimately show thesis using that [of st s c] st nil all sem rep by simp
qed

lemma map_snd_split: "map snd xs = ys @ zs \<Longrightarrow> \<exists>us vs. xs = us @ vs \<and> map snd us = ys \<and> map snd vs = zs"
  by (auto simp: map_eq_append_conv)

lemma is_or_spaced_marker: "is_or_spaced m l \<Longrightarrow> LF \<notin> set l \<Longrightarrow> marker_line m l"
  by (force simp: is_or_spaced_def starts_with_iff marker_line_def)

lemma clean_stage:
  assumes "clean_line l" "marker_line (MARKERS ! i) l" "i < 18"
  shows "classify l = Some (Stage i)"
proof -
  have s: "stage_index MARKERS l = Some i" using assms by (simp add: stage_index_iff)
  then have "\<not> starts_with l EXIT_PREFIX" using exit_no_stage by fastforce
  with s assms(1) show ?thesis by (simp add: classify_def clean_line_def)
qed

text \<open>The boot events around the VM block: everything up to the last N6 trap, and the rest.\<close>

lemma boot_split:
  assumes B: "map snd B = map Stage ([0..<4] @ replicate k 3 @ [4..<18]) @ [Exit]"
    and inc: "sorted_wrt (<) (map fst (B :: (nat \<times> event) list))"
    and a: "(a, Stage 15) \<in> set B" and b: "(b, Stage 16) \<in> set B"
  obtains B1 B2 where "B = B1 @ B2" "map snd B1 = map Stage ([0..<4] @ replicate k 3 @ [4..<16])"
    "map snd B2 = [Stage 16, Stage 17, Exit]"
    "\<And>n e. (n, e) \<in> set B1 \<Longrightarrow> n \<le> a" "\<And>n e. (n, e) \<in> set B2 \<Longrightarrow> b \<le> n"
proof -
  have u: "[4..<18] = [4..<15] @ [15] @ [16, 17 :: nat]" by (simp add: upt_rec)
  have "map snd B = map Stage ([0..<4] @ replicate k 3 @ [4..<15]) @ [Stage 15] @ [Stage 16] @ [Stage 17, Exit]"
    using B unfolding u by simp
  then obtain X Y Z W where X: "B = X @ Y @ Z @ W" "map snd X = map Stage ([0..<4] @ replicate k 3 @ [4..<15])"
    "map snd Y = [Stage 15]" "map snd Z = [Stage 16]" "map snd W = [Stage 17, Exit]"
    by (metis map_snd_split)
  from X(3,4) obtain y z where yz: "Y = [(y, Stage 15)]" "Z = [(z, Stage 16)]"
    by (auto simp: map_eq_Cons_conv)
  have "Stage 15 \<notin> snd ` set X" "Stage 16 \<notin> snd ` set X"
    unfolding set_map [symmetric] X(2) by auto
  moreover have "Stage 15 \<notin> snd ` set W" "Stage 16 \<notin> snd ` set W"
    unfolding set_map [symmetric] X(5) by auto
  ultimately have "a = y" "b = z" using a b unfolding X(1) yz by force+
  show thesis
  proof (rule that)
    show "B = (X @ Y) @ (Z @ W)" using X(1) by simp
    show "map snd (X @ Y) = map Stage ([0..<4] @ replicate k 3 @ [4..<16])"
      using X(2,3) by (simp add: upt_rec)
    show "map snd (Z @ W) = [Stage 16, Stage 17, Exit]" using X(4,5) by simp
    show "n \<le> a" if "(n, e) \<in> set (X @ Y)" for n e
      using that inc \<open>a = y\<close> unfolding X(1) yz by (force simp: sorted_wrt_append)
    show "b \<le> n" if "(n, e) \<in> set (Z @ W)" for n e
      using that inc \<open>b = z\<close> unfolding X(1) yz by (force simp: sorted_wrt_append)
  qed
qed

text \<open>The sequence of a complete run with \<open>k\<close> extra frozen maps.\<close>

definition complete_run :: "nat \<Rightarrow> pevent list" where
  "complete_run k =
    map (Boot \<circ> Stage) ([0..<4] @ replicate k 3 @ [4..<16]) @
    [VmStart POSITIVE] @
    concat (map (\<lambda>c. VmFixture c # map (VmStage c) CYCLE_STAGES) [1, 2]) @
    [VmComplete] @
    [Boot (Stage 16), Boot (Stage 17), Boot Exit]"

lemma want_positive_events:
  "map mark_event want_positive = concat (map (\<lambda>c. VmFixture c # map (VmStage c) CYCLE_STAGES) [1, 2])"
  by (simp add: want_positive_def comp_def)

section \<open>Property\<close>

lemma positive_protocol:
  assumes "parse_vm_serial repr serial POSITIVE = Inr rep" "vm_errors rep = []"
  shows "\<exists>k. protocol serial = complete_run k"
proof -
  let ?ls = "splitlines serial"
  obtain st s c where st: "vm_scan ?ls = Inr st" and errs: "v_errors st = []"
    and start: "v_starts st = [(s, POSITIVE)]" and complete: "v_completes st = [c]" and nofail: "v_fails st = []"
    and base: "transcript_errors (parse_serial serial) = []" and order: "check_positive_order st = []"
    using positive_accepted [OF assms] by blast
  have sc: "scanned ?ls st" and clean: "\<forall>l\<in>set ?ls. clean_line l" using vm_scan_views [OF st] errs by auto
  note ord = check_positive_order_Nil [OF order, unfolded start complete, simplified]
  have vm: "view vm_class ?ls = (s, VmStart POSITIVE) # merged_events st @ [(c, VmComplete)]"
    by (rule vm_events_positive [OF sc clean vm_scan_kind [OF st] start complete nofail]) (use ord in auto)
  let ?B = "view classify ?ls"
  obtain k where k: "map snd ?B = map Stage ([0..<4] @ replicate k 3 @ [4..<18]) @ [Exit]"
    using base unfolding parse_serial_events events_def map_snd_view by blast
  have stage: "(n, Stage i) \<in> set ?B" if "i < 18" "n \<in> fst ` set (view (\<lambda>l. if is_or_spaced (MARKERS ! i) l then Some () else None) ?ls)" for n i
  proof -
    from that(2) have n: "0 < n" "n \<le> length ?ls" "is_or_spaced (MARKERS ! i) (?ls ! (n - 1))"
      by (auto simp: in_view split: if_splits)
    then have l: "?ls ! (n - 1) \<in> set ?ls" by simp
    with n(3) have "marker_line (MARKERS ! i) (?ls ! (n - 1))"
      by (intro is_or_spaced_marker) (auto dest: splitlines_no_LF)
    with clean l that(1) clean_stage n(1,2) show ?thesis by (simp add: in_view)
  qed
  have n6: "MARKERS ! 15 = N6_LAST" and timer: "MARKERS ! 16 = TIMER" by code_simp+
  have a: "(last (v_n6_at st), Stage 15) \<in> set ?B"
    using stage [of 15] ord sc last_in_set [of "v_n6_at st"] by (simp add: scanned_def n6)
  have b: "(hd (v_timer_at st), Stage 16) \<in> set ?B"
    using stage [of 16] ord sc hd_in_set [of "v_timer_at st"] by (simp add: scanned_def timer)
  obtain B1 B2 where B: "?B = B1 @ B2" "map snd B1 = map Stage ([0..<4] @ replicate k 3 @ [4..<16])"
    "map snd B2 = [Stage 16, Stage 17, Exit]"
    and lo: "\<And>n e. (n, e) \<in> set B1 \<Longrightarrow> n \<le> last (v_n6_at st)"
    and hi: "\<And>n e. (n, e) \<in> set B2 \<Longrightarrow> hd (v_timer_at st) \<le> n"
    using boot_split [OF k view_increasing a b] by blast
  let ?boot = "map (\<lambda>(n, e). (n, Boot e))"
  have "view protocol_class ?ls = ?boot B1 @ view vm_class ?ls @ ?boot B2"
  proof (rule increasing_set_eq [OF view_increasing])
    have inc: "sorted_wrt (<) (map fst B1)" "sorted_wrt (<) (map fst B2)" "sorted_wrt (<) (map fst (view vm_class ?ls))"
      using view_increasing [of classify ?ls] view_increasing [of vm_class ?ls] by (auto simp: B(1) sorted_wrt_append)
    have fst_boot: "map fst (?boot xs) = map fst xs" for xs :: "(nat \<times> event) list" by (simp add: case_prod_unfold)
    have win: "s \<le> n \<and> n \<le> c" if "(n, e) \<in> set (view vm_class ?ls)" for n e
      using that ord merged_window [of s c st n e] unfolding vm by auto
    show "sorted_wrt (<) (map fst (?boot B1 @ view vm_class ?ls @ ?boot B2))"
      unfolding map_append fst_boot sorted_wrt_append using inc ord win lo hi by fastforce
    show "set (view protocol_class ?ls) = set (?boot B1 @ view vm_class ?ls @ ?boot B2)"
      using in_protocol_view [of _ _ ?ls] unfolding B(1) by (auto simp: image_iff)
  qed
  then have m1: "protocol serial = map snd (?boot B1) @ map snd (view vm_class ?ls) @ map snd (?boot B2)"
    unfolding protocol_def map_snd_view [symmetric] by simp
  have m2: "map snd (?boot xs) = map Boot (map snd xs)" for xs :: "(nat \<times> event) list"
    by (simp add: case_prod_unfold)
  have m3: "map snd (view vm_class ?ls) = [VmStart POSITIVE] @ map mark_event want_positive @ [VmComplete]"
    unfolding vm using ord by simp
  have "protocol serial = complete_run k"
    unfolding m1 m2 m3 B(2,3) want_positive_events complete_run_def
    by (simp only: map_map [symmetric] map_append list.map append_assoc)
  then show ?thesis by blast
qed

text \<open>
  C4: acceptance of a positive run fixes its whole protocol. If \<open>parse_vm_serial\<close> reports no
  error in positive mode, then the bootstrap and VM lines of the transcript are, in order, the
  stages up to the last N6 trap, one \<open>vm-start\<close> of this mode, for cycle 1 and then 2 the
  fixture and the thirteen stages, one \<open>vm-complete\<close>, \<open>timer-ok\<close>, \<open>done\<close> and the success
  exit; no failure, no further VM line and no malformed one occurs anywhere.
\<close>

theorem positive_run_protocol:
  assumes "parse_vm_serial repr serial POSITIVE = Inr rep" "vm_errors rep = []"
  shows "\<exists>k. protocol serial = complete_run k"
  by (rule positive_protocol [OF assms])

end
