(* ===== verification/VM_Sample.thy ===== *)
theory VM_Sample
  imports VM_Positive
begin

text \<open>
  Concrete transcripts of the three modes, for the witnesses of the transcript properties, and
  the rules by which the simplifier runs the regular expressions on them.
\<close>

named_theorems rx_eval \<open>evaluation of regular expressions on literals\<close>

section \<open>Evaluation\<close>

lemma starts_with_simps [rx_eval]:
  "starts_with s [] = True" "starts_with [] (d # p) = False"
  "starts_with (c # s) (d # p) = (c = d \<and> starts_with s p)"
  by (simp_all add: starts_with_def)

lemma rmatch_Lit_simps [rx_eval]:
  "rmatch (Lit []) (s, g) = [(s, g)]" "rmatch (Lit (c # p)) ([], g) = []"
  "rmatch (Lit (c # p)) (d # s, g) = (if d = c then rmatch (Lit p) (s, g) else [])"
  by (simp_all add: rmatch.simps starts_with_simps)

lemma rev_upt_shift:
  "rev [lo..<Suc (Suc m)] = map Suc (rev [lo - 1..<Suc m]) @ (if lo = 0 then [0] else [])"
proof (cases lo)
  case 0
  have "[0..<Suc (Suc m)] = 0 # map Suc [0..<Suc m]" by (metis map_Suc_upt upt_conv_Cons zero_less_Suc)
  with 0 show ?thesis by (simp add: rev_map del: upt_Suc)
next
  case (Suc l)
  have "map Suc (rev [l..<Suc m]) = rev [Suc l..<Suc (Suc m)]"
    unfolding rev_map [symmetric] map_Suc_upt ..
  with Suc show ?thesis by (simp del: upt_Suc)
qed

lemma rmatch_Rep_simps [rx_eval]:
  "rmatch (Rep c lo hi) ([], g) = (if lo = 0 then [([], g)] else [])"
  "rmatch (Rep c lo hi) (x # s, g) =
    (if hi \<noteq> Some 0 \<and> in_cls c x then rmatch (Rep c (lo - 1) (map_option (\<lambda>h. h - 1) hi)) (s, g) else []) @
    (if lo = 0 then [(x # s, g)] else [])"
proof -
  show "rmatch (Rep c lo hi) ([], g) = (if lo = 0 then [([], g)] else [])"
    by (cases hi) (simp_all add: rmatch.simps Let_def)
  have shift: "map (\<lambda>k. (drop k (x # s), g)) (rev [lo..<Suc (Suc m)]) =
      map (\<lambda>k. (drop k s, g)) (rev [lo - 1..<Suc m]) @ (if lo = 0 then [(x # s, g)] else [])" for m
    unfolding rev_upt_shift by (simp add: comp_def del: upt_Suc)
  show "rmatch (Rep c lo hi) (x # s, g) =
    (if hi \<noteq> Some 0 \<and> in_cls c x then rmatch (Rep c (lo - 1) (map_option (\<lambda>h. h - 1) hi)) (s, g) else []) @
    (if lo = 0 then [(x # s, g)] else [])"
  proof (cases "in_cls c x")
    case False
    then show ?thesis by (cases hi) (auto simp: rmatch.simps Let_def)
  next
    case True
    show ?thesis
    proof (cases hi)
      case None
      then show ?thesis using True shift by (simp add: rmatch.simps Let_def del: upt_Suc)
    next
      case (Some h)
      then show ?thesis using True shift by (cases h) (auto simp: rmatch.simps Let_def upt_conv_Cons simp del: upt_Suc)
    qed
  qed
qed

lemmas rmatch_rest_simps [rx_eval] = rmatch.simps(3-7) re_fullmatch_def re_match_def

lemmas re_defs [rx_eval] =
  START_RE_def FIXTURE_RE_def CYCLE_RE_def COMPLETE_RE_def FAIL_RE_def DIGITS_def ONE_TWO_def HEX_def SLUG_def
  CONTROL_RE_def TEMPLATE_RE_def CONSTRUCT_RE_def WALK_RE_def SWITCH_RE_def CONTENT_RE_def FAULT_RE_def
  DESTROY_RE_def BLANK_def FAILURE_def

lemmas conv_defs = int_dec_def MAX_STR_DIGITS_def from_digits_def digit_value_def

section \<open>Lines\<close>

definition t_control :: pystr where
  "t_control = py ''cr3=0000000000300000 rflags=0000000000000002 cr0=0000000080010033 cr4=0000000000000600 efer=0000000000001d01 pmm-total=4096 pmm-free=1000 pmm-used=3096 pmm-unmanaged=10 pmm-excluded=20''"
definition t_template :: pystr where
  "t_template = py ''root=0000000000300000 pdpt0=0000000000310003''"
definition t_construct :: pystr where
  "t_construct = py ''owned=26 image=4 stack=16 tables=6 root=0000000000abc000''"
definition t_walk :: pystr where
  "t_walk = py ''image-pts=2 stack-pts=1 rx=0000000000aa0000 rx1=0000000000ad0000 ro=0000000000ab0000 rw=0000000000ac0000''"
definition t_switch :: pystr where
  "t_switch = py ''expected=0000000000abc000 observed=0000000000abc000''"
definition t_skipped :: pystr where
  "t_skipped = py ''expected=0000000000abc000 observed=0000000000300000''"
definition t_content :: pystr where
  "t_content = py ''fetch=0''"
definition t_restore :: pystr where
  "t_restore = py ''expected=0000000000300000 observed=0000000000300000''"
definition t_destroy :: pystr where
  "t_destroy = py ''owned=0 adapter=0 pmm-total=4096 pmm-free=1000 pmm-used=3096 pmm-unmanaged=10 pmm-excluded=20''"

definition t_fault :: "string \<Rightarrow> string \<Rightarrow> string \<Rightarrow> string \<Rightarrow> pystr" where
  "t_fault pfec cr2 rip gen = py (''vector=14 pfec='' @ pfec @ '' cr2='' @ cr2 @ '' rip='' @ rip @ '' gen='' @ gen)"

definition t_ro :: "string \<Rightarrow> pystr" where "t_ro = t_fault ''3'' ''0000000040202180'' ''0000000000200100''"
definition t_nx :: "string \<Rightarrow> pystr" where "t_nx = t_fault ''11'' ''0000000040204030'' ''0000000040204030''"
definition t_guard :: "string \<Rightarrow> pystr" where "t_guard = t_fault ''0'' ''000000007ffed000'' ''0000000000200100''"
definition t_top :: "string \<Rightarrow> pystr" where "t_top = t_fault ''0'' ''000000007fffe000'' ''0000000000200100''"
definition t_absent :: "string \<Rightarrow> pystr" where "t_absent = t_fault ''0'' ''00000000401ff100'' ''0000000000200100''"

lemmas t_defs = t_control_def t_template_def t_construct_def t_walk_def t_switch_def t_skipped_def t_content_def
  t_restore_def t_destroy_def t_fault_def t_ro_def t_nx_def t_guard_def t_top_def t_absent_def

definition l_stage :: "char \<Rightarrow> string \<Rightarrow> pystr \<Rightarrow> pystr" where
  "l_stage c stage txt = py (''ZKN: vm-cycle cycle='' @ [c] @ '' stage='' @ stage @ '' '') @ txt"

definition l_fixture :: "char \<Rightarrow> pystr \<Rightarrow> pystr" where
  "l_fixture c sha = py (''ZKN: vm-fixture cycle='' @ [c] @ '' len=5120 sha256='') @ sha"

definition sha1 :: pystr where "sha1 = py ''b9b1c7085cc32a99ff7127d83f845525115f4d0c57d67566c2521fa9681486b9''"
definition sha2 :: pystr where "sha2 = py ''f2bb6508933e81ba28e67fe968508db2c6888681a508019c8935f1b663d6c447''"

definition l_start :: "string \<Rightarrow> pystr" where
  "l_start mode = py (''ZKN: vm-start profile=native-vm-probe-v1 mode='' @ mode)"
definition l_complete :: pystr where "l_complete = py ''ZKN: vm-complete cycles=2''"
definition l_skip_fail :: pystr where "l_skip_fail = py ''ZKN: vm-fail cycle=1 stage=switch reason=cr3-readback''"
definition l_ro_fail :: pystr where "l_ro_fail = py ''ZKN: vm-fail cycle=1 stage=fault-ro reason=expected-pf''"

lemma l_start_kinds:
  "vkind (l_start ''positive'') = Some (VStart (py ''positive''))"
  "vkind (l_start ''skip-switch'') = Some (VStart (py ''skip-switch''))"
  "vkind (l_start ''writable-ro'') = Some (VStart (py ''writable-ro''))"
  "vkind l_complete = Some VComplete"
  "vkind l_skip_fail = Some (VFail 1 (py ''switch'') (py ''cr3-readback''))"
  "vkind l_ro_fail = Some (VFail 1 (py ''fault-ro'') (py ''expected-pf''))"
  by (simp_all add: vkind_def VM_PREFIX_def vm_line_of_def rx_eval l_start_def l_complete_def l_skip_fail_def
      l_ro_fail_def conv_defs)

lemma l_fixture_kinds:
  "vkind (l_fixture CHR ''1'' sha1) = Some (VFixture 1 5120 sha1)"
  "vkind (l_fixture CHR ''2'' sha2) = Some (VFixture 2 5120 sha2)"
  by (simp_all add: vkind_def VM_PREFIX_def vm_line_of_def rx_eval l_fixture_def sha1_def sha2_def conv_defs)

lemma l_stage_kinds1:
  "vkind (l_stage CHR ''1'' ''control'' t_control) = Some (VStage 1 (py ''control'') t_control)"
  "vkind (l_stage CHR ''1'' ''template'' t_template) = Some (VStage 1 (py ''template'') t_template)"
  "vkind (l_stage CHR ''1'' ''construct'' t_construct) = Some (VStage 1 (py ''construct'') t_construct)"
  "vkind (l_stage CHR ''1'' ''walk'' t_walk) = Some (VStage 1 (py ''walk'') t_walk)"
  "vkind (l_stage CHR ''1'' ''switch'' t_switch) = Some (VStage 1 (py ''switch'') t_switch)"
  "vkind (l_stage CHR ''1'' ''switch'' t_skipped) = Some (VStage 1 (py ''switch'') t_skipped)"
  "vkind (l_stage CHR ''1'' ''content'' t_content) = Some (VStage 1 (py ''content'') t_content)"
  "vkind (l_stage CHR ''1'' ''fault-ro'' (t_ro ''1'')) = Some (VStage 1 (py ''fault-ro'') (t_ro ''1''))"
  "vkind (l_stage CHR ''1'' ''fault-nx'' (t_nx ''2'')) = Some (VStage 1 (py ''fault-nx'') (t_nx ''2''))"
  "vkind (l_stage CHR ''1'' ''fault-guard'' (t_guard ''3'')) = Some (VStage 1 (py ''fault-guard'') (t_guard ''3''))"
  "vkind (l_stage CHR ''1'' ''fault-top'' (t_top ''4'')) = Some (VStage 1 (py ''fault-top'') (t_top ''4''))"
  "vkind (l_stage CHR ''1'' ''restore'' t_restore) = Some (VStage 1 (py ''restore'') t_restore)"
  "vkind (l_stage CHR ''1'' ''absent'' (t_absent ''5'')) = Some (VStage 1 (py ''absent'') (t_absent ''5''))"
  "vkind (l_stage CHR ''1'' ''destroy'' t_destroy) = Some (VStage 1 (py ''destroy'') t_destroy)"
  by (simp_all add: vkind_def VM_PREFIX_def vm_line_of_def rx_eval l_stage_def t_defs conv_defs)

lemma l_stage_kinds2:
  "vkind (l_stage CHR ''2'' ''control'' t_control) = Some (VStage 2 (py ''control'') t_control)"
  "vkind (l_stage CHR ''2'' ''template'' t_template) = Some (VStage 2 (py ''template'') t_template)"
  "vkind (l_stage CHR ''2'' ''construct'' t_construct) = Some (VStage 2 (py ''construct'') t_construct)"
  "vkind (l_stage CHR ''2'' ''walk'' t_walk) = Some (VStage 2 (py ''walk'') t_walk)"
  "vkind (l_stage CHR ''2'' ''switch'' t_switch) = Some (VStage 2 (py ''switch'') t_switch)"
  "vkind (l_stage CHR ''2'' ''content'' t_content) = Some (VStage 2 (py ''content'') t_content)"
  "vkind (l_stage CHR ''2'' ''fault-ro'' (t_ro ''6'')) = Some (VStage 2 (py ''fault-ro'') (t_ro ''6''))"
  "vkind (l_stage CHR ''2'' ''fault-nx'' (t_nx ''7'')) = Some (VStage 2 (py ''fault-nx'') (t_nx ''7''))"
  "vkind (l_stage CHR ''2'' ''fault-guard'' (t_guard ''8'')) = Some (VStage 2 (py ''fault-guard'') (t_guard ''8''))"
  "vkind (l_stage CHR ''2'' ''fault-top'' (t_top ''9'')) = Some (VStage 2 (py ''fault-top'') (t_top ''9''))"
  "vkind (l_stage CHR ''2'' ''restore'' t_restore) = Some (VStage 2 (py ''restore'') t_restore)"
  "vkind (l_stage CHR ''2'' ''absent'' (t_absent ''10'')) = Some (VStage 2 (py ''absent'') (t_absent ''10''))"
  "vkind (l_stage CHR ''2'' ''destroy'' t_destroy) = Some (VStage 2 (py ''destroy'') t_destroy)"
  by (simp_all add: vkind_def VM_PREFIX_def vm_line_of_def rx_eval l_stage_def t_defs conv_defs)

end
