(* ===== verification/VM_Runs.thy ===== *)
theory VM_Runs
  imports VM_Sample
begin

unbundle bit_operations_syntax

text \<open>The sample transcripts of the three modes, scanned and accepted.\<close>

section \<open>Steps of the scan\<close>

lemma vm_not_anchor:
  assumes "starts_with l VM_PREFIX"
  shows "\<not> is_or_spaced N6_LAST l" "\<not> is_or_spaced TIMER l" "l \<noteq> DONE" "\<not> starts_with l EXIT_PREFIX"
proof -
  have "take 8 N6_LAST \<noteq> VM_PREFIX" "take 8 TIMER \<noteq> VM_PREFIX" "take 8 DONE \<noteq> VM_PREFIX" "take 8 EXIT_PREFIX \<noteq> VM_PREFIX"
    "8 \<le> length N6_LAST" "8 \<le> length TIMER" "8 \<le> length DONE" "8 \<le> length EXIT_PREFIX"
    by code_simp+
  with vm_take8 [OF assms]
  show "\<not> is_or_spaced N6_LAST l" "\<not> is_or_spaced TIMER l" "l \<noteq> DONE" "\<not> starts_with l EXIT_PREFIX"
    by (auto simp: is_or_spaced_def starts_with_iff)
qed

lemma vm_step_kind:
  assumes "vkind l = Some k"
  shows "vm_step st (n, l) = Inr (file_vm_line n l k (st\<lparr>v_vm_lines := v_vm_lines st @ [n]\<rparr>))"
proof -
  have v: "starts_with l VM_PREFIX" "vm_line_of l = Inr k"
    using assms by (auto simp: vkind_def split: if_splits sum.splits)
  have same: "note_anchors n l st' = st'" for st'
    using vm_not_anchor [OF v(1)] by (simp add: note_anchors_def)
  show ?thesis
    by (simp add: vm_step_def note_vm_failure_cases vm_not_failure [OF v(1)] note_vm_line_def v same)
qed

lemma marker_facts:
  "list_all (\<lambda>i. let m = MARKERS ! i in \<not> starts_with m VM_PREFIX \<and> (is_or_spaced N6_LAST m \<longleftrightarrow> i = 15) \<and>
     (is_or_spaced TIMER m \<longleftrightarrow> i = 16) \<and> (m = DONE \<longleftrightarrow> i = 17)) [0..<18]"
  by code_simp

lemma markers_no_failure: "list_all (\<lambda>m. re_match FAILURE m = None) MARKERS"
  by (simp add: MARKERS_def rx_eval)

lemma MARKERS_marker_line: "marker_line m m"
  by (simp add: marker_line_def)

lemma vm_step_marker:
  assumes "i < 18"
  shows "vm_step st (n, MARKERS ! i) = Inr (st\<lparr>v_n6_at := v_n6_at st @ (if i = 15 then [n] else []),
     v_timer_at := v_timer_at st @ (if i = 16 then [n] else []),
     v_done_at := v_done_at st @ (if i = 17 then [n] else [])\<rparr>)"
proof -
  have "stage_index MARKERS (MARKERS ! i) = Some i" using assms by (simp add: stage_index_iff MARKERS_marker_line)
  then have "\<not> starts_with (MARKERS ! i) EXIT_PREFIX" using exit_no_stage by fastforce
  moreover have "re_match FAILURE (MARKERS ! i) = None" using markers_no_failure assms by (simp add: list_all_iff)
  ultimately show ?thesis
    using marker_facts assms by (simp add: list_all_iff Let_def vm_step_def note_vm_failure_cases note_vm_line_def note_anchors_def)
qed

lemma vm_step_exit:
  "vm_step st (n, EXIT_OK) = Inr (st\<lparr>v_exits := v_exits st @ [(n, EXIT_OK)]\<rparr>)"
  "vm_step st (n, EXIT_VM) = Inr (st\<lparr>v_exits := v_exits st @ [(n, EXIT_VM)]\<rparr>)"
proof -
  have facts: "\<not> starts_with e VM_PREFIX \<and> \<not> is_or_spaced N6_LAST e \<and> \<not> is_or_spaced TIMER e \<and> e \<noteq> DONE \<and>
      starts_with e EXIT_PREFIX \<and> re_match FAILURE e = None" if "e = EXIT_OK \<or> e = EXIT_VM" for e
    using that by (auto simp: EXIT_OK_def EXIT_VM_def VM_PREFIX_def N6_LAST_def TIMER_def DONE_def EXIT_PREFIX_def
        is_or_spaced_def rx_eval)
  then show "vm_step st (n, EXIT_OK) = Inr (st\<lparr>v_exits := v_exits st @ [(n, EXIT_OK)]\<rparr>)"
    "vm_step st (n, EXIT_VM) = Inr (st\<lparr>v_exits := v_exits st @ [(n, EXIT_VM)]\<rparr>)"
    by (simp_all add: vm_step_def note_vm_failure_cases note_vm_line_def note_anchors_def)
qed

section \<open>The transcripts\<close>

definition n6_lines :: "pystr list" where "n6_lines = map (\<lambda>i. MARKERS ! i) [0, 1, 2, 3, 4, 5, 6, 7, 8, 9, 10, 11, 12, 13, 14, 15]"

definition construct_lines :: "char \<Rightarrow> pystr \<Rightarrow> pystr list" where
  "construct_lines c sha = [
     l_fixture c sha, l_stage c ''control'' t_control, l_stage c ''template'' t_template,
     l_stage c ''construct'' t_construct, l_stage c ''walk'' t_walk]"

definition fault_lines :: "char \<Rightarrow> string list \<Rightarrow> pystr list" where
  "fault_lines c gens = [
     l_stage c ''switch'' t_switch, l_stage c ''content'' t_content,
     l_stage c ''fault-ro'' (t_ro (gens ! 0)), l_stage c ''fault-nx'' (t_nx (gens ! 1)),
     l_stage c ''fault-guard'' (t_guard (gens ! 2)), l_stage c ''fault-top'' (t_top (gens ! 3)),
     l_stage c ''restore'' t_restore, l_stage c ''absent'' (t_absent (gens ! 4)), l_stage c ''destroy'' t_destroy]"

definition positive_lines :: "pystr list" where
  "positive_lines = n6_lines @ [l_start ''positive''] @
     construct_lines CHR ''1'' sha1 @ fault_lines CHR ''1'' [''1'', ''2'', ''3'', ''4'', ''5''] @
     construct_lines CHR ''2'' sha2 @ fault_lines CHR ''2'' [''6'', ''7'', ''8'', ''9'', ''10''] @
     [l_complete, MARKERS ! 16, MARKERS ! 17, EXIT_OK]"

definition skip_switch_lines :: "pystr list" where
  "skip_switch_lines = n6_lines @ [l_start ''skip-switch''] @ construct_lines CHR ''1'' sha1 @
     [l_stage CHR ''1'' ''switch'' t_skipped, l_skip_fail, EXIT_VM]"

definition writable_ro_lines :: "pystr list" where
  "writable_ro_lines = n6_lines @ [l_start ''writable-ro''] @ construct_lines CHR ''1'' sha1 @
     [l_stage CHR ''1'' ''switch'' t_switch, l_stage CHR ''1'' ''content'' t_content, l_ro_fail, EXIT_VM]"

definition as_text :: "pystr list \<Rightarrow> pystr" where
  "as_text ls = concat (map (\<lambda>l. l @ [LF]) ls)"

lemmas lines_defs = n6_lines_def construct_lines_def fault_lines_def positive_lines_def skip_switch_lines_def
  writable_ro_lines_def

definition positive_scan :: vscan where
  "positive_scan = \<lparr>v_errors = [], v_starts = [(17, py ''positive'')],
     v_fixtures = [(18, 1, 5120, sha1), (32, 2, 5120, sha2)],
     v_cycles = [
       (19, 1, py ''control'', t_control), (20, 1, py ''template'', t_template),
       (21, 1, py ''construct'', t_construct), (22, 1, py ''walk'', t_walk),
       (23, 1, py ''switch'', t_switch), (24, 1, py ''content'', t_content),
       (25, 1, py ''fault-ro'', t_ro ''1''), (26, 1, py ''fault-nx'', t_nx ''2''),
       (27, 1, py ''fault-guard'', t_guard ''3''), (28, 1, py ''fault-top'', t_top ''4''),
       (29, 1, py ''restore'', t_restore), (30, 1, py ''absent'', t_absent ''5''),
       (31, 1, py ''destroy'', t_destroy), (33, 2, py ''control'', t_control),
       (34, 2, py ''template'', t_template), (35, 2, py ''construct'', t_construct),
       (36, 2, py ''walk'', t_walk), (37, 2, py ''switch'', t_switch),
       (38, 2, py ''content'', t_content), (39, 2, py ''fault-ro'', t_ro ''6''),
       (40, 2, py ''fault-nx'', t_nx ''7''), (41, 2, py ''fault-guard'', t_guard ''8''),
       (42, 2, py ''fault-top'', t_top ''9''), (43, 2, py ''restore'', t_restore),
       (44, 2, py ''absent'', t_absent ''10''), (45, 2, py ''destroy'', t_destroy)],
     v_completes = [46], v_fails = [], v_exits = [(49, EXIT_OK)],
     v_n6_at = [16], v_timer_at = [47], v_done_at = [48],
     v_vm_lines = [17, 18, 19, 20, 21, 22, 23, 24, 25, 26, 27, 28, 29, 30, 31, 32, 33, 34, 35, 36, 37, 38, 39, 40, 41, 42, 43, 44, 45, 46]\<rparr>"

lemma positive_scanned: "vm_scan positive_lines = Inr positive_scan"
  by (simp add: vm_scan_def numbered_def lines_defs init_vscan_def vm_step_marker vm_step_exit vm_step_kind
      l_start_kinds l_fixture_kinds l_stage_kinds1 l_stage_kinds2 CYCLE_STAGES_def positive_scan_def)

definition skip_switch_scan :: vscan where
  "skip_switch_scan = \<lparr>v_errors = [], v_starts = [(17, py ''skip-switch'')],
     v_fixtures = [(18, 1, 5120, sha1)],
     v_cycles = [
       (19, 1, py ''control'', t_control), (20, 1, py ''template'', t_template),
       (21, 1, py ''construct'', t_construct), (22, 1, py ''walk'', t_walk),
       (23, 1, py ''switch'', t_skipped)],
     v_completes = [], v_fails = [(24, 1, py ''switch'', py ''cr3-readback'')], v_exits = [(25, EXIT_VM)],
     v_n6_at = [16], v_timer_at = [], v_done_at = [],
     v_vm_lines = [17, 18, 19, 20, 21, 22, 23, 24]\<rparr>"

lemma skip_switch_scanned: "vm_scan skip_switch_lines = Inr skip_switch_scan"
  by (simp add: vm_scan_def numbered_def lines_defs init_vscan_def vm_step_marker vm_step_exit vm_step_kind
      l_start_kinds l_fixture_kinds l_stage_kinds1 l_stage_kinds2 CYCLE_STAGES_def skip_switch_scan_def)

definition writable_ro_scan :: vscan where
  "writable_ro_scan = \<lparr>v_errors = [], v_starts = [(17, py ''writable-ro'')],
     v_fixtures = [(18, 1, 5120, sha1)],
     v_cycles = [
       (19, 1, py ''control'', t_control), (20, 1, py ''template'', t_template),
       (21, 1, py ''construct'', t_construct), (22, 1, py ''walk'', t_walk),
       (23, 1, py ''switch'', t_switch), (24, 1, py ''content'', t_content)],
     v_completes = [], v_fails = [(25, 1, py ''fault-ro'', py ''expected-pf'')], v_exits = [(26, EXIT_VM)],
     v_n6_at = [16], v_timer_at = [], v_done_at = [],
     v_vm_lines = [17, 18, 19, 20, 21, 22, 23, 24, 25]\<rparr>"

lemma writable_ro_scanned: "vm_scan writable_ro_lines = Inr writable_ro_scan"
  by (simp add: vm_scan_def numbered_def lines_defs init_vscan_def vm_step_marker vm_step_exit vm_step_kind
      l_start_kinds l_fixture_kinds l_stage_kinds1 l_stage_kinds2 CYCLE_STAGES_def writable_ro_scan_def)

section \<open>Fields\<close>

definition g_control :: groups where "g_control = [(10, py ''20''), (9, py ''10''), (8, py ''3096''), (7, py ''1000''), (6, py ''4096''), (5, py ''0000000000001d01''), (4, py ''0000000000000600''), (3, py ''0000000080010033''), (2, py ''0000000000000002''), (1, py ''0000000000300000'')]"
definition g_template :: groups where "g_template = [(2, py ''0000000000310003''), (1, py ''0000000000300000'')]"
definition g_construct :: groups where "g_construct = [(5, py ''0000000000abc000''), (4, py ''6''), (3, py ''16''), (2, py ''4''), (1, py ''26'')]"
definition g_walk :: groups where "g_walk = [(6, py ''0000000000ac0000''), (5, py ''0000000000ab0000''), (4, py ''0000000000ad0000''), (3, py ''0000000000aa0000''), (2, py ''1''), (1, py ''2'')]"
definition g_switch :: groups where "g_switch = [(2, py ''0000000000abc000''), (1, py ''0000000000abc000'')]"
definition g_skipped :: groups where "g_skipped = [(2, py ''0000000000300000''), (1, py ''0000000000abc000'')]"
definition g_content :: groups where "g_content = []"
definition g_restore :: groups where "g_restore = [(2, py ''0000000000300000''), (1, py ''0000000000300000'')]"
definition g_destroy :: groups where "g_destroy = [(5, py ''20''), (4, py ''10''), (3, py ''3096''), (2, py ''1000''), (1, py ''4096'')]"

lemmas g_defs = g_control_def g_template_def g_construct_def g_walk_def g_switch_def g_skipped_def g_content_def g_restore_def g_destroy_def

lemma field_groups:
  "re_fullmatch CONTROL_RE t_control = Some g_control"
  "re_fullmatch TEMPLATE_RE t_template = Some g_template"
  "re_fullmatch CONSTRUCT_RE t_construct = Some g_construct"
  "re_fullmatch WALK_RE t_walk = Some g_walk"
  "re_fullmatch SWITCH_RE t_switch = Some g_switch"
  "re_fullmatch SWITCH_RE t_skipped = Some g_skipped"
  "re_fullmatch CONTENT_RE t_content = Some g_content"
  "re_fullmatch SWITCH_RE t_restore = Some g_restore"
  "re_fullmatch DESTROY_RE t_destroy = Some g_destroy"
  by (simp_all add: rx_eval t_defs g_defs)

lemma fault_groups:
  "re_fullmatch FAULT_RE (t_ro ''1'') = Some [(4, py ''1''), (3, py ''0000000000200100''), (2, py ''0000000040202180''), (1, py ''3'')]"
  "re_fullmatch FAULT_RE (t_nx ''2'') = Some [(4, py ''2''), (3, py ''0000000040204030''), (2, py ''0000000040204030''), (1, py ''11'')]"
  "re_fullmatch FAULT_RE (t_guard ''3'') = Some [(4, py ''3''), (3, py ''0000000000200100''), (2, py ''000000007ffed000''), (1, py ''0'')]"
  "re_fullmatch FAULT_RE (t_top ''4'') = Some [(4, py ''4''), (3, py ''0000000000200100''), (2, py ''000000007fffe000''), (1, py ''0'')]"
  "re_fullmatch FAULT_RE (t_absent ''5'') = Some [(4, py ''5''), (3, py ''0000000000200100''), (2, py ''00000000401ff100''), (1, py ''0'')]"
  "re_fullmatch FAULT_RE (t_ro ''6'') = Some [(4, py ''6''), (3, py ''0000000000200100''), (2, py ''0000000040202180''), (1, py ''3'')]"
  "re_fullmatch FAULT_RE (t_nx ''7'') = Some [(4, py ''7''), (3, py ''0000000040204030''), (2, py ''0000000040204030''), (1, py ''11'')]"
  "re_fullmatch FAULT_RE (t_guard ''8'') = Some [(4, py ''8''), (3, py ''0000000000200100''), (2, py ''000000007ffed000''), (1, py ''0'')]"
  "re_fullmatch FAULT_RE (t_top ''9'') = Some [(4, py ''9''), (3, py ''0000000000200100''), (2, py ''000000007fffe000''), (1, py ''0'')]"
  "re_fullmatch FAULT_RE (t_absent ''10'') = Some [(4, py ''10''), (3, py ''0000000000200100''), (2, py ''00000000401ff100''), (1, py ''0'')]"
  by (simp_all add: rx_eval t_defs)

lemmas hex64_eval = hex64_def int_hex_def from_digits_def digit_value_def

lemma frame_values:
  "frame_ok 0x300000" "frame_ok 0xabc000" "frame_ok 0xaa0000" "frame_ok 0xad0000" "frame_ok 0xab0000" "frame_ok 0xac0000"
  "frame_ok 0x310000"
  by (simp_all add: frame_ok_def PAGE_def PHYS_TOP_def)

section \<open>One cycle of the samples\<close>

definition s_pmm :: "pystr list" where "s_pmm = map (group g_control) [6, 7, 8, 9, 10]"

lemmas mask_defs = CR3_ADDR_def PTE_P_def PTE_U_def PTE_PS_def PTE_AD_def CR0_WP_def CR4_LA57_def CR4_PCIDE_def
  CR4_SMEP_def CR4_SMAP_def EFER_NXE_def RFLAGS_IF_def KERNEL_LO_def KERNEL_HI_def

lemmas expect_defs = EXPECT_IMAGE_def EXPECT_STACK_def EXPECT_TABLES_def EXPECT_OWNED_def EXPECT_IMAGE_PTS_def
  EXPECT_STACK_PTS_def

lemma kernel_root_sample: "hex64 (group g_control 1) AND CR3_ADDR = 0x300000"
  by (simp add: g_control_def hex64_eval CR3_ADDR_def)

lemma control_sample:
  assumes "bl_pmm bl = None \<or> bl_pmm bl = Some s_pmm" "bl_cr3 bl = None \<or> bl_cr3 bl = Some (group g_control 1)"
    "restore = None \<or> restore = Some g_restore" "destroy = None \<or> destroy = Some g_destroy"
  shows "check_control c g_control (Some g_template) restore destroy bl =
    Inr (if c = 1 then bl\<lparr>bl_pmm := Some s_pmm, bl_cr3 := Some (group g_control 1)\<rparr> else bl, [])"
proof -
  have ints: "int_dec (group g_control 6) = Inr 4096" "int_dec (group g_control 7) = Inr 1000"
    "int_dec (group g_control 8) = Inr 3096"
    by (simp_all add: g_control_def conv_defs)
  have hexes: "hex64 (group g_control 2) = 2" "hex64 (group g_control 3) = 0x80010033" "hex64 (group g_control 4) = 0x600"
    "hex64 (group g_control 5) = 0x1d01" "hex64 (group g_template 1) = 0x300000"
    by (simp_all add: g_control_def g_template_def hex64_eval)
  have bits: "(2 :: 64 word) AND RFLAGS_IF = 0" "(0x80010033 :: 64 word) AND CR0_WP \<noteq> 0" "(0x1d01 :: 64 word) AND EFER_NXE \<noteq> 0"
    "(0x600 :: 64 word) AND (CR4_PCIDE OR CR4_LA57 OR CR4_SMEP OR CR4_SMAP) = 0"
    by (simp_all add: mask_defs)
  have same: "groups_of g_control [6, 7, 8, 9, 10] = s_pmm" "groups_of g_destroy [1, 2, 3, 4, 5] = s_pmm"
    "group g_restore 1 = group g_control 1" "group g_restore 2 = group g_control 1"
    by (simp_all add: groups_of_def s_pmm_def g_defs)
  show ?thesis
    using assms
    by (auto simp: check_control_def ints hexes bits same kernel_root_sample frame_values Let_def unless_def
        simp del: One_nat_def)
qed

lemma template_sample:
  assumes "bl_template_root bl = None \<or> bl_template_root bl = Some (group g_template 1)"
    "bl_pdpt bl = None \<or> bl_pdpt bl = Some (0x310003 AND NOT PTE_AD)"
  shows "check_template c g_template (Some 0x300000) bl =
    (if c = 1 then bl\<lparr>bl_template_root := Some (group g_template 1), bl_pdpt := Some (0x310003 AND NOT PTE_AD)\<rparr> else bl, [])"
proof -
  have h: "hex64 (group g_template 2) = 0x310003" by (simp add: g_template_def hex64_eval)
  have bits: "(0x310003 :: 64 word) AND CR3_ADDR = 0x310000" "(0x310003 :: 64 word) AND PTE_P \<noteq> 0"
    "(0x310003 :: 64 word) AND PTE_U = 0" "(0x310003 :: 64 word) AND PTE_PS = 0"
    by (simp_all add: mask_defs)
  show ?thesis
    using assms by (auto simp: check_template_def check_borrowed_pdpt_def h bits frame_values Let_def unless_def
        simp del: One_nat_def)
qed

lemma construct_sample:
  assumes "switch = None \<or> switch = Some g_switch \<or> (switch = Some g_skipped \<and> \<not> require_full)"
  shows "check_construct require_full c g_construct switch (Some 0x300000) = Inr []"
proof -
  have ints: "int_dec (group g_construct 1) = Inr 26" "int_dec (group g_construct 2) = Inr 4"
    "int_dec (group g_construct 3) = Inr 16" "int_dec (group g_construct 4) = Inr 6"
    by (simp_all add: g_construct_def conv_defs)
  have h: "hex64 (group g_construct 5) = 0xabc000" by (simp add: g_construct_def hex64_eval)
  have same: "group g_switch 1 = group g_construct 5" "group g_switch 2 = group g_construct 5"
    "group g_skipped 1 = group g_construct 5"
    by (simp_all add: g_defs)
  show ?thesis
    using assms
    by (auto simp: check_construct_def ints h same frame_values expect_defs Let_def unless_def simp del: One_nat_def)
qed

lemma walk_sample: "check_walk c g_walk (Some g_construct) = []"
proof -
  have leaves: "map hex64 (groups_of g_walk [3, 4, 5, 6]) = [0xaa0000, 0xad0000, 0xab0000, 0xac0000]"
    by (simp add: groups_of_def g_walk_def hex64_eval)
  have h: "hex64 (group g_construct 5) = 0xabc000" by (simp add: g_construct_def hex64_eval)
  have pts: "group g_walk 1 = show_nat 2" "group g_walk 2 = show_nat 1"
    by code_simp+
  show ?thesis by (simp add: check_walk_def leaves h pts frame_values expect_defs unless_def del: One_nat_def)
qed

end
