(* ===== verification/VM_Semantics.thy ===== *)
theory VM_Semantics
  imports VM_Positive
begin

unbundle bit_operations_syntax

text \<open>
  What the cycle semantics establish. An accepted positive run carries, for both cycles, fields
  that parse and agree: with the run's memory statistics and page-table root, with the private
  address space, and with the faults the profile prescribes.
\<close>

section \<open>Fields of a cycle\<close>

definition cycle_key :: "cycle_line \<Rightarrow> (nat \<times> pystr) \<times> pystr" where
  "cycle_key = (\<lambda>(_, c, s, f). ((c, s), f))"

lemma collect_cycles_eq:
  "fst (collect_cycles cs) = map_of (rev (map cycle_key cs)) \<and>
   (snd (collect_cycles cs) = [] \<longleftrightarrow> distinct (map (fst \<circ> cycle_key) cs))"
proof (induction cs rule: rev_induct)
  case Nil
  then show ?case by (simp add: collect_cycles_def)
next
  case (snoc x cs)
  obtain n c s f where x: "x = (n, c, s, f)" by (cases x) auto
  obtain m es where m: "collect_cycles cs = (m, es)" by (cases "collect_cycles cs")
  have step: "collect_cycles (cs @ [x]) = collect_step (m, es) x"
    using m by (simp add: collect_cycles_def)
  have "m (c, s) = None \<longleftrightarrow> (c, s) \<notin> set (map (fst \<circ> cycle_key) cs)"
    using snoc m by (simp add: map_of_eq_None_iff comp_def image_image)
  then show ?case
    using snoc m unfolding step unfolding x by (simp add: collect_step_def cycle_key_def comp_def)
qed

lemma collected:
  assumes "collect_cycles cs = (by_cycle, [])"
  shows "by_cycle = map_of (map cycle_key cs)"
proof -
  have "distinct (map fst (map cycle_key cs))" using collect_cycles_eq [of cs] assms by (simp add: comp_def)
  then have "map_of (rev (map cycle_key cs)) = map_of (map cycle_key cs)"
    by (simp add: map_of_inject_set rev_map [symmetric])
  then show ?thesis using collect_cycles_eq [of cs] assms by simp
qed

lemma seen_present:
  assumes "collect_cycles cs = (by_cycle, [])" "s \<in> set (seen_stages c cs)"
  shows "\<exists>txt. by_cycle (c, s) = Some txt"
proof -
  from assms(2) obtain n f where "(n, c, s, f) \<in> set cs" by (auto simp: seen_stages_def)
  then have "(c, s) \<in> fst ` set (map cycle_key cs)" by (force simp: cycle_key_def)
  then show ?thesis unfolding collected [OF assms(1)] by (metis map_of_eq_None_iff not_None_eq)
qed

section \<open>Faults\<close>

text \<open>One fault observation agrees with the profile and carries generation \<open>gen\<close>.\<close>

definition fault_as_expected :: "pystr \<Rightarrow> pystr \<Rightarrow> nat \<Rightarrow> nat \<Rightarrow> bool" where
  "fault_as_expected txt stage want gen \<longleftrightarrow>
    (\<exists>g. re_fullmatch FAULT_RE txt = Some g \<and> int_dec (group g 4) = Inr gen \<and> gen \<noteq> 0 \<and>
       int_hex (group g 1) = want \<and> FAULT_CR2 stage = Some (hex64 (group g 2)) \<and>
       (if stage = py ''fault-nx'' then FAULT_CR2 stage = Some (hex64 (group g 3))
        else KERNEL_LO \<le> hex64 (group g 3) \<and> hex64 (group g 3) < KERNEL_HI))"

lemma check_fault_clean:
  assumes "check_fault c m (bl, errs) (stage, want) = Inr (bl', [])" "m (c, stage) = Some txt"
  shows "errs = [] \<and> (\<exists>gen. fault_as_expected txt stage want gen \<and>
    bl' = bl\<lparr>bl_generations := bl_generations bl @ [gen]\<rparr>)"
proof (cases "re_fullmatch FAULT_RE txt")
  case None
  with assms show ?thesis by (simp add: check_fault_def)
next
  case (Some g)
  with assms obtain gen where gen: "int_dec (group g 4) = Inr gen"
    by (auto simp: check_fault_def exc_simps)
  with Some assms show ?thesis
    by (auto simp: check_fault_def fault_as_expected_def Let_def split: if_splits)
qed

lemma check_faults_clean:
  assumes "efold (check_fault c m) (bl, errs) ps = Inr (bl', [])" "\<forall>p\<in>set ps. m (c, fst p) \<noteq> None"
  shows "errs = [] \<and> (\<exists>gens. list_all2 (\<lambda>(stage, want). fault_as_expected (the (m (c, stage))) stage want) ps gens \<and>
    bl' = bl\<lparr>bl_generations := bl_generations bl @ gens\<rparr>)"
  using assms
proof (induction ps arbitrary: bl errs)
  case (Cons p ps)
  obtain stage want where p: "p = (stage, want)" by (cases p)
  from Cons.prems p obtain ft where ft: "m (c, stage) = Some ft" by auto
  from Cons.prems p obtain bl1 errs1 where s: "check_fault c m (bl, errs) (stage, want) = Inr (bl1, errs1)"
    "efold (check_fault c m) (bl1, errs1) ps = Inr (bl', [])"
    by (auto simp: exc_simps)
  from Cons.IH [OF s(2)] Cons.prems(2) obtain gens where gens: "errs1 = []"
    "list_all2 (\<lambda>(stage, want). fault_as_expected (the (m (c, stage))) stage want) ps gens"
    "bl' = bl1\<lparr>bl_generations := bl_generations bl1 @ gens\<rparr>" by auto
  from check_fault_clean [OF s(1) [unfolded gens(1)] ft] obtain gen where gen: "errs = []"
    "fault_as_expected ft stage want gen" "bl1 = bl\<lparr>bl_generations := bl_generations bl @ [gen]\<rparr>" by auto
  with gens ft p show ?case
    by (intro conjI exI [of _ "gen # gens"]) auto
qed (auto intro!: exI [of _ "[]"])

section \<open>One cycle\<close>

text \<open>The groups of a complete cycle's fields.\<close>

record parsed_cycle =
  p_control :: groups
  p_template :: groups
  p_construct :: groups
  p_walk :: groups
  p_switch :: groups
  p_restore :: groups
  p_destroy :: groups

definition parses :: "fields_map \<Rightarrow> nat \<Rightarrow> parsed_cycle \<Rightarrow> bool" where
  "parses m c p \<longleftrightarrow>
    (let parse = (\<lambda>stage re g. \<exists>txt. m (c, py stage) = Some txt \<and> re_fullmatch re txt = Some g) in
     parse ''control'' CONTROL_RE (p_control p) \<and> parse ''template'' TEMPLATE_RE (p_template p) \<and>
     parse ''construct'' CONSTRUCT_RE (p_construct p) \<and> parse ''walk'' WALK_RE (p_walk p) \<and>
     parse ''switch'' SWITCH_RE (p_switch p) \<and> parse ''restore'' SWITCH_RE (p_restore p) \<and>
     parse ''destroy'' DESTROY_RE (p_destroy p) \<and>
     (\<exists>txt. m (c, py ''content'') = Some txt \<and> re_fullmatch CONTENT_RE txt \<noteq> None))"

lemma parse_stage_clean:
  assumes "parse_stage needed c stage re m = (g, [])" "m (c, py stage) = Some txt"
  shows "\<exists>h. g = Some h \<and> re_fullmatch re txt = Some h"
  using assms by (cases "re_fullmatch re txt") (auto simp: parse_stage_def)

definition kernel_root :: "parsed_cycle \<Rightarrow> 64 word" where
  "kernel_root p = hex64 (group (p_control p) 1) AND CR3_ADDR"

lemma check_cycle_full:
  assumes "check_cycle True m cs (bl, errs) c = Inr (bl', [])" "collect_cycles cs = (m, [])"
  obtains p bl1 bl2 e where "errs = []" "seen_stages c cs = CYCLE_STAGES" "parses m c p"
    "check_control c (p_control p) (Some (p_template p)) (Some (p_restore p)) (Some (p_destroy p)) bl = Inr (bl1, [])"
    "check_template c (p_template p) (Some (kernel_root p)) bl1 = (bl2, [])"
    "check_construct True c (p_construct p) (Some (p_switch p)) (Some (kernel_root p)) = Inr []"
    "check_walk c (p_walk p) (Some (p_construct p)) = []"
    "check_faults c m bl2 = Inr (bl', [])"
proof -
  have seen: "seen_stages c cs = CYCLE_STAGES"
  proof (rule ccontr)
    assume "seen_stages c cs \<noteq> CYCLE_STAGES"
    with assms(1) show False by (simp add: check_cycle_def)
  qed
  have there: "\<exists>txt. m (c, py stage) = Some txt" if "py stage \<in> set CYCLE_STAGES" for stage
    using seen_present [OF assms(2)] that seen by metis
  obtain control e1 construct e2 walk e3 switch e4 template e5 content e6 restore e7 destroy e8 where
    ps: "parse_stage True c ''control'' CONTROL_RE m = (control, e1)"
    "parse_stage True c ''construct'' CONSTRUCT_RE m = (construct, e2)"
    "parse_stage True c ''walk'' WALK_RE m = (walk, e3)"
    "parse_stage True c ''switch'' SWITCH_RE m = (switch, e4)"
    "parse_stage True c ''template'' TEMPLATE_RE m = (template, e5)"
    "parse_stage False c ''content'' CONTENT_RE m = (content, e6)"
    "parse_stage False c ''restore'' SWITCH_RE m = (restore, e7)"
    "parse_stage False c ''destroy'' DESTROY_RE m = (destroy, e8)"
    by (metis surj_pair)
  let ?root = "map_option (\<lambda>c. hex64 (group c 1) AND CR3_ADDR) control"
  obtain bl1 c1 where s1:
    "(case control of None \<Rightarrow> Inr (bl, []) | Some g \<Rightarrow> check_control c g template restore destroy bl) = Inr (bl1, c1)"
    using assms(1) unfolding check_cycle_def prod.case ps Let_def seen
    by (auto simp only: exc_simps simp_thms if_False)
  obtain bl2 c2 where s2:
    "(case template of None \<Rightarrow> (bl1, []) | Some t \<Rightarrow> check_template c t ?root bl1) = (bl2, c2)"
    by (metis surj_pair)
  obtain c3 bl3 c5 where steps: "bl3 = bl'"
    "(case construct of None \<Rightarrow> Inr [] | Some g \<Rightarrow> check_construct True c g switch ?root) = Inr c3"
    "check_faults c m bl2 = Inr (bl3, c5)"
    and all: "errs @ e1 @ e2 @ e3 @ e4 @ e5 @ e6 @ e7 @ e8 @ c1 @ c2 @ c3 @
      (case walk of None \<Rightarrow> [] | Some w \<Rightarrow> check_walk c w construct) @ c5 = []"
    using assms(1) unfolding check_cycle_def prod.case ps Let_def seen
    by (auto simp: s1 s2 exc_simps)
  have stages: "py ''control'' \<in> set CYCLE_STAGES" "py ''construct'' \<in> set CYCLE_STAGES" "py ''walk'' \<in> set CYCLE_STAGES"
    "py ''switch'' \<in> set CYCLE_STAGES" "py ''template'' \<in> set CYCLE_STAGES" "py ''content'' \<in> set CYCLE_STAGES"
    "py ''restore'' \<in> set CYCLE_STAGES" "py ''destroy'' \<in> set CYCLE_STAGES"
    by (simp_all add: CYCLE_STAGES_def)
  have nil: "e1 = []" "e2 = []" "e3 = []" "e4 = []" "e5 = []" "e6 = []" "e7 = []" "e8 = []" using all by auto
  note ok = parse_stage_clean [OF ps(1) [unfolded nil]] parse_stage_clean [OF ps(2) [unfolded nil]]
    parse_stage_clean [OF ps(3) [unfolded nil]] parse_stage_clean [OF ps(4) [unfolded nil]]
    parse_stage_clean [OF ps(5) [unfolded nil]] parse_stage_clean [OF ps(6) [unfolded nil]]
    parse_stage_clean [OF ps(7) [unfolded nil]] parse_stage_clean [OF ps(8) [unfolded nil]]
  obtain f1 f2 f3 f4 f5 f6 f7 f8 where f: "m (c, py ''control'') = Some f1" "m (c, py ''construct'') = Some f2"
    "m (c, py ''walk'') = Some f3" "m (c, py ''switch'') = Some f4" "m (c, py ''template'') = Some f5"
    "m (c, py ''content'') = Some f6" "m (c, py ''restore'') = Some f7" "m (c, py ''destroy'') = Some f8"
    using there [OF stages(1)] there [OF stages(2)] there [OF stages(3)] there [OF stages(4)]
      there [OF stages(5)] there [OF stages(6)] there [OF stages(7)] there [OF stages(8)] by metis
  obtain g where g: "control = Some g" "re_fullmatch CONTROL_RE f1 = Some g" using ok(1) [OF f(1)] by metis
  obtain k where k: "construct = Some k" "re_fullmatch CONSTRUCT_RE f2 = Some k" using ok(2) [OF f(2)] by metis
  obtain w where w: "walk = Some w" "re_fullmatch WALK_RE f3 = Some w" using ok(3) [OF f(3)] by metis
  obtain s where s: "switch = Some s" "re_fullmatch SWITCH_RE f4 = Some s" using ok(4) [OF f(4)] by metis
  obtain t where t: "template = Some t" "re_fullmatch TEMPLATE_RE f5 = Some t" using ok(5) [OF f(5)] by metis
  obtain cont where cont: "re_fullmatch CONTENT_RE f6 = Some cont" using ok(6) [OF f(6)] by metis
  obtain r where r: "restore = Some r" "re_fullmatch SWITCH_RE f7 = Some r" using ok(7) [OF f(7)] by metis
  obtain d where d: "destroy = Some d" "re_fullmatch DESTROY_RE f8 = Some d" using ok(8) [OF f(8)] by metis
  let ?p = "\<lparr>p_control = g, p_template = t, p_construct = k, p_walk = w, p_switch = s, p_restore = r, p_destroy = d\<rparr>"
  have "parses m c ?p"
    unfolding parses_def Let_def parsed_cycle.simps
    using f g(2) k(2) w(2) s(2) t(2) cont r(2) d(2) by simp
  with that [of ?p bl1 bl2] seen s1 s2 steps all show thesis
    unfolding g(1) k(1) w(1) s(1) t(1) r(1) d(1) by (simp add: kernel_root_def)
qed

lemmas expect_consts = EXPECT_IMAGE_def EXPECT_STACK_def EXPECT_TABLES_def EXPECT_OWNED_def

section \<open>Both cycles\<close>

lemma increasing_sorted: "increasing xs \<longleftrightarrow> sorted_wrt (<) xs"
proof (induction xs rule: increasing.induct)
  case (1 a b xs)
  then show ?case by (auto intro: less_trans)
qed auto

lemma check_control_clean:
  assumes "check_control c g (Some t) (Some r) (Some d) bl = Inr (bl', [])"
  shows "hex64 (group t 1) = hex64 (group g 1) AND CR3_ADDR" "frame_ok (hex64 (group g 1) AND CR3_ADDR)"
    "group r 1 = group g 1" "group r 2 = group g 1"
    "groups_of d [1, 2, 3, 4, 5] = groups_of g [6, 7, 8, 9, 10]"
    "bl' = (if c = 1 then bl\<lparr>bl_pmm := Some (groups_of g [6, 7, 8, 9, 10]), bl_cr3 := Some (group g 1)\<rparr> else bl)"
    "c \<noteq> 1 \<Longrightarrow> bl_pmm bl = Some pmm \<Longrightarrow> groups_of g [6, 7, 8, 9, 10] = pmm"
    "c \<noteq> 1 \<Longrightarrow> bl_cr3 bl = Some cr3 \<Longrightarrow> group g 1 = cr3"
    "hex64 (group g 2) AND RFLAGS_IF = 0" "hex64 (group g 3) AND CR0_WP \<noteq> 0" "hex64 (group g 5) AND EFER_NXE \<noteq> 0"
proof -
  obtain total free used where "int_dec (group g 6) = Inr total" "int_dec (group g 7) = Inr free"
    "int_dec (group g 8) = Inr used"
    using assms by (auto simp: check_control_def exc_simps)
  note clean = assms [unfolded check_control_def this ebind_simps Let_def option.case sum.inject prod.inject
      append_is_Nil_conv unless_Nil]
  show "hex64 (group t 1) = hex64 (group g 1) AND CR3_ADDR" "frame_ok (hex64 (group g 1) AND CR3_ADDR)"
    "group r 1 = group g 1" "group r 2 = group g 1"
    "groups_of d [1, 2, 3, 4, 5] = groups_of g [6, 7, 8, 9, 10]"
    "bl' = (if c = 1 then bl\<lparr>bl_pmm := Some (groups_of g [6, 7, 8, 9, 10]), bl_cr3 := Some (group g 1)\<rparr> else bl)"
    "hex64 (group g 2) AND RFLAGS_IF = 0" "hex64 (group g 3) AND CR0_WP \<noteq> 0" "hex64 (group g 5) AND EFER_NXE \<noteq> 0"
    using clean by metis+
  show "groups_of g [6, 7, 8, 9, 10] = pmm" if "c \<noteq> 1" "bl_pmm bl = Some pmm"
    using clean that by auto
  show "group g 1 = cr3" if "c \<noteq> 1" "bl_cr3 bl = Some cr3"
    using clean that by auto
qed

lemma check_template_clean:
  assumes "check_template c t (Some root) bl = (bl', [])"
  defines "e \<equiv> hex64 (group t 2)"
  shows "e AND PTE_P \<noteq> 0" "e AND PTE_U = 0" "e AND PTE_PS = 0" "frame_ok (e AND CR3_ADDR)" "e AND CR3_ADDR \<noteq> root"
    "bl' = (if c = 1 then bl\<lparr>bl_template_root := Some (group t 1), bl_pdpt := Some (e AND NOT PTE_AD)\<rparr> else bl)"
    "c \<noteq> 1 \<Longrightarrow> bl_template_root bl = Some x \<Longrightarrow> group t 1 = x"
    "c \<noteq> 1 \<Longrightarrow> bl_pdpt bl = Some y \<Longrightarrow> e AND NOT PTE_AD = y"
  using assms by (auto simp: check_template_def check_borrowed_pdpt_def Let_def split: if_splits)

lemma check_construct_clean:
  assumes "check_construct True c k (Some s) (Some root) = Inr []"
  shows "int_dec (group k 1) = Inr EXPECT_OWNED" "int_dec (group k 2) = Inr EXPECT_IMAGE"
    "int_dec (group k 3) = Inr EXPECT_STACK" "int_dec (group k 4) = Inr EXPECT_TABLES"
    "frame_ok (hex64 (group k 5))" "hex64 (group k 5) \<noteq> root" "group s 1 = group k 5" "group s 2 = group k 5"
proof -
  obtain a b d e where ints: "int_dec (group k 1) = Inr a" "int_dec (group k 2) = Inr b"
    "int_dec (group k 3) = Inr d" "int_dec (group k 4) = Inr e"
    using assms by (auto simp: check_construct_def exc_simps simp del: One_nat_def)
  show "int_dec (group k 1) = Inr EXPECT_OWNED" "int_dec (group k 2) = Inr EXPECT_IMAGE"
    "int_dec (group k 3) = Inr EXPECT_STACK" "int_dec (group k 4) = Inr EXPECT_TABLES"
    "frame_ok (hex64 (group k 5))" "hex64 (group k 5) \<noteq> root" "group s 1 = group k 5" "group s 2 = group k 5"
    using assms ints by (auto simp: check_construct_def Let_def simp del: One_nat_def)
qed

definition leaf_frames :: "groups \<Rightarrow> 64 word list" where
  "leaf_frames w = map hex64 (groups_of w [3, 4, 5, 6])"

lemma check_walk_clean:
  assumes "check_walk c w (Some k) = []"
  shows "distinct (leaf_frames w)" "list_all frame_ok (leaf_frames w)" "hex64 (group k 5) \<notin> set (leaf_frames w)"
proof -
  have "card (set (leaf_frames w)) = 4" "length (leaf_frames w) = 4"
    using assms by (simp_all add: check_walk_def leaf_frames_def groups_of_def Let_def)
  then show "distinct (leaf_frames w)" by (simp add: card_distinct)
  show "list_all frame_ok (leaf_frames w)" "hex64 (group k 5) \<notin> set (leaf_frames w)"
    using assms by (auto simp: check_walk_def leaf_frames_def Let_def)
qed

lemma check_cycle_errors:
  "check_cycle True m cs (bl, errs) c = Inr (bl', []) \<Longrightarrow> errs = []"
  by (auto simp: check_cycle_def Let_def exc_simps case_prod_unfold split: if_splits)

lemma semantics_full:
  assumes "check_cycle_semantics fs cs True = Inr []"
  obtains m bl bl' where "collect_cycles cs = (m, [])" "check_fixtures True fs = []"
    "check_cycle True m cs (init_baseline, []) 1 = Inr (bl, [])" "check_cycle True m cs (bl, []) 2 = Inr (bl', [])"
    "sorted_wrt (<) (bl_generations bl')"
proof -
  obtain m e1 where m: "collect_cycles cs = (m, e1)" by (cases "collect_cycles cs")
  obtain st1 st2 where s: "check_cycle True m cs (init_baseline, []) 1 = Inr st1"
    "check_cycle True m cs st1 2 = Inr st2"
    and all: "e1 @ check_fixtures True fs @ snd st2 @
      unless (increasing (bl_generations (fst st2))) (py ''fault generations are not strictly increasing across cycles'') = []"
    using assms unfolding check_cycle_semantics_def m
    by (auto simp: exc_simps simp del: append_is_Nil_conv append.simps unless_Nil)
  obtain bl e bl' e' where st: "st1 = (bl, e)" "st2 = (bl', e')" by (metis surj_pair)
  from all st have "e1 = []" "check_fixtures True fs = []" "e' = []" "increasing (bl_generations bl')" by auto
  with s st m check_cycle_errors [of m cs bl e 2 bl'] that [of m bl bl'] show thesis
    by (simp add: increasing_sorted)
qed

section \<open>What the two cycles say\<close>

text \<open>The PMM statistics and the page-table root a cycle starts from are what it leaves behind.\<close>

definition restored :: "pystr list \<Rightarrow> pystr \<Rightarrow> parsed_cycle \<Rightarrow> bool" where
  "restored pmm cr3 p \<longleftrightarrow>
     groups_of (p_control p) [6, 7, 8, 9, 10] = pmm \<and> groups_of (p_destroy p) [1, 2, 3, 4, 5] = pmm \<and>
     group (p_control p) 1 = cr3 \<and> group (p_restore p) 1 = cr3 \<and> group (p_restore p) 2 = cr3"

text \<open>The private address space of a cycle: budgets, root, leaves, and the borrowed kernel entry.\<close>

definition isolated :: "64 word \<Rightarrow> parsed_cycle \<Rightarrow> bool" where
  "isolated pdpt p \<longleftrightarrow>
     (let root = hex64 (group (p_construct p) 5); leaves = leaf_frames (p_walk p);
          entry = hex64 (group (p_template p) 2) in
      map (\<lambda>i. int_dec (group (p_construct p) i)) [1, 2, 3, 4] = map Inr [26, 4, 16, 6] \<and>
      group (p_switch p) 1 = group (p_construct p) 5 \<and> group (p_switch p) 2 = group (p_construct p) 5 \<and>
      distinct (root # leaves) \<and> list_all frame_ok (kernel_root p # root # leaves) \<and> root \<noteq> kernel_root p \<and>
      entry AND PTE_P \<noteq> 0 \<and> entry AND PTE_U = 0 \<and> entry AND PTE_PS = 0 \<and>
      frame_ok (entry AND CR3_ADDR) \<and> entry AND CR3_ADDR \<noteq> kernel_root p \<and> entry AND NOT PTE_AD = pdpt)"

definition faults_expected :: "fields_map \<Rightarrow> nat \<Rightarrow> nat list \<Rightarrow> bool" where
  "faults_expected m c gens \<longleftrightarrow>
     list_all2 (\<lambda>(stage, want). fault_as_expected (the (m (c, stage))) stage want) PFEC gens"

lemma faults_present:
  assumes "collect_cycles cs = (m, [])" "seen_stages c cs = CYCLE_STAGES"
  shows "\<forall>x\<in>set PFEC. m (c, fst x) \<noteq> None"
proof
  fix x assume "x \<in> set PFEC"
  then have "fst x \<in> set CYCLE_STAGES" by (auto simp: PFEC_def CYCLE_STAGES_def)
  with seen_present [OF assms(1)] assms(2) show "m (c, fst x) \<noteq> None" by (metis option.distinct(1))
qed

lemma check_cycle_said:
  assumes "check_cycle True m cs (bl, []) c = Inr (bl', [])" "collect_cycles cs = (m, [])"
  obtains p pmm cr3 pdpt gens where "parses m c p" "restored pmm cr3 p" "isolated pdpt p" "faults_expected m c gens"
    "bl_generations bl' = bl_generations bl @ gens"
    "c = 1 \<Longrightarrow> bl_pmm bl' = Some pmm \<and> bl_cr3 bl' = Some cr3 \<and> bl_pdpt bl' = Some pdpt"
    "c \<noteq> 1 \<Longrightarrow> (\<forall>x. bl_pmm bl = Some x \<longrightarrow> x = pmm) \<and> (\<forall>x. bl_cr3 bl = Some x \<longrightarrow> x = cr3) \<and>
       (\<forall>x. bl_pdpt bl = Some x \<longrightarrow> x = pdpt)"
proof -
  obtain p bl1 bl2 e where p: "seen_stages c cs = CYCLE_STAGES" "parses m c p"
    and ctl: "check_control c (p_control p) (Some (p_template p)) (Some (p_restore p)) (Some (p_destroy p)) bl = Inr (bl1, [])"
    and tpl: "check_template c (p_template p) (Some (kernel_root p)) bl1 = (bl2, [])"
    and con: "check_construct True c (p_construct p) (Some (p_switch p)) (Some (kernel_root p)) = Inr []"
    and wlk: "check_walk c (p_walk p) (Some (p_construct p)) = []"
    and flt: "check_faults c m bl2 = Inr (bl', [])"
    by (rule check_cycle_full [OF assms])
  obtain gens where gens: "faults_expected m c gens" "bl' = bl2\<lparr>bl_generations := bl_generations bl2 @ gens\<rparr>"
    using check_faults_clean [OF flt [unfolded check_faults_def] faults_present [OF assms(2) p(1)]]
    by (auto simp: faults_expected_def)
  note ctl' = check_control_clean [OF ctl] and tpl' = check_template_clean [OF tpl]
    and con' = check_construct_clean [OF con] and wlk' = check_walk_clean [OF wlk]
  let ?pmm = "groups_of (p_control p) [6, 7, 8, 9, 10]" and ?cr3 = "group (p_control p) 1"
  let ?pdpt = "hex64 (group (p_template p) 2) AND NOT PTE_AD"
  show thesis
  proof (rule that [of p ?pmm ?cr3 ?pdpt gens])
    show "restored ?pmm ?cr3 p" using ctl'(3-5) by (simp add: restored_def)
    show "isolated ?pdpt p"
      using ctl'(2) tpl'(1-5) con' wlk'
      by (simp add: isolated_def Let_def kernel_root_def expect_consts)
    show "bl_generations bl' = bl_generations bl @ gens"
      unfolding gens(2) tpl'(6) ctl'(6) by simp
    show "bl_pmm bl' = Some ?pmm \<and> bl_cr3 bl' = Some ?cr3 \<and> bl_pdpt bl' = Some ?pdpt" if "c = 1"
      unfolding gens(2) tpl'(6) ctl'(6) using that by simp
    have "bl_pdpt bl1 = bl_pdpt bl" if "c \<noteq> 1" unfolding ctl'(6) using that by simp
    then show "(\<forall>x. bl_pmm bl = Some x \<longrightarrow> x = ?pmm) \<and> (\<forall>x. bl_cr3 bl = Some x \<longrightarrow> x = ?cr3) \<and>
       (\<forall>x. bl_pdpt bl = Some x \<longrightarrow> x = ?pdpt)" if "c \<noteq> 1"
      using that ctl'(7,8) tpl'(8) by metis
  qed (use p gens in simp_all)
qed

text \<open>The fields of the report, by cycle and stage.\<close>

definition report_field :: "vm_report \<Rightarrow> fields_map" where
  "report_field rep = map_of (map (\<lambda>(c, s, f). ((c, s), f)) (vr_cycles rep))"

lemma positive_semantics:
  assumes "parse_vm_serial repr serial POSITIVE = Inr rep" "vm_errors rep = []"
  shows "\<exists>st :: vscan. check_cycle_semantics (v_fixtures st) (v_cycles st) True = Inr [] \<and>
    vr_fixtures rep = map (\<lambda>(_, c, n, h). (c, n, h)) (v_fixtures st) \<and>
    vr_cycles rep = map (\<lambda>(_, c, s, f). (c, s, f)) (v_cycles st)"
  by (rule positive_accepted [OF assms]) (intro exI conjI; assumption)

lemma accepted_cycles:
  assumes "parse_vm_serial repr serial POSITIVE = Inr rep" "vm_errors rep = []"
  obtains p1 p2 pmm cr3 pdpt gens1 gens2 where
    "parses (report_field rep) 1 p1" "parses (report_field rep) 2 p2"
    "restored pmm cr3 p1" "restored pmm cr3 p2" "isolated pdpt p1" "isolated pdpt p2"
    "faults_expected (report_field rep) 1 gens1" "faults_expected (report_field rep) 2 gens2"
    "sorted_wrt (<) (gens1 @ gens2)"
    "vr_fixtures rep = [(1, FIXTURE_LEN, the (FIXTURE_SHA256 1)), (2, FIXTURE_LEN, the (FIXTURE_SHA256 2))]"
proof -
  obtain st :: vscan where sem: "check_cycle_semantics (v_fixtures st) (v_cycles st) True = Inr []"
    and fx: "vr_fixtures rep = map (\<lambda>(_, c, n, h). (c, n, h)) (v_fixtures st)"
    and cs: "vr_cycles rep = map (\<lambda>(_, c, s, f). (c, s, f)) (v_cycles st)"
    using positive_semantics [OF assms] by blast
  obtain m bl bl' where m: "collect_cycles (v_cycles st) = (m, [])" "check_fixtures True (v_fixtures st) = []"
    and c1: "check_cycle True m (v_cycles st) (init_baseline, []) 1 = Inr (bl, [])"
    and c2: "check_cycle True m (v_cycles st) (bl, []) 2 = Inr (bl', [])"
    and inc: "sorted_wrt (<) (bl_generations bl')"
    by (rule semantics_full [OF sem])
  have rf: "report_field rep = m"
    unfolding collected [OF m(1)] report_field_def cs by (simp add: comp_def case_prod_unfold cycle_key_def)
  have fixtures: "vr_fixtures rep = [(1, FIXTURE_LEN, the (FIXTURE_SHA256 1)), (2, FIXTURE_LEN, the (FIXTURE_SHA256 2))]"
  proof -
    have cyc: "map (\<lambda>(_, c, _, _). c) (v_fixtures st) = [1, 2]"
      and each: "\<forall>(n, c, len, h)\<in>set (v_fixtures st). len = FIXTURE_LEN \<and> FIXTURE_SHA256 c = Some h"
      using m(2) by (auto simp: check_fixtures_def)
    obtain x y where xy: "v_fixtures st = [x, y]" using cyc by (auto simp: map_eq_Cons_conv)
    obtain n1 l1 h1 where x: "x = (n1, 1, l1, h1)" using cyc xy by (cases x) auto
    obtain n2 l2 h2 where y: "y = (n2, 2, l2, h2)" using cyc xy by (cases y) auto
    show ?thesis using each by (simp add: fx xy x y)
  qed
  obtain p1 pmm cr3 pdpt gens1 where 1: "parses m 1 p1" "restored pmm cr3 p1" "isolated pdpt p1"
    "faults_expected m 1 gens1" "bl_generations bl = bl_generations init_baseline @ gens1"
    "bl_pmm bl = Some pmm \<and> bl_cr3 bl = Some cr3 \<and> bl_pdpt bl = Some pdpt"
    by (rule check_cycle_said [OF c1 m(1)]) simp
  obtain p2 pmm2 cr32 pdpt2 gens2 where 2: "parses m 2 p2" "restored pmm2 cr32 p2" "isolated pdpt2 p2"
    "faults_expected m 2 gens2" "bl_generations bl' = bl_generations bl @ gens2"
    "(\<forall>x. bl_pmm bl = Some x \<longrightarrow> x = pmm2) \<and> (\<forall>x. bl_cr3 bl = Some x \<longrightarrow> x = cr32) \<and>
       (\<forall>x. bl_pdpt bl = Some x \<longrightarrow> x = pdpt2)"
    by (rule check_cycle_said [OF c2 m(1)]) simp
  have eq: "pmm2 = pmm" "cr32 = cr3" "pdpt2 = pdpt" using 1(6) 2(6) by auto
  have "sorted_wrt (<) (gens1 @ gens2)" using inc 1(5) 2(5) by (simp add: init_baseline_def)
  then show thesis
    using 1(1-4) 2(1-4) fixtures unfolding eq rf [symmetric]
    by (intro that [of p1 p2 pmm cr3 pdpt gens1 gens2])
qed

section \<open>Properties\<close>

text \<open>
  C18: an accepted positive run leaks nothing. In both cycles the fields parse, the memory
  statistics before construction and after destruction are the same in both cycles, and the
  full CR3 is the same at the start of both cycles and is what \<open>restore\<close> expected and observed.
\<close>

theorem positive_run_restores:
  assumes "parse_vm_serial repr serial POSITIVE = Inr rep" "vm_errors rep = []"
  shows "\<exists>pmm cr3 p1 p2. parses (report_field rep) 1 p1 \<and> parses (report_field rep) 2 p2 \<and>
    restored pmm cr3 p1 \<and> restored pmm cr3 p2"
  by (rule accepted_cycles [OF assms]) blast

text \<open>
  C17: an accepted positive run ran on a private address space. In both cycles the page budget is
  26 = 4 + 16 + 6, the observed CR3 is the constructed root, the root and the four leaf frames
  are pairwise distinct page frames below the physical top, the root is not the kernel's, and
  the borrowed PDPT entry is present, supervisor-only, not huge, not the kernel root, and equal
  in both cycles up to the accessed and dirty bits.
\<close>

theorem positive_run_isolated:
  assumes "parse_vm_serial repr serial POSITIVE = Inr rep" "vm_errors rep = []"
  shows "\<exists>pdpt p1 p2. parses (report_field rep) 1 p1 \<and> parses (report_field rep) 2 p2 \<and>
    isolated pdpt p1 \<and> isolated pdpt p2"
  by (rule accepted_cycles [OF assms]) blast

text \<open>
  C19: an accepted positive run took the ten faults of the profile. For each cycle and each fault
  stage the error code, the faulting address and the instruction pointer are the prescribed
  ones, and the ten fault generations increase strictly across both cycles.
\<close>

theorem positive_run_faults:
  assumes "parse_vm_serial repr serial POSITIVE = Inr rep" "vm_errors rep = []"
  shows "\<exists>gens1 gens2. faults_expected (report_field rep) 1 gens1 \<and> faults_expected (report_field rep) 2 gens2 \<and>
    length (gens1 @ gens2) = 10 \<and> sorted_wrt (<) (gens1 @ gens2)"
proof -
  obtain gens1 gens2 where g: "faults_expected (report_field rep) 1 gens1" "faults_expected (report_field rep) 2 gens2"
    "sorted_wrt (<) (gens1 @ gens2)"
    by (rule accepted_cycles [OF assms])
  have "length PFEC = length gens1" "length PFEC = length gens2"
    using g(1,2) unfolding faults_expected_def by (auto dest: list_all2_lengthD)
  with g show ?thesis by (intro exI [of _ gens1] exI [of _ gens2]) (simp add: PFEC_def)
qed

end
