(* ===== verification/VM_Accept.thy ===== *)
theory VM_Accept
  imports VM_Runs VM_Semantics
begin

unbundle bit_operations_syntax

text \<open>The three sample transcripts are accepted, each in its own mode.\<close>

section \<open>Positive\<close>

definition sample_fields :: "fields_map \<Rightarrow> nat \<Rightarrow> bool" where
  "sample_fields m c \<longleftrightarrow>
     m (c, py ''control'') = Some t_control \<and> m (c, py ''template'') = Some t_template \<and>
     m (c, py ''construct'') = Some t_construct \<and> m (c, py ''walk'') = Some t_walk \<and>
     m (c, py ''switch'') = Some t_switch \<and> m (c, py ''content'') = Some t_content \<and>
     m (c, py ''restore'') = Some t_restore \<and> m (c, py ''destroy'') = Some t_destroy"

definition sample_baseline :: "nat list \<Rightarrow> baseline" where
  "sample_baseline gens = \<lparr>bl_pmm = Some s_pmm, bl_cr3 = Some (group g_control 1),
     bl_template_root = Some (group g_template 1), bl_pdpt = Some (0x310003 AND NOT PTE_AD), bl_generations = gens\<rparr>"

lemma sample_cycle:
  assumes "seen_stages c cs = CYCLE_STAGES" "sample_fields m c"
    "bl = (if c = 1 then init_baseline else sample_baseline gens)"
    "check_faults c m (sample_baseline (bl_generations bl)) = Inr (bl', [])"
  shows "check_cycle True m cs (bl, []) c = Inr (bl', [])"
proof -
  have ps: "parse_stage True c ''control'' CONTROL_RE m = (Some g_control, [])"
    "parse_stage True c ''construct'' CONSTRUCT_RE m = (Some g_construct, [])"
    "parse_stage True c ''walk'' WALK_RE m = (Some g_walk, [])"
    "parse_stage True c ''switch'' SWITCH_RE m = (Some g_switch, [])"
    "parse_stage True c ''template'' TEMPLATE_RE m = (Some g_template, [])"
    "parse_stage False c ''content'' CONTENT_RE m = (Some g_content, [])"
    "parse_stage False c ''restore'' SWITCH_RE m = (Some g_restore, [])"
    "parse_stage False c ''destroy'' DESTROY_RE m = (Some g_destroy, [])"
    using assms(2) unfolding sample_fields_def parse_stage_def by (simp_all only: field_groups option.case)
  let ?bl1 = "if c = 1 then bl\<lparr>bl_pmm := Some s_pmm, bl_cr3 := Some (group g_control 1)\<rparr> else bl"
  have ctl: "check_control c g_control (Some g_template) (Some g_restore) (Some g_destroy) bl = Inr (?bl1, [])"
    by (rule control_sample) (use assms(3) in \<open>simp_all add: init_baseline_def sample_baseline_def\<close>)
  have tpl: "check_template c g_template (Some 0x300000) ?bl1 = (sample_baseline (bl_generations bl), [])"
    using assms(3) by (subst template_sample) (simp_all add: init_baseline_def sample_baseline_def)
  have con: "check_construct True c g_construct (Some g_switch) (Some 0x300000) = Inr []"
    by (rule construct_sample) simp
  show ?thesis
    unfolding check_cycle_def prod.case ps Let_def option.case option.map assms(1) kernel_root_sample ctl ebind_simps tpl con
      walk_sample assms(4)
    by simp
qed

lemmas fault_eval = check_fault_def fault_groups hex64_eval FAULT_CR2_def conv_defs int_hex_def KERNEL_LO_def KERNEL_HI_def
  Let_def unless_def

lemma sample_fault_ro:
  assumes "m (c, py ''fault-ro'') = Some (t_ro s)" "s = ''1'' \<and> g = 1 \<or> s = ''6'' \<and> g = 6"
  shows "check_fault c m (sample_baseline gens, []) (py ''fault-ro'', 3) = Inr (sample_baseline (gens @ [g]), [])"
  using assms by (auto simp: fault_eval sample_baseline_def)

lemma sample_fault_nx:
  assumes "m (c, py ''fault-nx'') = Some (t_nx s)" "s = ''2'' \<and> g = 2 \<or> s = ''7'' \<and> g = 7"
  shows "check_fault c m (sample_baseline gens, []) (py ''fault-nx'', 0x11) = Inr (sample_baseline (gens @ [g]), [])"
  using assms by (auto simp: fault_eval sample_baseline_def)

lemma sample_fault_guard:
  assumes "m (c, py ''fault-guard'') = Some (t_guard s)" "s = ''3'' \<and> g = 3 \<or> s = ''8'' \<and> g = 8"
  shows "check_fault c m (sample_baseline gens, []) (py ''fault-guard'', 0) = Inr (sample_baseline (gens @ [g]), [])"
  using assms by (auto simp: fault_eval sample_baseline_def)

lemma sample_fault_top:
  assumes "m (c, py ''fault-top'') = Some (t_top s)" "s = ''4'' \<and> g = 4 \<or> s = ''9'' \<and> g = 9"
  shows "check_fault c m (sample_baseline gens, []) (py ''fault-top'', 0) = Inr (sample_baseline (gens @ [g]), [])"
  using assms by (auto simp: fault_eval sample_baseline_def)

lemma sample_fault_absent:
  assumes "m (c, py ''absent'') = Some (t_absent s)" "s = ''5'' \<and> g = 5 \<or> s = ''10'' \<and> g = 10"
  shows "check_fault c m (sample_baseline gens, []) (py ''absent'', 0) = Inr (sample_baseline (gens @ [g]), [])"
  using assms by (auto simp: fault_eval sample_baseline_def)

lemma collect_sample:
  assumes "distinct (map (fst \<circ> cycle_key) cs)"
  shows "collect_cycles cs = (map_of (map cycle_key cs), [])"
proof -
  have "snd (collect_cycles cs) = []" using collect_cycles_eq assms by blast
  then have c: "collect_cycles cs = (fst (collect_cycles cs), [])" by (metis prod.collapse)
  with collected [OF c] show ?thesis by simp
qed

definition positive_fields :: fields_map where
  "positive_fields = map_of (map cycle_key (v_cycles positive_scan))"

lemma positive_collect: "collect_cycles (v_cycles positive_scan) = (positive_fields, [])"
  unfolding positive_fields_def
  by (rule collect_sample) (simp add: positive_scan_def cycle_key_def)

lemma positive_seen: "c = 1 \<or> c = 2 \<Longrightarrow> seen_stages c (v_cycles positive_scan) = CYCLE_STAGES"
  by (auto simp: seen_stages_def positive_scan_def CYCLE_STAGES_def)

lemma positive_sample_fields: "c = 1 \<or> c = 2 \<Longrightarrow> sample_fields positive_fields c"
  by (auto simp: sample_fields_def positive_fields_def positive_scan_def cycle_key_def)

lemma positive_fault_fields:
  "positive_fields (1, py ''fault-ro'') = Some (t_ro ''1'')" "positive_fields (1, py ''fault-nx'') = Some (t_nx ''2'')"
  "positive_fields (1, py ''fault-guard'') = Some (t_guard ''3'')" "positive_fields (1, py ''fault-top'') = Some (t_top ''4'')"
  "positive_fields (1, py ''absent'') = Some (t_absent ''5'')"
  "positive_fields (2, py ''fault-ro'') = Some (t_ro ''6'')" "positive_fields (2, py ''fault-nx'') = Some (t_nx ''7'')"
  "positive_fields (2, py ''fault-guard'') = Some (t_guard ''8'')" "positive_fields (2, py ''fault-top'') = Some (t_top ''9'')"
  "positive_fields (2, py ''absent'') = Some (t_absent ''10'')"
  by (simp_all add: positive_fields_def positive_scan_def cycle_key_def)

lemma positive_faults1:
  "check_faults 1 positive_fields (sample_baseline []) = Inr (sample_baseline [1, 2, 3, 4, 5], [])"
proof -
  have f1: "check_fault 1 positive_fields (sample_baseline [], []) (py ''fault-ro'', 3) = Inr (sample_baseline [1], [])"
    by (rule sample_fault_ro [where gens = "[]", unfolded append.simps], rule positive_fault_fields, simp)
  have f2: "check_fault 1 positive_fields (sample_baseline [1], []) (py ''fault-nx'', 0x11) = Inr (sample_baseline [1, 2], [])"
    by (rule sample_fault_nx [where gens = "[1]", unfolded append.simps], rule positive_fault_fields, simp)
  have f3: "check_fault 1 positive_fields (sample_baseline [1, 2], []) (py ''fault-guard'', 0) = Inr (sample_baseline [1, 2, 3], [])"
    by (rule sample_fault_guard [where gens = "[1, 2]", unfolded append.simps], rule positive_fault_fields, simp)
  have f4: "check_fault 1 positive_fields (sample_baseline [1, 2, 3], []) (py ''fault-top'', 0) = Inr (sample_baseline [1, 2, 3, 4], [])"
    by (rule sample_fault_top [where gens = "[1, 2, 3]", unfolded append.simps], rule positive_fault_fields, simp)
  have f5: "check_fault 1 positive_fields (sample_baseline [1, 2, 3, 4], []) (py ''absent'', 0) = Inr (sample_baseline [1, 2, 3, 4, 5], [])"
    by (rule sample_fault_absent [where gens = "[1, 2, 3, 4]", unfolded append.simps], rule positive_fault_fields, simp)
  show ?thesis unfolding check_faults_def PFEC_def efold.simps f1 f2 f3 f4 f5 ebind_simps ..
qed

lemma positive_faults2:
  "check_faults 2 positive_fields (sample_baseline [1, 2, 3, 4, 5]) = Inr (sample_baseline [1, 2, 3, 4, 5, 6, 7, 8, 9, 10], [])"
proof -
  have f1: "check_fault 2 positive_fields (sample_baseline [1, 2, 3, 4, 5], []) (py ''fault-ro'', 3) = Inr (sample_baseline [1, 2, 3, 4, 5, 6], [])"
    by (rule sample_fault_ro [where gens = "[1, 2, 3, 4, 5]", unfolded append.simps], rule positive_fault_fields, simp)
  have f2: "check_fault 2 positive_fields (sample_baseline [1, 2, 3, 4, 5, 6], []) (py ''fault-nx'', 0x11) = Inr (sample_baseline [1, 2, 3, 4, 5, 6, 7], [])"
    by (rule sample_fault_nx [where gens = "[1, 2, 3, 4, 5, 6]", unfolded append.simps], rule positive_fault_fields, simp)
  have f3: "check_fault 2 positive_fields (sample_baseline [1, 2, 3, 4, 5, 6, 7], []) (py ''fault-guard'', 0) = Inr (sample_baseline [1, 2, 3, 4, 5, 6, 7, 8], [])"
    by (rule sample_fault_guard [where gens = "[1, 2, 3, 4, 5, 6, 7]", unfolded append.simps], rule positive_fault_fields, simp)
  have f4: "check_fault 2 positive_fields (sample_baseline [1, 2, 3, 4, 5, 6, 7, 8], []) (py ''fault-top'', 0) = Inr (sample_baseline [1, 2, 3, 4, 5, 6, 7, 8, 9], [])"
    by (rule sample_fault_top [where gens = "[1, 2, 3, 4, 5, 6, 7, 8]", unfolded append.simps], rule positive_fault_fields, simp)
  have f5: "check_fault 2 positive_fields (sample_baseline [1, 2, 3, 4, 5, 6, 7, 8, 9], []) (py ''absent'', 0) = Inr (sample_baseline [1, 2, 3, 4, 5, 6, 7, 8, 9, 10], [])"
    by (rule sample_fault_absent [where gens = "[1, 2, 3, 4, 5, 6, 7, 8, 9]", unfolded append.simps], rule positive_fault_fields, simp)
  show ?thesis unfolding check_faults_def PFEC_def efold.simps f1 f2 f3 f4 f5 ebind_simps ..
qed

lemma positive_semantics_sample:
  "check_cycle_semantics (v_fixtures positive_scan) (v_cycles positive_scan) True = Inr []"
proof -
  have c1: "check_cycle True positive_fields (v_cycles positive_scan) (init_baseline, []) 1 =
      Inr (sample_baseline [1, 2, 3, 4, 5], [])"
    by (rule sample_cycle) (use positive_seen positive_sample_fields positive_faults1 in \<open>simp_all add: init_baseline_def\<close>)
  have c2: "check_cycle True positive_fields (v_cycles positive_scan) (sample_baseline [1, 2, 3, 4, 5], []) 2 =
      Inr (sample_baseline [1, 2, 3, 4, 5, 6, 7, 8, 9, 10], [])"
    by (rule sample_cycle) (use positive_seen positive_sample_fields positive_faults2 in \<open>simp_all add: sample_baseline_def\<close>)
  have fx: "check_fixtures True (v_fixtures positive_scan) = []"
    by (simp add: check_fixtures_def positive_scan_def FIXTURE_LEN_def FIXTURE_SHA256_def sha1_def sha2_def)
  show ?thesis
    unfolding check_cycle_semantics_def positive_collect prod.case Let_def if_True efold.simps c1 c2 ebind_simps fx
    by (simp add: sample_baseline_def)
qed

section \<open>The bootstrap verdict\<close>

lemma classify_marker: "i < 18 \<Longrightarrow> classify (MARKERS ! i) = Some (Stage i)"
proof -
  assume i: "i < 18"
  then have s: "stage_index MARKERS (MARKERS ! i) = Some i" by (simp add: stage_index_iff MARKERS_marker_line)
  then have "\<not> starts_with (MARKERS ! i) EXIT_PREFIX" using exit_no_stage by fastforce
  moreover have "re_match FAILURE (MARKERS ! i) = None" using markers_no_failure i by (simp add: list_all_iff)
  ultimately show ?thesis using s by (simp add: classify_def)
qed

lemma classify_exit: "classify EXIT_OK = Some Exit" "classify EXIT_VM = Some Contradiction"
proof -
  have "re_match FAILURE EXIT_OK = None" "re_match FAILURE EXIT_VM = None" "starts_with EXIT_OK EXIT_PREFIX"
    "starts_with EXIT_VM EXIT_PREFIX" "EXIT_VM \<noteq> EXIT_OK"
    by (simp_all add: rx_eval EXIT_OK_def EXIT_VM_def EXIT_PREFIX_def)
  then show "classify EXIT_OK = Some Exit" "classify EXIT_VM = Some Contradiction" by (simp_all add: classify_def)
qed

lemma classify_kind: "vkind l = Some k \<Longrightarrow> classify l = None"
  by (rule vm_not_boot) (auto simp: vkind_def split: if_splits)

lemmas classify_sample = classify_marker classify_exit classify_kind l_start_kinds l_fixture_kinds l_stage_kinds1
  l_stage_kinds2 List.map_filter_simps

lemma positive_base: "List.map_filter classify positive_lines = map Stage ([0..<4] @ replicate 0 3 @ [4..<18]) @ [Exit]"
proof -
  have "map Stage ([0..<4] @ replicate 0 3 @ [4..<18]) = map Stage [0,1,2,3,4,5,6,7,8,9,10,11,12,13,14,15,16,17]"
    by (simp add: upt_rec)
  then show ?thesis by (simp add: lines_defs classify_sample)
qed

definition unbroken :: "pystr \<Rightarrow> bool" where
  "unbroken l \<longleftrightarrow> list_all (\<lambda>c. \<not> line_break c) l"

lemma unbroken_lines:
  "unbroken t_control" "unbroken t_template" "unbroken t_construct" "unbroken t_walk" "unbroken t_switch"
  "unbroken t_skipped" "unbroken t_content" "unbroken t_restore" "unbroken t_destroy"
  "unbroken l_complete" "unbroken l_skip_fail" "unbroken l_ro_fail" "unbroken EXIT_OK" "unbroken EXIT_VM"
  "unbroken (l_start ''positive'')" "unbroken (l_start ''skip-switch'')" "unbroken (l_start ''writable-ro'')"
  "unbroken (l_fixture CHR ''1'' sha1)" "unbroken (l_fixture CHR ''2'' sha2)"
  by (simp_all add: unbroken_def t_defs l_complete_def l_skip_fail_def l_ro_fail_def EXIT_OK_def EXIT_VM_def l_start_def
      l_fixture_def sha1_def sha2_def line_break_def)

lemma unbroken_faults:
  "unbroken (t_ro ''1'')" "unbroken (t_ro ''6'')" "unbroken (t_nx ''2'')" "unbroken (t_nx ''7'')"
  "unbroken (t_guard ''3'')" "unbroken (t_guard ''8'')" "unbroken (t_top ''4'')" "unbroken (t_top ''9'')"
  "unbroken (t_absent ''5'')" "unbroken (t_absent ''10'')"
  by (simp_all add: unbroken_def t_defs line_break_def)

lemma unbroken_stage:
  "unbroken (l_stage c stage f) \<longleftrightarrow> unbroken [Ch c] \<and> unbroken (py stage) \<and> unbroken f"
  by (simp add: unbroken_def l_stage_def line_break_def)

lemma unbroken_marker: "i < 18 \<Longrightarrow> unbroken (MARKERS ! i)"
proof -
  have "list_all unbroken MARKERS" by (simp add: MARKERS_def unbroken_def line_break_def)
  then show "i < 18 \<Longrightarrow> ?thesis" by (simp add: list_all_iff)
qed

lemma splits_as_text: "list_all unbroken ls \<Longrightarrow> splitlines (as_text ls) = ls"
  unfolding as_text_def by (rule splitlines_concat) (simp add: list_all_iff unbroken_def)

lemma splits_sample:
  "splitlines (as_text positive_lines) = positive_lines"
  "splitlines (as_text skip_switch_lines) = skip_switch_lines"
  "splitlines (as_text writable_ro_lines) = writable_ro_lines"
proof -
  have dashes: "unbroken (py ''control'')" "unbroken (py ''template'')" "unbroken (py ''construct'')" "unbroken (py ''walk'')"
    "unbroken (py ''switch'')" "unbroken (py ''content'')" "unbroken (py ''fault-ro'')" "unbroken (py ''fault-nx'')"
    "unbroken (py ''fault-guard'')" "unbroken (py ''fault-top'')" "unbroken (py ''restore'')" "unbroken (py ''absent'')"
    "unbroken (py ''destroy'')" "unbroken [Ch CHR ''1'']" "unbroken [Ch CHR ''2'']"
    by (simp_all add: unbroken_def line_break_def)
  note [simp] = unbroken_lines unbroken_faults unbroken_stage unbroken_marker dashes [simplified]
  show "splitlines (as_text positive_lines) = positive_lines"
    "splitlines (as_text skip_switch_lines) = skip_switch_lines"
    "splitlines (as_text writable_ro_lines) = writable_ro_lines"
    by (rule splits_as_text, simp add: lines_defs)+
qed

lemma positive_order_sample: "check_positive_order positive_scan = []"
  by (simp add: check_positive_order_def positive_scan_def fixture_marks_def stage_marks_def want_positive_def
      CYCLE_STAGES_def Let_def)

lemma positive_sample_base: "transcript_errors (parse_serial (as_text positive_lines)) = []"
  unfolding parse_serial_events events_def splits_sample positive_base by blast

lemma positive_sample_accepted:
  "\<exists>rep. parse_vm_serial repr (as_text positive_lines) POSITIVE = Inr rep \<and> vm_errors rep = []"
proof -
  note base = positive_sample_base
  have rest: "v_fails positive_scan = []" "length (v_completes positive_scan) = 1" "v_errors positive_scan = []"
    "length (v_exits positive_scan) = 1 \<and> snd (hd (v_exits positive_scan)) = EXIT_OK"
    "reject_vm_after_terminal (v_vm_lines positive_scan) (v_completes positive_scan) (v_exits positive_scan) = []"
    "check_starts POSITIVE positive_scan = []"
    by (simp_all add: positive_scan_def reject_vm_after_terminal_def check_starts_def MODES_def)
  have "check_positive (parse_serial (as_text positive_lines)) positive_scan = Inr []"
    unfolding check_positive_def positive_semantics_sample ebind_simps base positive_order_sample using rest by simp
  then show ?thesis
    using rest by (simp add: parse_vm_serial_def splits_sample positive_scanned Let_def MODES_def)
qed

end
