(* ===== verification/VM_Negative.thy ===== *)
theory VM_Negative
  imports VM_Positive
begin

text \<open>
  Accepted negative runs: the exact sequence of their VM and exit lines, the N6 prefix before
  the start, what they say about the page-table root, and that no transcript is accepted in
  two modes.
\<close>

section \<open>The N6 prefix\<close>

lemma length_N6 [simp]: "length N6_MARKERS = 16"
  by (simp add: N6_MARKERS_def)

lemma N6_map_frozen: "i < 16 \<Longrightarrow> N6_MARKERS ! i = MAP_FROZEN \<longleftrightarrow> i = 3"
  by (simp add: N6_MARKERS_def map_frozen_only)

interpretation n6: ordered_stages "advance N6_MARKERS" 16 3
  by unfold_locales (auto simp: advance_def Let_def N6_map_frozen)

definition n6_stages :: "pystr list \<Rightarrow> nat list" where
  "n6_stages ls = List.map_filter (stage_index N6_MARKERS) ls"

lemma n6_step_errors: "\<exists>es. snd (snd (n6_step (c, l, errs) x)) = errs @ es"
  by (cases x) (auto simp: n6_step_def split: option.splits)

lemma n6_fold:
  "case foldl n6_step (0, 0, []) xs of (c, l, errs) \<Rightarrow>
     if errs = [] then n6.run 0 (n6_stages (map snd xs)) = Some c
     else n6.run 0 (n6_stages (map snd xs)) = None"
proof (induction xs rule: rev_induct)
  case Nil
  show ?case by (simp add: n6_stages_def)
next
  case (snoc x xs)
  obtain c l errs where st: "foldl n6_step (0, 0, []) xs = (c, l, errs)" by (metis surj_pair)
  obtain n line where x: "x = (n, line)" by (cases x)
  have run: "n6.run 0 (n6_stages (map snd xs @ [line])) =
      (case n6.run 0 (n6_stages (map snd xs)) of None \<Rightarrow> None
       | Some c' \<Rightarrow> (case stage_index N6_MARKERS line of None \<Rightarrow> Some c' | Some i \<Rightarrow> advance N6_MARKERS c' i))"
    by (auto simp: n6_stages_def n6.run_append split: option.split)
  have map: "map snd (xs @ [x]) = map snd xs @ [line]" by (simp add: x)
  show ?case
    using snoc unfolding map run st foldl_append foldl.simps unfolding x
    by (auto simp: n6_step_def split: option.splits if_splits)
qed

lemma n6_prefix_clean:
  assumes "check_n6_prefix ls starts = []" "starts = [(s, m)]"
  shows "\<exists>k. n6_stages (map snd (takeWhile (\<lambda>(n, _). n < s) (numbered ls))) = [0..<4] @ replicate k 3 @ [4..<16]"
proof -
  let ?xs = "takeWhile (\<lambda>(n, _). n < s) (numbered ls)"
  obtain c l errs where st: "foldl n6_step (0, 0, []) ?xs = (c, l, errs)" by (metis surj_pair)
  from assms st have "errs = []" "c = 16" by (auto simp: check_n6_prefix_def split: if_splits)
  with n6_fold [of ?xs] st have r: "n6.run 0 (n6_stages (map snd ?xs)) = Some 16" by simp
  have "\<forall>i\<in>set (n6_stages (map snd ?xs)). i < 16"
  proof
    fix i assume "i \<in> set (n6_stages (map snd ?xs))"
    then obtain y where "stage_index N6_MARKERS y = Some i" by (auto simp: n6_stages_def List.map_filter_def)
    then show "i < 16" using stage_index_less by fastforce
  qed
  from n6.run_complete [OF this] r show ?thesis by (simp del: upt_Suc)
qed

lemma numbered_before:
  "0 < s \<Longrightarrow> s \<le> Suc (length ls) \<Longrightarrow> map snd (takeWhile (\<lambda>(n, _). n < s) (numbered ls)) = take (s - 1) ls"
proof (induction ls rule: rev_induct)
  case (snoc x ls)
  show ?case
  proof (cases "s \<le> Suc (length ls)")
    case True
    have "\<exists>y\<in>set (numbered ls). \<not> (\<lambda>(n, _). n < s) y" if "s \<noteq> Suc (length ls)"
      using True that snoc.prems(1) by (intro bexI [of _ "(s, ls ! (s - 1))"]) (auto simp: in_numbered)
    with snoc True show ?thesis
      by (cases "s = Suc (length ls)") (auto simp: takeWhile_append takeWhile_append1 split: if_splits)
  next
    case False
    then have s: "s = Suc (Suc (length ls))" using snoc.prems by simp
    have "takeWhile (\<lambda>(n, _). n < s) (numbered (ls @ [x])) = numbered (ls @ [x])"
      unfolding takeWhile_eq_all_conv s by (auto simp: in_numbered less_Suc_eq_le simp del: numbered_snoc)
    then show ?thesis using s by (simp only: numbered_map_snd) simp
  qed
qed simp

section \<open>The accepted sequence\<close>

datatype nevent = Vm pevent | ExitLine pystr

definition negative_class :: "pystr \<Rightarrow> nevent option" where
  "negative_class line =
    (case vm_class line of Some e \<Rightarrow> Some (Vm e)
     | None \<Rightarrow> if starts_with line EXIT_PREFIX then Some (ExitLine line) else None)"

definition fail_reason :: "pystr \<Rightarrow> pystr" where
  "fail_reason mode = (if mode = SKIP_SWITCH then py ''cr3-readback'' else py ''expected-pf'')"

definition failed_run :: "pystr \<Rightarrow> nevent list" where
  "failed_run mode =
    [Vm (VmStart mode), Vm (VmFixture 1)] @ map (Vm \<circ> VmStage 1) (required_stages mode) @
    [Vm (VmFail 1 (expected_stage mode) (fail_reason mode)), ExitLine EXIT_VM]"

definition negative_mode :: "pystr \<Rightarrow> bool" where
  "negative_mode mode \<longleftrightarrow> mode = SKIP_SWITCH \<or> mode = WRITABLE_RO"

lemma negative_mode_simps: "negative_mode mode \<Longrightarrow> mode \<in> set MODES \<and> mode \<noteq> POSITIVE \<and> required_stages mode \<noteq> []"
  by (auto simp: negative_mode_def MODES_def required_stages_def)

lemma length_one: "length xs = 1 \<Longrightarrow> \<exists>x. xs = [x]"
  by (cases xs) auto

lemma negative_accepted:
  assumes "parse_vm_serial repr serial mode = Inr rep" "vm_errors rep = []" "negative_mode mode"
  obtains st s n e where "vm_scan (splitlines serial) = Inr st" "v_errors st = []"
    "v_starts st = [(s, mode)]" "v_completes st = []"
    "v_fails st = [(n, 1, expected_stage mode, fail_reason mode)]" "v_exits st = [(e, EXIT_VM)]" "n \<le> e"
    "check_n6_prefix (splitlines serial) (v_starts st) = []" "check_negative_sequence mode st = []"
    "\<not> vm_complete rep" "vr_cycles rep = map (\<lambda>(_, c, s, f). (c, s, f)) (v_cycles st)"
proof -
  note m = negative_mode_simps [OF assms(3)]
  from assms(1) m obtain st errs where st: "vm_scan (splitlines serial) = Inr st"
    and errs: "check_negative mode (parse_serial serial) (splitlines serial) st = Inr errs"
    and rep: "vm_errors rep = v_errors st @ check_starts mode st @ errs" "\<not> vm_complete rep"
      "vr_cycles rep = map (\<lambda>(_, c, s, f). (c, s, f)) (v_cycles st)"
    by (auto simp: parse_vm_serial_def exc_simps Let_def)
  have nil: "v_errors st = []" "check_starts mode st = []" "errs = []" using assms(2) rep(1) by auto
  obtain sem where sem: "check_cycle_semantics (v_fixtures st) (v_cycles st) False = Inr sem"
    using errs by (auto simp: check_negative_def exc_simps)
  note all = errs [unfolded nil(3) check_negative_def sem ebind_simps sum.inject append_is_Nil_conv unless_Nil]
  have "length (v_starts st) = 1"
    using nil(2) unfolding check_starts_def by (metis list.distinct(1))
  then obtain s m' where s: "v_starts st = [(s, m')]" using length_one by (metis surj_pair)
  with nil(2) have start: "v_starts st = [(s, mode)]" by (simp add: check_starts_def)
  have "length (v_fails st) = 1" using all by (metis list.distinct(1))
  then obtain n c g r where f: "v_fails st = [(n, c, g, r)]" using length_one by (metis surj_pair)
  have "length (v_exits st) = 1" "snd (hd (v_exits st)) = EXIT_VM" using all by auto
  then obtain e where e: "v_exits st = [(e, EXIT_VM)]" using length_one by (metis list.sel(1) prod.collapse)
  have fl: "c = 1" "g = expected_stage mode" "r = fail_reason mode" "n \<le> e"
    using all f e assms(3) by (auto simp: check_fail_line_def fail_reason_def negative_mode_def MODES_def split: if_splits)
  show thesis
    by (rule that [OF st nil(1) start]) (use all f fl e rep start in auto)
qed

lemma vm_not_exit: "starts_with l VM_PREFIX \<Longrightarrow> \<not> starts_with l EXIT_PREFIX"
proof -
  have "take 8 EXIT_PREFIX \<noteq> VM_PREFIX" "length EXIT_PREFIX = 9" by code_simp+
  then show "starts_with l VM_PREFIX \<Longrightarrow> ?thesis"
    using vm_take8 [of l] take8_take9 [of l EXIT_PREFIX] by (auto simp: starts_with_def)
qed

definition exit_class :: "pystr \<Rightarrow> pystr option" where
  "exit_class l = (if starts_with l EXIT_PREFIX then Some l else None)"

lemma in_negative_view:
  "(n, e) \<in> set (view negative_class ls) \<longleftrightarrow>
    (\<exists>v. e = Vm v \<and> (n, v) \<in> set (view vm_class ls)) \<or> (\<exists>l. e = ExitLine l \<and> (n, l) \<in> set (view exit_class ls))"
  by (auto simp: in_view negative_class_def exit_class_def vm_class_def vm_not_exit split: option.split)

fun negative_mark :: "pystr \<Rightarrow> mark \<Rightarrow> nevent" where
  "negative_mark mode StartMark = Vm (VmStart mode)"
| "negative_mark mode (FixtureMark c) = Vm (VmFixture c)"
| "negative_mark mode (StageMark c s) = Vm (VmStage c s)"
| "negative_mark mode (FailMark c) = Vm (VmFail c (expected_stage mode) (fail_reason mode))"
| "negative_mark mode ExitMark = ExitLine EXIT_VM"

lemma negative_marks_distinct:
  assumes sc: "scanned ls st" and "v_starts st = [(s, m)]" "v_fails st = [(n, c, g, r)]" "v_exits st = [(e, x)]"
  shows "distinct (map fst (negative_events s (v_fixtures st) (v_cycles st) (v_fails st) (v_exits st)))"
proof -
  note k = scanned_kinds [OF sc]
  have S: "(s, VStart m) \<in> set (view vkind ls)" and N: "(n, VFail c g r) \<in> set (view vkind ls)"
    using k(1) [of s m] k(5) [of n c g r] assms by auto
  have E: "(e, x) \<in> set (view exit_class ls)"
    using sc assms(4) unfolding scanned_def exit_class_def by (metis list.set_intros(1))
  have F: "\<exists>c len h. (i, VFixture c len h) \<in> set (view vkind ls)" if "i \<in> fst ` set (v_fixtures st)" for i
    using that k(2) by force
  have C: "\<exists>c s f. (i, VStage c s f) \<in> set (view vkind ls)" if "i \<in> fst ` set (v_cycles st)" for i
    using that k(3) by force
  have vm: "i \<noteq> e" if "(i, v) \<in> set (view vkind ls)" for i v
  proof
    assume "i = e"
    with that E have "starts_with (ls ! (e - 1)) VM_PREFIX" "starts_with (ls ! (e - 1)) EXIT_PREFIX"
      by (auto simp: in_view vkind_def exit_class_def split: if_splits)
    then show False using vm_not_exit by blast
  qed
  have d: "distinct (map fst (v_fixtures st) @ map fst (v_cycles st))"
    using marks_distinct [OF sc] by simp
  have "s \<notin> fst ` set (v_fixtures st)" "s \<notin> fst ` set (v_cycles st)" "s \<noteq> n" "s \<noteq> e"
    "n \<notin> fst ` set (v_fixtures st)" "n \<notin> fst ` set (v_cycles st)" "n \<noteq> e"
    "e \<notin> fst ` set (v_fixtures st)" "e \<notin> fst ` set (v_cycles st)"
    using view_functional [OF S] view_functional [OF N] vm [OF S] vm [OF N] S N F C vm by blast+
  with d assms show ?thesis by (simp add: negative_events_def)
qed

lemma negative_events_view:
  assumes sc: "scanned ls st" and clean: "\<forall>l\<in>set ls. clean_line l"
    and kinds: "\<And>l. l \<in> set ls \<Longrightarrow> starts_with l VM_PREFIX \<Longrightarrow> \<exists>k. vkind l = Some k"
    and start: "v_starts st = [(s, mode)]" and complete: "v_completes st = []"
    and fail: "v_fails st = [(n, 1, expected_stage mode, fail_reason mode)]" and ex: "v_exits st = [(e, EXIT_VM)]"
  shows "view negative_class ls = map (\<lambda>(i, m). (i, negative_mark mode m))
    (sort_key fst (negative_events s (v_fixtures st) (v_cycles st) (v_fails st) (v_exits st)))" (is "_ = map ?f ?L")
proof (rule increasing_set_eq [OF view_increasing])
  have "map fst (map ?f ?L) = map fst ?L" by (simp add: case_prod_unfold)
  then show "sorted_wrt (<) (map fst (map ?f ?L))"
    using sort_key_increasing [OF negative_marks_distinct [OF sc start fail ex]] by (simp only:)
  note k = scanned_kinds [OF sc]
  have vk: "(i, v) \<in> set (view vm_class ls) \<longleftrightarrow> (\<exists>k. (i, k) \<in> set (view vkind ls) \<and> v = event_of k)" for i v
  proof -
    have "i \<le> length ls \<Longrightarrow> 0 < i \<Longrightarrow> ls ! (i - 1) \<in> set ls" by simp
    then show ?thesis
      using kinds [of "ls ! (i - 1)"]
      by (auto simp: in_view vm_class_def vkind_def split: option.splits)
  qed
  have bad: "(i, VMalformed) \<notin> set (view vkind ls)" for i
  proof
    assume "(i, VMalformed) \<in> set (view vkind ls)"
    then have "ls ! (i - 1) \<in> set ls" "vkind (ls ! (i - 1)) = Some VMalformed" by (auto simp: in_view)
    with clean show False by (force simp: clean_line_def)
  qed
  have nocomplete: "(i, VComplete) \<notin> set (view vkind ls)" for i
    using k(4) complete by simp
  have starts: "(i, VStart m) \<in> set (view vkind ls) \<longleftrightarrow> i = s \<and> m = mode" for i m
    using k(1) [of i m] start by auto
  have fails: "(i, VFail c g r) \<in> set (view vkind ls) \<longleftrightarrow> i = n \<and> c = 1 \<and> g = expected_stage mode \<and> r = fail_reason mode"
    for i c g r
    using k(5) [of i c g r] fail by auto
  have exits: "(i, l) \<in> set (view exit_class ls) \<longleftrightarrow> i = e \<and> l = EXIT_VM" for i l
  proof -
    have eq: "(\<lambda>l. if starts_with l EXIT_PREFIX then Some l else None) = exit_class"
      by (simp add: exit_class_def fun_eq_iff)
    have "v_exits st = view exit_class ls" using sc by (simp only: scanned_def eq)
    then show ?thesis unfolding ex by (metis empty_iff list.set insert_iff prod.inject)
  qed
  have L: "(i, ev) \<in> set (map ?f ?L) \<longleftrightarrow> ev = Vm (VmStart mode) \<and> i = s \<or>
      (\<exists>c len h. (i, VFixture c len h) \<in> set (view vkind ls) \<and> ev = Vm (VmFixture c)) \<or>
      (\<exists>c t f. (i, VStage c t f) \<in> set (view vkind ls) \<and> ev = Vm (VmStage c t)) \<or>
      ev = Vm (VmFail 1 (expected_stage mode) (fail_reason mode)) \<and> i = n \<or> ev = ExitLine EXIT_VM \<and> i = e" for i ev
  proof -
    have fx: "(i, ev) \<in> ?f ` set (fixture_marks (v_fixtures st)) \<longleftrightarrow>
        (\<exists>c len h. (i, c, len, h) \<in> set (v_fixtures st) \<and> ev = Vm (VmFixture c))"
      by (force simp: fixture_marks_def)
    have sg: "(i, ev) \<in> ?f ` set (stage_marks (v_cycles st)) \<longleftrightarrow>
        (\<exists>c t f. (i, c, t, f) \<in> set (v_cycles st) \<and> ev = Vm (VmStage c t))"
      by (force simp: stage_marks_def)
    have "set (negative_events s (v_fixtures st) (v_cycles st) (v_fails st) (v_exits st)) =
        {(s, StartMark)} \<union> set (fixture_marks (v_fixtures st)) \<union> set (stage_marks (v_cycles st)) \<union>
        {(n, FailMark 1)} \<union> {(e, ExitMark)}"
      by (auto simp: negative_events_def fail ex)
    then have "(i, ev) \<in> set (map ?f ?L) \<longleftrightarrow> (i, ev) = ?f (s, StartMark) \<or>
        (i, ev) \<in> ?f ` set (fixture_marks (v_fixtures st)) \<or> (i, ev) \<in> ?f ` set (stage_marks (v_cycles st)) \<or>
        (i, ev) = ?f (n, FailMark 1) \<or> (i, ev) = ?f (e, ExitMark)"
      unfolding set_map set_sort by (simp only: image_Un image_insert image_empty Un_iff insert_iff empty_iff) blast
    also have "\<dots> \<longleftrightarrow> ev = Vm (VmStart mode) \<and> i = s \<or>
      (\<exists>c len h. (i, c, len, h) \<in> set (v_fixtures st) \<and> ev = Vm (VmFixture c)) \<or>
      (\<exists>c t f. (i, c, t, f) \<in> set (v_cycles st) \<and> ev = Vm (VmStage c t)) \<or>
      ev = Vm (VmFail 1 (expected_stage mode) (fail_reason mode)) \<and> i = n \<or> ev = ExitLine EXIT_VM \<and> i = e"
      unfolding fx sg prod.case negative_mark.simps prod.inject by blast
    finally show ?thesis unfolding k(2,3) .
  qed
  have "(i, ev) \<in> set (view negative_class ls) \<longleftrightarrow> (i, ev) \<in> set (map ?f ?L)" for i ev
  proof -
    have "(\<exists>v. ev = Vm v \<and> (\<exists>k. (i, k) \<in> set (view vkind ls) \<and> v = event_of k)) \<longleftrightarrow>
        (\<exists>k. (i, k) \<in> set (view vkind ls) \<and> ev = Vm (event_of k))" by blast
    also have "\<dots> \<longleftrightarrow> ev = Vm (VmStart mode) \<and> i = s \<or>
      (\<exists>c len h. (i, VFixture c len h) \<in> set (view vkind ls) \<and> ev = Vm (VmFixture c)) \<or>
      (\<exists>c t f. (i, VStage c t f) \<in> set (view vkind ls) \<and> ev = Vm (VmStage c t)) \<or>
      ev = Vm (VmFail 1 (expected_stage mode) (fail_reason mode)) \<and> i = n" (is "?A \<longleftrightarrow> ?B")
    proof
      assume ?A
      then obtain k where "(i, k) \<in> set (view vkind ls)" "ev = Vm (event_of k)" by blast
      then show ?B using bad nocomplete by (cases k) (auto simp: starts fails)
    next
      assume ?B
      then show ?A using starts [of i mode] fails [of i 1 "expected_stage mode" "fail_reason mode"]
        by (elim disjE exE conjE) (auto intro: exI [of _ "VStart mode"]
            exI [of _ "VFail 1 (expected_stage mode) (fail_reason mode)"] simp: exI)
    qed
    finally show ?thesis
      unfolding in_negative_view vk exits L by blast
  qed
  then show "set (view negative_class ls) = set (map ?f ?L)" by auto
qed

lemma check_mode_stages_clean:
  assumes "check_mode_stages mode names cs = []"
  shows "mode = SKIP_SWITCH \<Longrightarrow> check_skip_switch_observed cs = []"
    "mode = WRITABLE_RO \<Longrightarrow> \<exists>f rest g. stage_fields 1 (py ''switch'') cs = f # rest \<and>
       re_fullmatch SWITCH_RE f = Some g \<and> group g 1 = group g 2"
  using assms by (auto simp: check_mode_stages_def MODES_def split: list.splits option.splits)

lemma check_negative_sequence_clean:
  assumes "check_negative_sequence mode st = []" "v_starts st = [(s, mode)]" "negative_mode mode"
  shows "map snd (sort_key fst (negative_events s (v_fixtures st) (v_cycles st) (v_fails st) (v_exits st))) =
      want_negative mode (v_fails st) (v_exits st)"
    "\<exists>names. check_mode_stages mode names (v_cycles st) = []"
  using assms(1) negative_mode_simps [OF assms(3)]
  unfolding check_negative_sequence_def Let_def assms(2)
  by (simp_all only: list.distinct list.sel fst_conv if_False append_is_Nil_conv unless_Nil) blast+

section \<open>Properties\<close>

text \<open>
  C13: acceptance of a negative run fixes its sequence. If \<open>parse_vm_serial\<close> reports no error in
  mode skip-switch or writable-ro, then the VM and exit lines are exactly one start of the
  mode, the cycle-1 fixture, the stages that precede the tampered one, the failure of the tampered
  stage with the mode's reason, and exit code 17; and the markers before the start are the
  complete ordered N6 prefix.
\<close>

theorem negative_run_protocol:
  assumes "parse_vm_serial repr serial mode = Inr rep" "vm_errors rep = []" "negative_mode mode"
  shows "List.map_filter negative_class (splitlines serial) = failed_run mode \<and>
    (\<exists>pre l post k. splitlines serial = pre @ l # post \<and> vkind l = Some (VStart mode) \<and>
       n6_stages pre = [0..<4] @ replicate k 3 @ [4..<16])"
proof -
  let ?ls = "splitlines serial"
  obtain st s n e where st: "vm_scan ?ls = Inr st" "v_errors st = []" and start: "v_starts st = [(s, mode)]"
    and complete: "v_completes st = []" and fail: "v_fails st = [(n, 1, expected_stage mode, fail_reason mode)]"
    and ex: "v_exits st = [(e, EXIT_VM)]" and n6: "check_n6_prefix ?ls (v_starts st) = []"
    and seq: "check_negative_sequence mode st = []"
    by (rule negative_accepted [OF assms])
  have sc: "scanned ?ls st" and clean: "\<forall>l\<in>set ?ls. clean_line l" using vm_scan_views [OF st(1)] st(2) by auto
  let ?L = "sort_key fst (negative_events s (v_fixtures st) (v_cycles st) (v_fails st) (v_exits st))"
  have "List.map_filter negative_class ?ls = map snd (map (\<lambda>(i, m). (i, negative_mark mode m)) ?L)"
    using negative_events_view [OF sc clean vm_scan_kind [OF st(1)] start complete fail ex]
    by (simp only: map_snd_view [symmetric])
  also have "\<dots> = map (negative_mark mode) (map snd ?L)" by (simp add: case_prod_unfold)
  also have "\<dots> = failed_run mode"
    unfolding check_negative_sequence_clean(1) [OF seq start assms(3)]
    by (simp add: want_negative_def failed_run_def fail ex)
  finally have "List.map_filter negative_class ?ls = failed_run mode" .
  moreover have "(s, VStart mode) \<in> set (view vkind ?ls)"
    using scanned_kinds(1) [OF sc] start by auto
  then have s: "0 < s" "s \<le> length ?ls" "vkind (?ls ! (s - 1)) = Some (VStart mode)" by (auto simp: in_view)
  obtain k where "n6_stages (take (s - 1) ?ls) = [0..<4] @ replicate k 3 @ [4..<16]"
    using n6_prefix_clean [OF n6 start] numbered_before [of s ?ls] s by auto
  moreover have "?ls = take (s - 1) ?ls @ ?ls ! (s - 1) # drop s ?ls"
    using s(1,2) id_take_nth_drop [of "s - 1" ?ls] by simp
  ultimately show ?thesis using s(3) by blast
qed

text \<open>
  C31: what the failed run says about the page-table root. In an accepted skip-switch run the
  observed root is the address of the saved CR3, a page frame below the physical top, and
  differs from the private root; in an accepted writable-ro run the switch to the private root was
  observed.
\<close>

theorem negative_run_root:
  assumes "parse_vm_serial repr serial mode = Inr rep" "vm_errors rep = []" "negative_mode mode"
  shows "\<exists>f s. (1, py ''switch'', f) \<in> set (vr_cycles rep) \<and> re_fullmatch SWITCH_RE f = Some s \<and>
    (if mode = SKIP_SWITCH
     then \<exists>h c. (1, py ''control'', h) \<in> set (vr_cycles rep) \<and> re_fullmatch CONTROL_RE h = Some c \<and>
       hex64 (group s 2) = hex64 (group c 1) AND CR3_ADDR \<and> frame_ok (hex64 (group s 2)) \<and>
       hex64 (group s 2) \<noteq> hex64 (group s 1)
     else group s 1 = group s 2)"
proof -
  obtain st s n e where start: "v_starts st = [(s, mode)]" and seq: "check_negative_sequence mode st = []"
    and cycles: "vr_cycles rep = map (\<lambda>(_, c, s, f). (c, s, f)) (v_cycles st)"
    by (rule negative_accepted [OF assms])
  obtain names where names: "check_mode_stages mode names (v_cycles st) = []"
    using check_negative_sequence_clean(2) [OF seq start assms(3)] by blast
  have field: "(1, stage, f) \<in> set (vr_cycles rep)" if "stage_fields 1 stage (v_cycles st) = f # rest" for stage f rest
  proof -
    have "f \<in> set (stage_fields 1 stage (v_cycles st))" using that by simp
    then show ?thesis by (force simp: stage_fields_def cycles)
  qed
  show ?thesis
  proof (cases "mode = SKIP_SWITCH")
    case True
    note obs = check_mode_stages_clean(1) [OF names True]
    obtain f rest where f: "stage_fields 1 (py ''switch'') (v_cycles st) = f # rest"
      using obs by (cases "stage_fields 1 (py ''switch'') (v_cycles st)") (simp_all add: check_skip_switch_observed_def)
    obtain g where g: "re_fullmatch SWITCH_RE f = Some g"
      using obs f by (cases "re_fullmatch SWITCH_RE f") (simp_all add: check_skip_switch_observed_def)
    have ok: "frame_ok (hex64 (group g 2))"
      using obs f g by (auto simp: check_skip_switch_observed_def Let_def split: if_splits)
    obtain h rest' where h: "stage_fields 1 (py ''control'') (v_cycles st) = h # rest'"
      using obs f g ok by (cases "stage_fields 1 (py ''control'') (v_cycles st)")
        (simp_all add: check_skip_switch_observed_def Let_def)
    obtain c where c: "re_fullmatch CONTROL_RE h = Some c"
      using obs f g ok h by (cases "re_fullmatch CONTROL_RE h") (simp_all add: check_skip_switch_observed_def Let_def)
    have "hex64 (group g 2) = hex64 (group c 1) AND CR3_ADDR" "hex64 (group g 2) \<noteq> hex64 (group g 1)"
      using obs f g ok h c by (auto simp: check_skip_switch_observed_def Let_def)
    with ok g c field [OF f] field [OF h] show ?thesis unfolding if_P [OF True] by blast
  next
    case False
    with assms(3) have "mode = WRITABLE_RO" by (simp add: negative_mode_def)
    from check_mode_stages_clean(2) [OF names this] field False show ?thesis by fastforce
  qed
qed


text \<open>
  \<open>vm_complete\<close> is the verdict. A report that \<open>parse_vm_serial\<close> returns claims completion
  exactly when the expected mode is positive and no error was recorded.
\<close>

theorem vm_complete_iff:
  assumes "parse_vm_serial repr serial mode = Inr rep"
  shows "vm_complete rep \<longleftrightarrow> mode = POSITIVE \<and> vm_errors rep = []"
proof (cases "mode = POSITIVE \<and> vm_errors rep = []")
  case True
  with assms positive_accepted [of repr serial rep] show ?thesis by blast
next
  case False
  then show ?thesis using assms by (auto simp: parse_vm_serial_def Let_def exc_simps split: if_splits)
qed

end
