(* ===== verification/VM_Witness.thy ===== *)
theory VM_Witness
  imports VM_Accept VM_Negative
begin

unbundle bit_operations_syntax

text \<open>The negative samples are accepted, and the properties of the VM verifier hold at the samples.\<close>

section \<open>The negative samples\<close>

lemma negative_faults: "list_all (\<lambda>(stage, _). m (c, stage) = None) PFEC \<Longrightarrow> check_faults c m bl = Inr (bl, [])"
  by (simp add: check_faults_def PFEC_def check_fault_def)

lemma negative_cycle:
  assumes "m (1, py ''control'') = Some t_control" "m (1, py ''template'') = Some t_template"
    "m (1, py ''construct'') = Some t_construct" "m (1, py ''walk'') = Some t_walk"
    "m (1, py ''switch'') = Some t_switch \<or> m (1, py ''switch'') = Some t_skipped"
    "m (1, py ''content'') = Some t_content \<or> m (1, py ''content'') = None"
    "m (1, py ''restore'') = None" "m (1, py ''destroy'') = None"
    "list_all (\<lambda>(stage, _). m (1, stage) = None) PFEC"
  shows "check_cycle False m cs (init_baseline, []) 1 = Inr (sample_baseline [], [])"
proof -
  obtain g_sw where sw: "parse_stage False 1 ''switch'' SWITCH_RE m = (Some g_sw, [])" "g_sw = g_switch \<or> g_sw = g_skipped"
    using assms(5) unfolding parse_stage_def by (auto simp: field_groups)
  obtain g_ct where ct: "parse_stage False 1 ''content'' CONTENT_RE m = (g_ct, [])"
    using assms(6) unfolding parse_stage_def by (auto simp: field_groups unless_def)
  have ps: "parse_stage False 1 ''control'' CONTROL_RE m = (Some g_control, [])"
    "parse_stage False 1 ''construct'' CONSTRUCT_RE m = (Some g_construct, [])"
    "parse_stage False 1 ''walk'' WALK_RE m = (Some g_walk, [])"
    "parse_stage False 1 ''template'' TEMPLATE_RE m = (Some g_template, [])"
    "parse_stage False 1 ''restore'' SWITCH_RE m = (None, [])"
    "parse_stage False 1 ''destroy'' DESTROY_RE m = (None, [])"
    using assms(1-4,7,8) unfolding parse_stage_def by (simp_all only: field_groups option.case unless_def simp_thms if_True)
  let ?bl1 = "init_baseline\<lparr>bl_pmm := Some s_pmm, bl_cr3 := Some (group g_control 1)\<rparr>"
  have ctl: "check_control 1 g_control (Some g_template) None None init_baseline = Inr (?bl1, [])"
    by (subst control_sample) (simp_all add: init_baseline_def)
  have tpl: "check_template 1 g_template (Some 0x300000) ?bl1 = (sample_baseline [], [])"
    by (subst template_sample) (simp_all add: init_baseline_def sample_baseline_def)
  have con: "check_construct False 1 g_construct (Some g_sw) (Some 0x300000) = Inr []"
    using sw(2) by (intro construct_sample) auto
  show ?thesis
    unfolding check_cycle_def prod.case ps sw ct Let_def option.case option.map kernel_root_sample ctl ebind_simps tpl con
      walk_sample negative_faults [OF assms(9)]
    by simp
qed

lemma negative_semantics:
  assumes "distinct (map (fst \<circ> cycle_key) cs)" "check_fixtures False fs = []"
    "check_cycle False (map_of (map cycle_key cs)) cs (init_baseline, []) 1 = Inr (sample_baseline [], [])"
  shows "check_cycle_semantics fs cs False = Inr []"
  unfolding check_cycle_semantics_def collect_sample [OF assms(1)] prod.case Let_def if_False efold.simps assms(2,3) ebind_simps
  by (simp add: sample_baseline_def)

lemma skip_switch_semantics:
  "check_cycle_semantics (v_fixtures skip_switch_scan) (v_cycles skip_switch_scan) False = Inr []"
proof (rule negative_semantics)
  show "distinct (map (fst \<circ> cycle_key) (v_cycles skip_switch_scan))"
    by (simp add: skip_switch_scan_def cycle_key_def)
  show "check_fixtures False (v_fixtures skip_switch_scan) = []"
    by (simp add: check_fixtures_def skip_switch_scan_def FIXTURE_LEN_def FIXTURE_SHA256_def sha1_def)
  show "check_cycle False (map_of (map cycle_key (v_cycles skip_switch_scan))) (v_cycles skip_switch_scan) (init_baseline, []) 1 =
      Inr (sample_baseline [], [])"
    by (rule negative_cycle) (simp_all add: skip_switch_scan_def cycle_key_def PFEC_def)
qed

lemma writable_ro_semantics:
  "check_cycle_semantics (v_fixtures writable_ro_scan) (v_cycles writable_ro_scan) False = Inr []"
proof (rule negative_semantics)
  show "distinct (map (fst \<circ> cycle_key) (v_cycles writable_ro_scan))"
    by (simp add: writable_ro_scan_def cycle_key_def)
  show "check_fixtures False (v_fixtures writable_ro_scan) = []"
    by (simp add: check_fixtures_def writable_ro_scan_def FIXTURE_LEN_def FIXTURE_SHA256_def sha1_def)
  show "check_cycle False (map_of (map cycle_key (v_cycles writable_ro_scan))) (v_cycles writable_ro_scan) (init_baseline, []) 1 =
      Inr (sample_baseline [], [])"
    by (rule negative_cycle) (simp_all add: writable_ro_scan_def cycle_key_def PFEC_def)
qed

lemma negative_base:
  assumes "splitlines s = ls @ [EXIT_VM]"
  shows "transcript_errors (parse_serial s) \<noteq> []"
proof -
  have "last (events s) = Contradiction" by (simp add: events_def assms classify_exit)
  then show ?thesis unfolding parse_serial_events by auto
qed

lemma stage_index_N6: "i < 16 \<Longrightarrow> stage_index N6_MARKERS (MARKERS ! i) = Some i"
proof -
  assume i: "i < 16"
  have "marker_line (N6_MARKERS ! i) (MARKERS ! i)" using i by (simp add: N6_MARKERS_def MARKERS_marker_line)
  moreover have "j = i" if "j < 16" "marker_line (N6_MARKERS ! j) (MARKERS ! i)" for j
    using marker_line_unique [of j "MARKERS ! i" i] that i by (simp add: N6_MARKERS_def MARKERS_marker_line)
  ultimately show ?thesis
    using i unfolding stage_index_def marker_re_iff by (intro first_index_unique) auto
qed

lemma n6_fold_sample:
  "k \<le> 16 \<Longrightarrow> foldl n6_step (0, 0, []) (numbered (map (\<lambda>i. MARKERS ! i) [0..<k])) = (k, k, [])"
proof (induction k)
  case (Suc k)
  then show ?case by (simp add: n6_step_def stage_index_N6 advance_def)
qed simp

lemma n6_prefix_sample:
  assumes "ls = n6_lines @ l # rest"
  shows "check_n6_prefix ls [(17, m)] = []"
proof -
  have len: "length n6_lines = 16" by (simp add: n6_lines_def)
  have split: "numbered ls = numbered n6_lines @ List.enumerate 17 (l # rest)"
    by (simp add: assms numbered_def enumerate_append_eq len)
  have "takeWhile (\<lambda>(n, _). n < 17) (numbered ls) = numbered n6_lines"
    unfolding split by (subst takeWhile_append2) (auto simp: in_numbered len)
  moreover have "foldl n6_step (0, 0, []) (numbered n6_lines) = (16, 16, [])"
  proof -
    have "n6_lines = map (\<lambda>i. MARKERS ! i) [0..<16]" unfolding n6_lines_def by (rule arg_cong) code_simp
    then show ?thesis using n6_fold_sample [of 16] by (simp only:)
  qed
  ultimately show ?thesis by (simp add: check_n6_prefix_def)
qed

lemma skipped_switch: "re_fullmatch SWITCH_RE t_skipped = Some g_skipped" "re_fullmatch CONTROL_RE t_control = Some g_control"
  "re_fullmatch SWITCH_RE t_switch = Some g_switch"
  by (rule field_groups)+

lemma skip_switch_observed: "check_skip_switch_observed (v_cycles skip_switch_scan) = []"
proof -
  have f: "stage_fields 1 (py ''switch'') (v_cycles skip_switch_scan) = [t_skipped]"
    "stage_fields 1 (py ''control'') (v_cycles skip_switch_scan) = [t_control]"
    by (simp_all add: stage_fields_def skip_switch_scan_def)
  have h: "hex64 (group g_skipped 1) = 0xabc000" "hex64 (group g_skipped 2) = 0x300000" "group g_skipped 1 \<noteq> group g_skipped 2"
    by (simp_all add: g_skipped_def hex64_eval)
  show ?thesis
    unfolding check_skip_switch_observed_def f skipped_switch list.case option.case Let_def h kernel_root_sample
    by (simp add: frame_values h del: One_nat_def)
qed

lemma skip_switch_sequence: "check_negative_sequence SKIP_SWITCH skip_switch_scan = []"
proof -
  have req: "required_stages SKIP_SWITCH = [py ''control'', py ''template'', py ''construct'', py ''walk'', py ''switch'']"
    by (simp add: required_stages_def)
  have names: "map snd (map (\<lambda>(n, _, s, _). (n, s)) (filter (\<lambda>(_, c, _, _). c = 1) (v_cycles skip_switch_scan))) =
      required_stages SKIP_SWITCH"
    unfolding req by (simp add: skip_switch_scan_def)
  have stages: "check_mode_stages SKIP_SWITCH (required_stages SKIP_SWITCH) (v_cycles skip_switch_scan) = []"
    unfolding check_mode_stages_def skip_switch_observed req by (simp add: skip_switch_observed)
  show ?thesis
    unfolding check_negative_sequence_def Let_def names stages unfolding want_negative_def req
    by (simp add: skip_switch_scan_def negative_events_def fixture_marks_def stage_marks_def first_of_def)
qed

lemma writable_ro_sequence: "check_negative_sequence WRITABLE_RO writable_ro_scan = []"
proof -
  have req: "required_stages WRITABLE_RO =
      [py ''control'', py ''template'', py ''construct'', py ''walk'', py ''switch'', py ''content'']"
    by (simp add: required_stages_def MODES_def)
  have names: "map snd (map (\<lambda>(n, _, s, _). (n, s)) (filter (\<lambda>(_, c, _, _). c = 1) (v_cycles writable_ro_scan))) =
      required_stages WRITABLE_RO"
    unfolding req by (simp add: writable_ro_scan_def)
  have f: "stage_fields 1 (py ''switch'') (v_cycles writable_ro_scan) = [t_switch]"
    by (simp add: stage_fields_def writable_ro_scan_def)
  have "group g_switch 1 = group g_switch 2" by (simp add: g_switch_def)
  then have stages: "check_mode_stages WRITABLE_RO (required_stages WRITABLE_RO) (v_cycles writable_ro_scan) = []"
    unfolding check_mode_stages_def f skipped_switch list.case option.case
    by (simp add: req) (simp add: MODES_def)
  show ?thesis
    unfolding check_negative_sequence_def Let_def names stages unfolding want_negative_def req
    by (simp add: writable_ro_scan_def negative_events_def fixture_marks_def stage_marks_def first_of_def)
qed

lemma skip_switch_accepted:
  "\<exists>rep. parse_vm_serial repr (as_text skip_switch_lines) SKIP_SWITCH = Inr rep \<and> vm_errors rep = []"
proof -
  have sp: "splitlines (as_text skip_switch_lines) = (n6_lines @ [l_start ''skip-switch''] @ construct_lines CHR ''1'' sha1 @
     [l_stage CHR ''1'' ''switch'' t_skipped, l_skip_fail]) @ [EXIT_VM]"
    unfolding splits_sample by (simp add: skip_switch_lines_def)
  have n6: "check_n6_prefix skip_switch_lines [(17, SKIP_SWITCH)] = []"
    by (rule n6_prefix_sample) (simp add: skip_switch_lines_def)
  have starts: "v_starts skip_switch_scan = [(17, SKIP_SWITCH)]" by (simp add: skip_switch_scan_def MODES_def)
  have rest: "check_starts SKIP_SWITCH skip_switch_scan = []" "v_errors skip_switch_scan = []"
    by (simp_all add: check_starts_def starts) (simp add: skip_switch_scan_def)
  have fl: "check_fail_line SKIP_SWITCH (hd (v_fails skip_switch_scan)) = []"
    by (simp add: check_fail_line_def skip_switch_scan_def expected_stage_def) (simp add: MODES_def)
  have "check_negative SKIP_SWITCH (parse_serial (as_text skip_switch_lines)) skip_switch_lines skip_switch_scan = Inr []"
    unfolding check_negative_def skip_switch_semantics ebind_simps skip_switch_sequence starts n6
    using negative_base [OF sp] fl by (simp add: skip_switch_scan_def EXIT_VM_def EXIT_OK_def)
  then show ?thesis
    using rest by (simp add: parse_vm_serial_def splits_sample skip_switch_scanned Let_def) (simp add: MODES_def)
qed

lemma writable_ro_accepted:
  "\<exists>rep. parse_vm_serial repr (as_text writable_ro_lines) WRITABLE_RO = Inr rep \<and> vm_errors rep = []"
proof -
  have sp: "splitlines (as_text writable_ro_lines) = (n6_lines @ [l_start ''writable-ro''] @ construct_lines CHR ''1'' sha1 @
     [l_stage CHR ''1'' ''switch'' t_switch, l_stage CHR ''1'' ''content'' t_content, l_ro_fail]) @ [EXIT_VM]"
    unfolding splits_sample by (simp add: writable_ro_lines_def)
  have n6: "check_n6_prefix writable_ro_lines [(17, WRITABLE_RO)] = []"
    by (rule n6_prefix_sample) (simp add: writable_ro_lines_def)
  have starts: "v_starts writable_ro_scan = [(17, WRITABLE_RO)]" by (simp add: writable_ro_scan_def MODES_def)
  have rest: "check_starts WRITABLE_RO writable_ro_scan = []" "v_errors writable_ro_scan = []"
    by (simp_all add: check_starts_def starts) (simp add: writable_ro_scan_def)
  have fl: "check_fail_line WRITABLE_RO (hd (v_fails writable_ro_scan)) = []"
    by (simp add: check_fail_line_def writable_ro_scan_def expected_stage_def) (simp add: MODES_def)
  have "check_negative WRITABLE_RO (parse_serial (as_text writable_ro_lines)) writable_ro_lines writable_ro_scan = Inr []"
    unfolding check_negative_def writable_ro_semantics ebind_simps writable_ro_sequence starts n6
    using negative_base [OF sp] fl by (simp add: writable_ro_scan_def EXIT_VM_def EXIT_OK_def)
  then show ?thesis
    using rest by (simp add: parse_vm_serial_def splits_sample writable_ro_scanned Let_def) (simp add: MODES_def)
qed

section \<open>Witnesses\<close>

theorem positive_run_protocol_witness: "\<exists>k. protocol (as_text positive_lines) = complete_run k"
  using positive_sample_accepted positive_run_protocol by blast

theorem positive_run_restores_witness:
  "\<exists>rep pmm cr3 p1 p2. parses (report_field rep) 1 p1 \<and> parses (report_field rep) 2 p2 \<and>
    restored pmm cr3 p1 \<and> restored pmm cr3 p2"
  using positive_sample_accepted positive_run_restores by metis

theorem positive_run_isolated_witness:
  "\<exists>rep pdpt p1 p2. parses (report_field rep) 1 p1 \<and> parses (report_field rep) 2 p2 \<and>
    isolated pdpt p1 \<and> isolated pdpt p2"
  using positive_sample_accepted positive_run_isolated by metis

theorem positive_run_faults_witness:
  "\<exists>rep gens1 gens2. faults_expected (report_field rep) 1 gens1 \<and> faults_expected (report_field rep) 2 gens2 \<and>
    length (gens1 @ gens2) = 10 \<and> sorted_wrt (<) (gens1 @ gens2)"
  using positive_sample_accepted positive_run_faults by metis

theorem negative_run_protocol_witness:
  "List.map_filter negative_class (splitlines (as_text skip_switch_lines)) = failed_run SKIP_SWITCH"
  using skip_switch_accepted [of "\<lambda>_. []"] negative_run_protocol [of "\<lambda>_. []" _ SKIP_SWITCH]
  by (auto simp: negative_mode_def)

theorem negative_run_root_witness:
  "\<exists>(rep :: vm_report) f s. (1, py ''switch'', f) \<in> set (vr_cycles rep) \<and> re_fullmatch SWITCH_RE f = Some s \<and>
    hex64 (group s 2) \<noteq> hex64 (group s 1)"
proof -
  obtain rep where "parse_vm_serial (\<lambda>_. []) (as_text skip_switch_lines) SKIP_SWITCH = Inr rep" "vm_errors rep = []"
    using skip_switch_accepted by blast
  from negative_run_root [OF this] show ?thesis unfolding negative_mode_def if_P [OF refl] by blast
qed


theorem vm_complete_iff_witness:
  "\<exists>rep. parse_vm_serial (\<lambda>_. []) (as_text positive_lines) POSITIVE = Inr rep \<and> vm_complete rep"
  using positive_sample_accepted [of "\<lambda>_. []"] vm_complete_iff by metis

end
