(* ===== verification/Host.thy ===== *)
theory Host
  imports Transcript Esp_Verify
begin

text \<open>
  The host of the qualification scripts. An action takes the state of a run (the effects
  attempted so far, the evidence report, and the two locals of \<open>run_boot\<close> that its \<open>finally\<close>
  block reads) to an exception or a value and the state reached. What a command, a file
  system call or a JSON document answers is a field of \<open>world\<close> and may depend on every effect
  attempted before it; whatever can raise answers with a value or an exception. The theory ends with two ways of
  reasoning about actions: what they leave alone (\<open>quiet\<close>, \<open>logs\<close>, \<open>keeps\<close>, \<open>onward\<close>) and what a run without a
  new error went through (\<open>clean\<close>).
\<close>

named_theorems own_rules \<open>actions that keep a view of the report\<close>
named_theorems onward_rules \<open>actions that extend the trace without copying a file\<close>
named_theorems quiet_rules \<open>actions that issue no docker command\<close>
named_theorems logs_rules \<open>actions that only extend the list of errors\<close>
named_theorems clean_rules \<open>inversion of runs that add no error\<close>

section \<open>Strings\<close>

text \<open>Python's \<open>str.isspace\<close>, used by \<open>strip\<close> and \<open>split\<close>.\<close>

definition is_space :: "pychar \<Rightarrow> bool" where
  "is_space c \<longleftrightarrow> (let n = code_of c in
     9 \<le> n \<and> n \<le> 13 \<or> 28 \<le> n \<and> n \<le> 32 \<or> n = 0x85 \<or> n = 0xA0 \<or> n = 0x1680 \<or>
     0x2000 \<le> n \<and> n \<le> 0x200A \<or> n = 0x2028 \<or> n = 0x2029 \<or> n = 0x202F \<or> n = 0x205F \<or> n = 0x3000)"

definition strip :: "pystr \<Rightarrow> pystr" where
  "strip s = rstrip_by is_space (dropWhile is_space s)"

fun split_spaces :: "pystr \<Rightarrow> pystr list" where
  "split_spaces [] = []"
| "split_spaces (c # cs) =
     (if is_space c then split_spaces cs
      else (case cs of
              [] \<Rightarrow> [[c]]
            | d # _ \<Rightarrow> if is_space d then [c] # split_spaces cs
                else (case split_spaces cs of [] \<Rightarrow> [[c]] | w # ws \<Rightarrow> (c # w) # ws)))"

definition lower_char :: "pychar \<Rightarrow> pychar" where
  "lower_char c = (if 65 \<le> code_of c \<and> code_of c \<le> 90 then Ch (char_of (code_of c + 32)) else c)"

text \<open>\<open>str.lower\<close> of ASCII text; the Unicode tables for other text are the parameter \<open>other\<close>.\<close>

definition str_lower :: "(pystr \<Rightarrow> pystr) \<Rightarrow> pystr \<Rightarrow> pystr" where
  "str_lower other s = (if list_all is_ascii s then map lower_char s else other s)"

definition show_int :: "int \<Rightarrow> pystr" where
  "show_int n = (if n < 0 then py ''-'' @ show_nat (nat (- n)) else show_nat (nat n))"

definition show_opt :: "pystr option \<Rightarrow> pystr" where
  "show_opt x = (case x of None \<Rightarrow> py ''None'' | Some s \<Rightarrow> s)"

definition hexdigits :: pystr where "hexdigits = py ''0123456789abcdef''"

section \<open>Exceptions\<close>

text \<open>What a \<open>TimeoutExpired\<close> holds of the output of a process.\<close>

datatype captured = CNone | CText pystr | CBytes bytes

datatype pexc =
    Unavailable pystr
  | Failed pystr
  | FileNotFoundError pystr
  | TimeoutExpired pystr captured captured
  | OSErrorOther pystr pystr
  | OtherException pystr pystr

fun exc_name :: "pexc \<Rightarrow> pystr" where
  "exc_name (Unavailable m) = py ''Unavailable''"
| "exc_name (Failed m) = py ''Failed''"
| "exc_name (FileNotFoundError m) = py ''FileNotFoundError''"
| "exc_name (TimeoutExpired m out err) = py ''TimeoutExpired''"
| "exc_name (OSErrorOther n m) = n"
| "exc_name (OtherException n m) = n"

fun exc_text :: "pexc \<Rightarrow> pystr" where
  "exc_text (Unavailable m) = m"
| "exc_text (Failed m) = m"
| "exc_text (FileNotFoundError m) = m"
| "exc_text (TimeoutExpired m out err) = m"
| "exc_text (OSErrorOther n m) = m"
| "exc_text (OtherException n m) = m"

text \<open>\<open>type(exc).__name__ + ": " + str(exc)\<close>.\<close>

definition described :: "pexc \<Rightarrow> pystr" where
  "described e = exc_name e @ py '': '' @ exc_text e"

section \<open>The report\<close>

text \<open>What \<open>docker inspect\<close> documents of a container: strings, and labels from names to strings.\<close>

record inspect_item =
  i_id :: "pystr option"
  i_name :: "pystr option"
  i_image :: "pystr option"
  i_labels :: "pystr \<Rightarrow> pystr option"

text \<open>
  The parsed \<open>.State\<close> document: a dictionary with its \<open>ExitCode\<close>, or another JSON value with its
  truth value and the text of the \<open>AttributeError\<close> that \<open>.get\<close> raises on it.
\<close>

datatype inspect_doc = OneRecord inspect_item | NotOneRecord
datatype state_doc = StateDict "int option" | NotADict bool pystr

datatype reconciliation =
    Unresolved_exit int pystr
  | Recovered pystr
  | OwnershipMismatch pystr
  | Unresolved_error pystr

datatype verdict = Verdict_pass | Verdict_fail | Verdict_unavailable

text \<open>
  The keys \<open>run_boot\<close> reads and writes. The dictionary is shared by the scripts, whose own keys
  extend the record. A key that can be absent has an option type.
\<close>

record boot_report =
  k_errors :: "pystr list"
  k_linux_replacement_qualified :: bool
  k_scope :: pystr
  k_creation_identity :: "(pystr \<times> pystr \<times> pystr) option"
  k_expected_markers :: "pystr list"
  k_kernel_entry_observed :: "bool option"
  k_qemu_accel :: "pystr option"
  k_docker_host :: "pystr option"
  k_docker_config :: "pystr option"
  k_verifier_image :: "pystr option"
  k_verifier_image_ref :: "pystr option"
  k_guest_command :: "pystr option"
  k_owned_container_id :: "pystr option"
  k_launched :: bool
  k_attach_attempted :: bool
  k_attach_timed_out :: bool
  k_docker_start_exit_code :: "int option"
  k_firmware_sha256 :: "(pystr \<Rightarrow> pystr option) option"
  k_container_state :: "state_doc option"
  k_cleanup :: "(pystr \<times> int) option"
  k_creation_ownership_unresolved :: "bool option"
  k_creation_reconciliation :: "reconciliation option"
  k_serial_sha256 :: "pystr option"
  k_transcript :: "base_report option"
  k_inputs :: "(pystr \<Rightarrow> (nat \<times> pystr) option) option"
  k_esp_unchanged :: "bool option"

text \<open>\<open>report.get(key, {})\<close> for a dictionary stored under a key.\<close>

definition given :: "('k \<Rightarrow> 'v option) option \<Rightarrow> 'k \<Rightarrow> 'v option" where
  "given m = (case m of None \<Rightarrow> Map.empty | Some f \<Rightarrow> f)"

section \<open>The world\<close>

record process =
  returncode :: int
  stdout :: pystr
  stderr :: pystr

type_synonym command = "pystr list"
type_synonym environ = "pystr \<Rightarrow> pystr option"

datatype effect =
    Docker command
  | RunTool command
  | MakeDir pystr
  | CopyFile pystr pystr
  | WriteText pystr pystr

type_synonym trace = "effect list"

record world =
  w_docker :: "trace \<Rightarrow> command \<Rightarrow> environ \<Rightarrow> int \<Rightarrow> pexc + process"
  w_tool :: "trace \<Rightarrow> command \<Rightarrow> pexc + process"
  w_mkdir :: "trace \<Rightarrow> pystr \<Rightarrow> pexc option"
  w_copy :: "trace \<Rightarrow> pystr \<Rightarrow> pystr \<Rightarrow> pexc option"
  w_write :: "trace \<Rightarrow> pystr \<Rightarrow> pystr \<Rightarrow> pexc option"
  w_exists :: "trace \<Rightarrow> pystr \<Rightarrow> pexc + bool"
  w_is_file :: "trace \<Rightarrow> pystr \<Rightarrow> pexc + bool"
  w_is_dir :: "trace \<Rightarrow> pystr \<Rightarrow> pexc + bool"
  w_read_text :: "trace \<Rightarrow> pystr \<Rightarrow> pexc + pystr"
  w_read_bytes :: "trace \<Rightarrow> pystr \<Rightarrow> pexc + bytes"
  w_iterdir :: "trace \<Rightarrow> pystr \<Rightarrow> pexc + pystr list"
  w_stat_size :: "trace \<Rightarrow> pystr \<Rightarrow> pexc + nat"
  w_resolve :: "pystr \<Rightarrow> pexc + pystr"
  w_is_absolute :: "pystr \<Rightarrow> bool"
  w_cwd :: "pexc + pystr"
  w_nt :: bool
  w_drive :: "pystr \<Rightarrow> pystr"
  w_join :: "pystr \<Rightarrow> pystr \<Rightarrow> pystr"
  w_parent :: "pystr \<Rightarrow> pystr"
  w_sha :: "bytes \<Rightarrow> pystr"
  w_environ :: environ
  w_uuid :: pystr
  w_run_stamp :: pystr
  w_inspect_json :: "pystr \<Rightarrow> pexc + inspect_doc"
  w_state_json :: "pystr \<Rightarrow> pexc + state_doc"
  w_lower :: "pystr \<Rightarrow> pystr"
  w_utf8 :: "bytes \<Rightarrow> pystr"
  w_repr :: "pystr \<Rightarrow> pystr"
  w_str :: "exc \<Rightarrow> pystr"
  w_limit_text :: "value_error \<Rightarrow> pystr"
  w_dumps_binding :: "esp_report \<Rightarrow> pystr"

section \<open>Actions\<close>

record 'm pst =
  p_trace :: trace
  p_report :: "'m boot_report_scheme"
  p_cid :: "pystr option"
  p_create_attempted :: bool

type_synonym ('m, 'a) act = "'m pst \<Rightarrow> (pexc + 'a) \<times> 'm pst"

definition ret :: "'a \<Rightarrow> ('m, 'a) act" where "ret x s = (Inr x, s)"
definition raise :: "pexc \<Rightarrow> ('m, 'a) act" where "raise e s = (Inl e, s)"
definition lift :: "pexc + 'a \<Rightarrow> ('m, 'a) act" where "lift r s = (r, s)"

definition bnd :: "('m, 'a) act \<Rightarrow> ('a \<Rightarrow> ('m, 'b) act) \<Rightarrow> ('m, 'b) act" where
  "bnd m f s = (case m s of (r, s') \<Rightarrow> (case r of Inl e \<Rightarrow> (Inl e, s') | Inr x \<Rightarrow> f x s'))"

definition andthen :: "('m, unit) act \<Rightarrow> ('m, 'b) act \<Rightarrow> ('m, 'b) act" where
  "andthen m n = bnd m (\<lambda>_. n)"

definition upd :: "('m boot_report_scheme \<Rightarrow> 'm boot_report_scheme) \<Rightarrow> ('m, unit) act" where
  "upd f s = (Inr (), s\<lparr>p_report := f (p_report s)\<rparr>)"

definition log_error :: "pystr \<Rightarrow> ('m, unit) act" where
  "log_error msg s = (Inr (), s\<lparr>p_report := (p_report s)\<lparr>k_errors := k_errors (p_report s) @ [msg]\<rparr>\<rparr>)"

definition asking :: "('m pst \<Rightarrow> 'a) \<Rightarrow> ('m, 'a) act" where "asking f s = (Inr (f s), s)"

definition set_cid :: "pystr option \<Rightarrow> ('m, unit) act" where
  "set_cid c s = (Inr (), s\<lparr>p_cid := c\<rparr>)"

definition set_create_attempted :: "bool \<Rightarrow> ('m, unit) act" where
  "set_create_attempted b s = (Inr (), s\<lparr>p_create_attempted := b\<rparr>)"

text \<open>\<open>try: m except Exception as exc: h(exc)\<close> and \<open>try: m finally: f\<close>.\<close>

definition catch :: "('m, 'a) act \<Rightarrow> (pexc \<Rightarrow> ('m, 'a) act) \<Rightarrow> ('m, 'a) act" where
  "catch m h s = (case m s of (r, s') \<Rightarrow> (case r of Inl e \<Rightarrow> h e s' | Inr x \<Rightarrow> (Inr x, s')))"

definition finally_do :: "('m, 'a) act \<Rightarrow> ('m, unit) act \<Rightarrow> ('m, 'a) act" where
  "finally_do m f s = (case m s of (r, s') \<Rightarrow> (case f s' of (q, s'') \<Rightarrow>
     (case q of Inl e \<Rightarrow> (Inl e, s'') | Inr _ \<Rightarrow> (r, s''))))"

text \<open>An effect is attempted, and the world answers for the trace before it.\<close>

definition perform :: "effect \<Rightarrow> (trace \<Rightarrow> pexc + 'a) \<Rightarrow> ('m, 'a) act" where
  "perform ev answer s = (answer (p_trace s), s\<lparr>p_trace := p_trace s @ [ev]\<rparr>)"

definition refused :: "pexc option \<Rightarrow> pexc + unit" where
  "refused x = (case x of None \<Rightarrow> Inr () | Some e \<Rightarrow> Inl e)"

definition look :: "(trace \<Rightarrow> pexc + 'a) \<Rightarrow> ('m, 'a) act" where
  "look answer s = (answer (p_trace s), s)"

definition write_text :: "world \<Rightarrow> pystr \<Rightarrow> pystr \<Rightarrow> ('m, unit) act" where
  "write_text w path text = perform (WriteText path text) (\<lambda>tr. refused (w_write w tr path text))"

definition exists_path :: "world \<Rightarrow> pystr \<Rightarrow> ('m, bool) act" where
  "exists_path w path = look (\<lambda>tr. w_exists w tr path)"

definition read_text :: "world \<Rightarrow> pystr \<Rightarrow> ('m, pystr) act" where
  "read_text w path = look (\<lambda>tr. w_read_text w tr path)"

definition digest :: "world \<Rightarrow> pystr \<Rightarrow> ('m, pystr) act" where
  "digest w path = look (\<lambda>tr. map_sum id (w_sha w) (w_read_bytes w tr path))"

section \<open>What every step of an action respects\<close>

text \<open>
  Statements of the form "every run of the action relates the state before to the state after" compose
  along the combinators whenever the relation is reflexive and transitive. The relations of interest are
  interpretations of this locale: no docker command is issued (\<open>control\<close>), errors are only appended
  (\<open>growth\<close>), a view of the report is kept (\<open>view\<close>), and the trace is only extended (\<open>time\<close>).
\<close>

definition conforms :: "('m pst \<Rightarrow> 'm pst \<Rightarrow> bool) \<Rightarrow> ('m, 'a) act \<Rightarrow> bool" where
  "conforms R m \<longleftrightarrow> (\<forall>s. R s (snd (m s)))"

lemma conformsD: "conforms R m \<Longrightarrow> m s = (r, s') \<Longrightarrow> R s s'"
  by (metis conforms_def snd_conv)

locale step_relation =
  fixes R :: "'m pst \<Rightarrow> 'm pst \<Rightarrow> bool"
  assumes step_refl: "R s s"
    and step_trans: "R s t \<Longrightarrow> R t u \<Longrightarrow> R s u"
begin

lemma step_observations:
  "conforms R (ret x)" "conforms R (raise e)" "conforms R (lift r)" "conforms R (asking g)" "conforms R (look a)"
  "conforms R (exists_path w p)" "conforms R (read_text w p)" "conforms R (digest w p)"
  by (simp_all add: conforms_def ret_def raise_def lift_def asking_def look_def exists_path_def read_text_def digest_def step_refl)

lemma step_bnd: "conforms R m \<Longrightarrow> (\<And>x. conforms R (f x)) \<Longrightarrow> conforms R (bnd m f)"
  unfolding conforms_def bnd_def by (auto split: prod.splits sum.splits) (metis step_trans snd_conv)+

lemma step_andthen: "conforms R m \<Longrightarrow> conforms R n \<Longrightarrow> conforms R (andthen m n)"
  unfolding andthen_def by (rule step_bnd)

lemma step_catch: "conforms R m \<Longrightarrow> (\<And>e. conforms R (h e)) \<Longrightarrow> conforms R (catch m h)"
  unfolding conforms_def catch_def by (auto split: prod.splits sum.splits) (metis step_trans snd_conv)+

lemma step_finally: "conforms R m \<Longrightarrow> conforms R f \<Longrightarrow> conforms R (finally_do m f)"
  unfolding conforms_def finally_do_def by (auto split: prod.splits sum.splits) (metis step_trans snd_conv)+

end

section \<open>Actions without docker commands\<close>

definition dockers :: "trace \<Rightarrow> command list" where
  "dockers tr = concat (map (\<lambda>ev. case ev of Docker c \<Rightarrow> [c] | _ \<Rightarrow> []) tr)"

lemma dockers_simps [simp]:
  "dockers [] = []" "dockers (tr @ tr') = dockers tr @ dockers tr'"
  "dockers [Docker c] = [c]" "dockers [WriteText p t] = []" "dockers [RunTool c] = []"
  "dockers [MakeDir p] = []" "dockers [CopyFile p q] = []"
  by (simp_all add: dockers_def)

definition same_control :: "'m pst \<Rightarrow> 'm pst \<Rightarrow> bool" where
  "same_control s s' \<longleftrightarrow> dockers (p_trace s') = dockers (p_trace s) \<and> p_cid s' = p_cid s \<and>
     p_create_attempted s' = p_create_attempted s"

definition quiet :: "('m, 'a) act \<Rightarrow> bool" where
  "quiet = conforms same_control"

lemma same_control_refl [simp]: "same_control s s"
  by (simp add: same_control_def)

lemma same_control_report [simp]: "same_control s (s\<lparr>p_report := r\<rparr>)"
  by (simp add: same_control_def)

interpretation control: step_relation same_control
  by unfold_locales (auto simp: same_control_def)

lemmas same_control_trans = control.step_trans

lemma quiet_conforms: "conforms same_control m \<Longrightarrow> quiet m"
  by (simp add: quiet_def)

lemma quietD: "quiet m \<Longrightarrow> m s = (r, s') \<Longrightarrow> same_control s s'"
  unfolding quiet_def by (rule conformsD)

lemma quiet_basic [quiet_rules]:
  "quiet (ret x)" "quiet (raise e)" "quiet (lift r)" "quiet (upd f)" "quiet (log_error msg)"
  "quiet (asking g)" "quiet (look a)" "quiet (exists_path w p)" "quiet (read_text w p)" "quiet (digest w p)"
  "quiet (write_text w p t)"
  by (auto intro: quiet_conforms control.step_observations)
     (auto simp: quiet_def conforms_def upd_def log_error_def write_text_def perform_def same_control_def)

lemmas quiet_compose [quiet_rules] =
  control.step_bnd [folded quiet_def] control.step_andthen [folded quiet_def] control.step_catch [folded quiet_def]

lemma quiet_if [quiet_rules]: "quiet m \<Longrightarrow> quiet n \<Longrightarrow> quiet (if b then m else n)"
  by simp

section \<open>Actions that only extend the errors\<close>

definition errs :: "'m pst \<Rightarrow> pystr list" where
  "errs s = k_errors (p_report s)"

definition extends :: "'m pst \<Rightarrow> 'm pst \<Rightarrow> bool" where
  "extends s s' \<longleftrightarrow> (\<exists>es. errs s' = errs s @ es)"

definition logs :: "('m, 'a) act \<Rightarrow> bool" where
  "logs = conforms extends"

interpretation growth: step_relation extends
  by unfold_locales (auto simp: extends_def)

lemmas extends_refl [simp] = growth.step_refl
lemmas extends_trans = growth.step_trans

lemma extends_squeeze: "extends s t \<Longrightarrow> extends t u \<Longrightarrow> errs u = errs s \<Longrightarrow> errs t = errs s"
  unfolding extends_def by (elim exE) simp

lemma logs_conforms: "conforms extends m \<Longrightarrow> logs m"
  by (simp add: logs_def)

lemma logsD: "logs m \<Longrightarrow> m s = (r, s') \<Longrightarrow> extends s s'"
  unfolding logs_def by (rule conformsD)

lemma logs_basic [logs_rules]:
  "logs (ret x)" "logs (raise e)" "logs (lift r)" "logs (log_error msg)"
  "logs (asking g)" "logs (look a)" "logs (exists_path w p)" "logs (read_text w p)" "logs (digest w p)"
  "logs (write_text w p t)" "logs (set_cid c)" "logs (set_create_attempted b)" "logs (perform ev ans)"
  by (auto intro: logs_conforms growth.step_observations)
     (auto simp: logs_def conforms_def extends_def errs_def log_error_def write_text_def perform_def set_cid_def
        set_create_attempted_def)

lemma logs_upd [logs_rules]: "(\<And>r. \<exists>es. k_errors (f r) = k_errors r @ es) \<Longrightarrow> logs (upd f)"
  by (simp add: logs_def conforms_def upd_def extends_def errs_def)

lemmas logs_compose [logs_rules] =
  growth.step_bnd [folded logs_def] growth.step_andthen [folded logs_def] growth.step_catch [folded logs_def]
  growth.step_finally [folded logs_def]

lemma logs_if [logs_rules]: "logs m \<Longrightarrow> logs n \<Longrightarrow> logs (if b then m else n)"
  by simp

section \<open>Actions that keep a view of the report\<close>

text \<open>\<open>keeps g m\<close>: the action does not change the view \<open>g\<close> of the report.\<close>

definition same_view :: "('m boot_report_scheme \<Rightarrow> 'v) \<Rightarrow> 'm pst \<Rightarrow> 'm pst \<Rightarrow> bool" where
  "same_view g s s' \<longleftrightarrow> g (p_report s') = g (p_report s)"

definition keeps :: "('m boot_report_scheme \<Rightarrow> 'v) \<Rightarrow> ('m, 'a) act \<Rightarrow> bool" where
  "keeps g = conforms (same_view g)"

interpretation view: step_relation "same_view g" for g
  by unfold_locales (auto simp: same_view_def)

lemma keeps_iff: "keeps g m \<longleftrightarrow> (\<forall>s. g (p_report (snd (m s))) = g (p_report s))"
  by (simp add: keeps_def conforms_def same_view_def)

lemma keepsD: "keeps g m \<Longrightarrow> m s = (r, s') \<Longrightarrow> g (p_report s') = g (p_report s)"
  unfolding keeps_def by (drule conformsD) (auto simp: same_view_def)

lemma keeps_basic [own_rules]:
  "keeps g (ret x)" "keeps g (raise e)" "keeps g (lift r)" "keeps g (asking a)" "keeps g (look b)"
  "keeps g (exists_path w p)" "keeps g (read_text w p)" "keeps g (digest w p)" "keeps g (write_text w p t)"
  "keeps g (set_cid c)" "keeps g (set_create_attempted d)" "keeps g (perform ev ans)"
  by (auto simp: keeps_def intro: view.step_observations)
     (auto simp: conforms_def same_view_def write_text_def perform_def set_cid_def set_create_attempted_def)

lemma keeps_log_error [own_rules]: "(\<And>r es. g (r\<lparr>k_errors := es\<rparr>) = g r) \<Longrightarrow> keeps g (log_error msg)"
  by (simp add: keeps_iff log_error_def)

lemma keeps_upd [own_rules]: "(\<And>r. g (f r) = g r) \<Longrightarrow> keeps g (upd f)"
  by (simp add: keeps_iff upd_def)

lemmas keeps_compose [own_rules] =
  view.step_bnd [folded keeps_def] view.step_andthen [folded keeps_def] view.step_catch [folded keeps_def]
  view.step_finally [folded keeps_def]

lemma keeps_cases [own_rules]:
  "keeps g m \<Longrightarrow> keeps g n \<Longrightarrow> keeps g (if b then m else n)"
  "keeps g m \<Longrightarrow> (\<And>y. keeps g (f y)) \<Longrightarrow> keeps g (case x of None \<Rightarrow> m | Some y \<Rightarrow> f y)"
  "(\<And>b m. keeps g (h b m)) \<Longrightarrow> (\<And>c. keeps g (k c)) \<Longrightarrow>
     keeps g (case d of NotADict b m \<Rightarrow> h b m | StateDict c \<Rightarrow> k c)"
  "keeps g m \<Longrightarrow> (\<And>i. keeps g (l i)) \<Longrightarrow> keeps g (case e of NotOneRecord \<Rightarrow> m | OneRecord i \<Rightarrow> l i)"
  "(\<And>y z. keeps g (q y z)) \<Longrightarrow> keeps g (case p of (y, z) \<Rightarrow> q y z)"
  by (simp_all split: option.split state_doc.split inspect_doc.split prod.split)

section \<open>Actions that only extend the trace\<close>

definition no_copies :: "trace \<Rightarrow> bool" where
  "no_copies tr \<longleftrightarrow> (\<forall>a b. CopyFile a b \<notin> set tr)"

definition later :: "'m pst \<Rightarrow> 'm pst \<Rightarrow> bool" where
  "later s s' \<longleftrightarrow> (\<exists>tr. p_trace s' = p_trace s @ tr \<and> no_copies tr)"

definition onward :: "('m, 'a) act \<Rightarrow> bool" where
  "onward = conforms later"

lemma no_copies_append [simp]: "no_copies (tr @ tr') \<longleftrightarrow> no_copies tr \<and> no_copies tr'"
  by (auto simp: no_copies_def)

lemma no_copies_simps [simp]:
  "no_copies []" "no_copies (Docker c # tr) = no_copies tr" "no_copies (RunTool c # tr) = no_copies tr"
  "no_copies (MakeDir p # tr) = no_copies tr" "no_copies (WriteText p t # tr) = no_copies tr"
  "\<not> no_copies (CopyFile p p' # tr)"
  by (auto simp: no_copies_def)

interpretation time: step_relation later
  by unfold_locales (auto simp: later_def)

lemma later_same: "p_trace t = p_trace s \<Longrightarrow> later s t"
  by (simp add: later_def)

lemma onwardD: "onward m \<Longrightarrow> m s = (r, s') \<Longrightarrow> later s s'"
  unfolding onward_def by (rule conformsD)

lemma onward_conforms: "conforms later m \<Longrightarrow> onward m"
  by (simp add: onward_def)

lemma onward_basic [onward_rules]:
  "onward (ret x)" "onward (raise e)" "onward (lift r)" "onward (upd f)" "onward (log_error msg)"
  "onward (asking g)" "onward (look a)" "onward (exists_path w p)" "onward (read_text w p)" "onward (digest w p)"
  "onward (write_text w p t)" "onward (set_cid c)" "onward (set_create_attempted d)"
  by (auto intro: onward_conforms time.step_observations)
     (auto simp: onward_def conforms_def upd_def log_error_def write_text_def perform_def set_cid_def
        set_create_attempted_def later_def)

lemma onward_perform [onward_rules]: "(\<And>a b. ev \<noteq> CopyFile a b) \<Longrightarrow> onward (perform ev ans)"
  by (cases ev) (auto simp: onward_def conforms_def perform_def later_def)

lemmas onward_compose [onward_rules] =
  time.step_bnd [folded onward_def] time.step_andthen [folded onward_def] time.step_catch [folded onward_def]
  time.step_finally [folded onward_def]

lemma onward_cases [onward_rules]:
  "onward m \<Longrightarrow> onward n \<Longrightarrow> onward (if b then m else n)"
  "onward m \<Longrightarrow> (\<And>y. onward (f y)) \<Longrightarrow> onward (case x of None \<Rightarrow> m | Some y \<Rightarrow> f y)"
  "(\<And>b m. onward (h b m)) \<Longrightarrow> (\<And>c. onward (k c)) \<Longrightarrow>
     onward (case d of NotADict b m \<Rightarrow> h b m | StateDict c \<Rightarrow> k c)"
  "onward m \<Longrightarrow> (\<And>i. onward (l i)) \<Longrightarrow> onward (case e of NotOneRecord \<Rightarrow> m | OneRecord i \<Rightarrow> l i)"
  "(\<And>y z. onward (q y z)) \<Longrightarrow> onward (case p of (y, z) \<Rightarrow> q y z)"
  by (simp_all split: option.split state_doc.split inspect_doc.split prod.split)

section \<open>Runs without a new error\<close>

definition clean :: "('m, 'a) act \<Rightarrow> 'm pst \<Rightarrow> 'a \<Rightarrow> 'm pst \<Rightarrow> bool" where
  "clean m s x s' \<longleftrightarrow> m s = (Inr x, s') \<and> errs s' = errs s"

lemma clean_ret [clean_rules]: "clean (ret x) s y s' \<longleftrightarrow> y = x \<and> s' = s"
  by (auto simp: clean_def ret_def)

lemma clean_raise [clean_rules]: "\<not> clean (raise e) s y s'"
  by (simp add: clean_def raise_def)

lemma clean_lift [clean_rules]: "clean (lift r) s y s' \<longleftrightarrow> r = Inr y \<and> s' = s"
  by (auto simp: clean_def lift_def)

lemma clean_upd [clean_rules]:
  "clean (upd f) s y s' \<longleftrightarrow> s' = s\<lparr>p_report := f (p_report s)\<rparr> \<and> k_errors (f (p_report s)) = k_errors (p_report s)"
  by (auto simp: clean_def upd_def errs_def)

lemma clean_log_error [clean_rules]: "\<not> clean (log_error msg) s y s'"
  by (auto simp: clean_def log_error_def errs_def)

lemma clean_asking [clean_rules]: "clean (asking g) s y s' \<longleftrightarrow> y = g s \<and> s' = s"
  by (auto simp: clean_def asking_def)

lemma clean_look [clean_rules]: "clean (look a) s y s' \<longleftrightarrow> a (p_trace s) = Inr y \<and> s' = s"
  by (auto simp: clean_def look_def)

lemma clean_perform [clean_rules]:
  "clean (perform ev ans) s y s' \<longleftrightarrow> ans (p_trace s) = Inr y \<and> s' = s\<lparr>p_trace := p_trace s @ [ev]\<rparr>"
  by (auto simp: clean_def perform_def errs_def)

lemma clean_set_cid [clean_rules]: "clean (set_cid c) s y s' \<longleftrightarrow> s' = s\<lparr>p_cid := c\<rparr>"
  by (auto simp: clean_def set_cid_def errs_def)

lemma clean_set_create_attempted [clean_rules]:
  "clean (set_create_attempted b) s y s' \<longleftrightarrow> s' = s\<lparr>p_create_attempted := b\<rparr>"
  by (auto simp: clean_def set_create_attempted_def errs_def)

lemma clean_bnd:
  assumes "logs m" "\<And>x. logs (f x)"
  shows "clean (bnd m f) s y s' \<longleftrightarrow> (\<exists>x t. clean m s x t \<and> clean (f x) t y s')"
proof
  assume c: "clean (bnd m f) s y s'"
  then obtain x t where m: "m s = (Inr x, t)" and f: "f x t = (Inr y, s')"
    by (auto simp: clean_def bnd_def split: prod.splits sum.splits)
  have "errs t = errs s"
    using extends_squeeze [OF logsD [OF assms(1) m] logsD [OF assms(2) f]] c by (simp add: clean_def)
  with m f c show "\<exists>x t. clean m s x t \<and> clean (f x) t y s'" by (auto simp: clean_def)
qed (auto simp: clean_def bnd_def)

lemma clean_andthen:
  "logs m \<Longrightarrow> logs n \<Longrightarrow> clean (andthen m n) s y s' \<longleftrightarrow> (\<exists>t. clean m s () t \<and> clean n t y s')"
  by (simp add: andthen_def clean_bnd)

text \<open>A handler that logs an error, and then does anything, is not part of a clean run.\<close>

lemma clean_catch_logged:
  assumes "logs m" "\<And>e. h e = andthen (log_error (msg e)) (n e)" "\<And>e. logs (n e)"
  shows "clean (catch m h) s y s' \<longleftrightarrow> clean m s y s'"
proof
  assume c: "clean (catch m h) s y s'"
  then show "clean m s y s'"
  proof (cases "m s")
    case (Pair r t)
    show ?thesis
    proof (cases r)
      case (Inl e)
      with Pair c have h: "h e t = (Inr y, s')" "errs s' = errs s" by (auto simp: clean_def catch_def)
      have "extends s t" by (rule logsD [OF assms(1) Pair])
      moreover have lh: "logs (h e)" unfolding assms(2) by (intro logs_rules assms(3))
      moreover have "extends t s'" by (rule logsD [OF lh h(1)])
      ultimately have "errs t = errs s" using extends_squeeze h(2) by blast
      with h have "clean (h e) t y s'" by (simp add: clean_def)
      then show ?thesis by (simp add: assms(2,3) clean_andthen logs_rules clean_rules)
    qed (use Pair c in \<open>auto simp: clean_def catch_def\<close>)
  qed
qed (auto simp: clean_def catch_def)

lemma clean_finally:
  assumes "logs m" "logs f"
  shows "clean (finally_do m f) s y s' \<longleftrightarrow> (\<exists>t. clean m s y t \<and> clean f t () s')"
proof
  assume c: "clean (finally_do m f) s y s'"
  then obtain t where m: "m s = (Inr y, t)" and f: "f t = (Inr (), s')"
    by (auto simp: clean_def finally_do_def split: prod.splits sum.splits)
  have "errs t = errs s"
    using extends_squeeze [OF logsD [OF assms(1) m] logsD [OF assms(2) f]] c by (simp add: clean_def)
  with m f c show "\<exists>t. clean m s y t \<and> clean f t () s'" by (auto simp: clean_def)
qed (auto simp: clean_def finally_do_def)

end
