(* ===== verification/Probe.thy ===== *)
theory Probe
  imports Host
begin

text \<open>
  The Docker/QEMU boot probe \<open>scripts/qualify-native/probe.py\<close>, function by function, as actions
  on the run of theory \<open>Host\<close>. The \<open>try\<close> block of \<open>run_boot\<close> is \<open>boot_body\<close>, its \<open>finally\<close> block
  \<open>boot_cleanup\<close>. Exceptions outside \<open>Exception\<close> (an interrupt of the interpreter) are not modelled.
\<close>

section \<open>Constants\<close>

definition PINNED_IMAGE_REF :: pystr where "PINNED_IMAGE_REF = py ''zig-kernel-qemu-verifier:local''"
definition PINNED_IMAGE_ID :: pystr where
  "PINNED_IMAGE_ID = py ''sha256:8385adfe772b198700e89273eb4d4243f89ee6c1e3367bf2661f1a0d33c9e458''"
definition PINNED_OVMF_CODE_SHA256 :: pystr where
  "PINNED_OVMF_CODE_SHA256 = py ''d9b568def24088c92f34b5479e0ed7e44d0a4d4cea8a0f5716719180bba48106''"
definition PINNED_OVMF_VARS_SHA256 :: pystr where
  "PINNED_OVMF_VARS_SHA256 = py ''6ed987af3a3c155be71665f510eae3e007eda9b8b94afd59d45e91c4a11565cc''"
definition TCG :: pystr where "TCG = py ''tcg''"
definition OWNER_LABEL :: pystr where "OWNER_LABEL = py ''zig-native.qualify-owner''"
definition OVMF_CODE :: pystr where "OVMF_CODE = py ''/usr/share/OVMF/OVMF_CODE.fd''"
definition OVMF_VARS :: pystr where "OVMF_VARS = py ''/usr/share/OVMF/OVMF_VARS.fd''"
definition RUN_VARS :: pystr where "RUN_VARS = py ''/out/OVMF_VARS.fd''"
definition SCOPE :: pystr where
  "SCOPE = py ''native firmware/kernel bootstrap smoke only; not a Linux replacement''"
definition ESP_NAME :: pystr where "ESP_NAME = py ''esp.img''"

section \<open>Pure helpers\<close>

definition decode :: "world \<Rightarrow> captured \<Rightarrow> pystr" where
  "decode w value = (case value of CBytes b \<Rightarrow> w_utf8 w b | CText s \<Rightarrow> s | CNone \<Rightarrow> [])"

definition valid_cid :: "pystr \<Rightarrow> bool" where
  "valid_cid candidate \<longleftrightarrow> length candidate = 64 \<and> (\<forall>c\<in>set candidate. c \<in> set hexdigits)"

definition docker_env :: "world \<Rightarrow> pystr option \<Rightarrow> pystr option \<Rightarrow> environ" where
  "docker_env w docker_host docker_config =
    (let env = w_environ w;
         env = (case docker_host of Some h \<Rightarrow> if h \<noteq> [] then env(py ''DOCKER_HOST'' \<mapsto> h) else env | None \<Rightarrow> env)
     in case docker_config of Some c \<Rightarrow> if c \<noteq> [] then env(py ''DOCKER_CONFIG'' \<mapsto> c) else env | None \<Rightarrow> env)"

definition require_tcg :: "world \<Rightarrow> pystr \<Rightarrow> pexc + unit" where
  "require_tcg w accel =
    ensure (accel = TCG)
      (Failed (py ''unsupported qemu backend '' @ w_repr w accel @ py ''; only tcg is supported for this slice''))
      (Inr ())"

text \<open>A Python value given as the timeout; the checks return the integer they accept.\<close>

datatype pyval = VInt int | VBool bool | VOther

definition require_range :: "int \<Rightarrow> int \<Rightarrow> pystr \<Rightarrow> pyval \<Rightarrow> pexc + int" where
  "require_range lo hi msg value =
    (case value of VInt n \<Rightarrow> ensure (lo \<le> n \<and> n \<le> hi) (Failed msg) (Inr n) | _ \<Rightarrow> Inl (Failed msg))"

definition require_timeout :: "pyval \<Rightarrow> pexc + int" where
  "require_timeout = require_range 5 120 (py ''timeout must be an integer between 5 and 120 seconds'')"

text \<open>\<open>shlex.quote\<close>: text of safe characters is left alone, other text is put in single quotes.\<close>

definition shell_safe :: cls where
  "shell_safe = Ranges [(97, 122), (65, 90), (48, 57), (95, 95), (64, 64), (37, 37), (43, 43), (61, 61), (58, 58),
     (44, 44), (46, 46), (47, 47), (45, 45)]"

abbreviation SQ :: pychar where "SQ \<equiv> Ch CHR 0x27"
abbreviation DQ :: pychar where "DQ \<equiv> Ch CHR 0x22"

definition shlex_quote :: "pystr \<Rightarrow> pystr" where
  "shlex_quote s =
    (if s = [] then [SQ, SQ]
     else if list_all (in_cls shell_safe) s then s
     else [SQ] @ concat (map (\<lambda>c. if c = SQ then [SQ, DQ, SQ, DQ, SQ] else [c]) s) @ [SQ])"

definition qemu_args :: "pystr list" where
  "qemu_args = [
     py ''qemu-system-x86_64'',
     py ''-machine'', py ''q35'',
     py ''-cpu'', py ''qemu64'',
     py ''-accel'', TCG,
     py ''-m'', py ''256'',
     py ''-drive'', py ''if=pflash,format=raw,readonly=on,file='' @ OVMF_CODE,
     py ''-drive'', py ''if=pflash,format=raw,file=/out/OVMF_VARS.fd'',
     py ''-drive'', py ''if=ide,format=raw,file=/inputs/esp.img,snapshot=on'',
     py ''-serial'', py ''file:/out/serial.log'',
     py ''-display'', py ''none'',
     py ''-monitor'', py ''none'',
     py ''-device'', py ''isa-debug-exit,iobase=0xf4,iosize=0x04'',
     py ''-no-reboot'']"

definition guest_command :: "world \<Rightarrow> pyval \<Rightarrow> pystr \<Rightarrow> pexc + pystr" where
  "guest_command w timeout accel =
    ebind (require_tcg w accel) (\<lambda>_.
    ebind (require_timeout timeout) (\<lambda>seconds.
    let code = shlex_quote OVMF_CODE;
        vars_path = shlex_quote OVMF_VARS;
        qemu_s = join_with (py '' '') (map shlex_quote qemu_args) in
    Inr (py ''if [ ! -f '' @ code @ py '' ] || [ ! -f '' @ vars_path @ py '' ]; then '' @
      py ''echo firmware-missing > /out/firmware-missing.txt; exit 2; fi && '' @
      py ''cp '' @ vars_path @ py '' /out/OVMF_VARS.fd && '' @
      py ''sha256sum '' @ code @ py '' /out/OVMF_VARS.fd > /out/firmware-sha256.txt && '' @
      py ''qemu-system-x86_64 --version > /out/qemu-version.txt && '' @
      py ''timeout -k 3 '' @ shlex_quote (show_int seconds) @ py '' '' @ qemu_s)))"

definition hash_line :: "world \<Rightarrow> (pystr \<Rightarrow> pystr option) \<Rightarrow> pystr \<Rightarrow> pystr \<Rightarrow> pystr option" where
  "hash_line w hashes line =
    (case split_spaces line of
       digest_text # file_name # _ \<Rightarrow>
         hashes(dropWhile (\<lambda>c. c = Ch CHR ''*'') file_name \<mapsto> str_lower (w_lower w) digest_text)
     | _ \<Rightarrow> hashes)"

definition parse_firmware_hashes :: "world \<Rightarrow> pystr \<Rightarrow> pystr \<Rightarrow> pystr option" where
  "parse_firmware_hashes w text = foldl (hash_line w) Map.empty (splitlines text)"

section \<open>Docker operations\<close>

text \<open>The arguments of \<open>run_boot\<close>.\<close>

record boot_args =
  b_inputs :: pystr
  b_output :: pystr
  b_timeout :: pyval
  b_image_ref :: pystr
  b_image_id :: pystr
  b_accel :: pystr
  b_docker_host :: "pystr option"
  b_docker_config :: "pystr option"

definition docker :: "world \<Rightarrow> boot_args \<Rightarrow> command \<Rightarrow> int \<Rightarrow> ('m, process) act" where
  "docker w b args timeout =
    perform (Docker args)
      (\<lambda>tr. w_docker w tr args (docker_env w (b_docker_host b) (b_docker_config b)) timeout)"

definition image_cmd :: "pystr \<Rightarrow> command" where
  "image_cmd image_ref = [py ''image'', py ''inspect'', py ''--format'', py ''{{.Id}}'', image_ref]"
definition lookup_cmd :: "pystr \<Rightarrow> command" where
  "lookup_cmd name = [py ''inspect'', py ''--type'', py ''container'', name]"
definition start_cmd :: "pystr \<Rightarrow> command" where
  "start_cmd cid = [py ''start'', py ''-a'', cid]"
definition state_cmd :: "pystr \<Rightarrow> command" where
  "state_cmd cid = [py ''inspect'', py ''--format'', py ''{{json .State}}'', cid]"
definition rm_cmd :: "pystr \<Rightarrow> command" where
  "rm_cmd cid = [py ''rm'', py ''-f'', cid]"

definition create_args :: "pystr \<Rightarrow> pystr \<Rightarrow> pystr \<Rightarrow> pystr \<Rightarrow> pystr \<Rightarrow> pystr \<Rightarrow> pystr \<Rightarrow> command" where
  "create_args cidfile container_name owner_token inputs output resolved cmd = [
     py ''create'', py ''--cidfile'', cidfile, py ''--name'', container_name,
     py ''--label'', OWNER_LABEL @ py ''='' @ owner_token,
     py ''--network'', py ''none'', py ''--read-only'', py ''--cap-drop'', py ''ALL'',
     py ''--security-opt'', py ''no-new-privileges'', py ''--pids-limit'', py ''128'', py ''--memory'', py ''768m'',
     py ''--tmpfs'', py ''/tmp:rw,nosuid,nodev,size=64m'',
     py ''--tmpfs'', py ''/var/tmp:rw,nosuid,nodev,size=64m'',
     py ''--mount'', py ''type=bind,src='' @ inputs @ py '',dst=/inputs,readonly'',
     py ''--mount'', py ''type=bind,src='' @ output @ py '',dst=/out'',
     py ''--entrypoint'', py ''/bin/sh'', resolved, py ''-c'', cmd]"

definition serial_path :: "world \<Rightarrow> boot_args \<Rightarrow> pystr" where
  "serial_path w b = w_join w (b_output b) (py ''serial.log'')"

text \<open>\<open>report.update(parsed)\<close> stores the whole transcript report, the kernel-entry flag included.\<close>

definition collect_serial :: "world \<Rightarrow> boot_args \<Rightarrow> ('m, unit) act" where
  "collect_serial w b =
    bnd (exists_path w (serial_path w b)) (\<lambda>there.
    bnd (if there then read_text w (serial_path w b) else ret []) (\<lambda>serial.
    bnd (if there then bnd (digest w (serial_path w b)) (\<lambda>d. ret (Some d)) else ret None) (\<lambda>sha.
    andthen (upd (\<lambda>r. r\<lparr>k_serial_sha256 := sha\<rparr>))
    (let parsed = parse_serial serial in
     upd (\<lambda>r. r\<lparr>k_transcript := Some parsed,
                k_kernel_entry_observed := Some (kernel_entry_observed parsed),
                k_errors := k_errors r @ transcript_errors parsed\<rparr>)))))"

definition matches_creation :: "pystr \<Rightarrow> pystr \<Rightarrow> pystr \<Rightarrow> inspect_item \<Rightarrow> bool" where
  "matches_creation name token image_id item \<longleftrightarrow>
     valid_cid (case i_id item of Some c \<Rightarrow> c | None \<Rightarrow> []) \<and>
     i_name item = Some (py ''/'' @ name) \<and>
     i_labels item OWNER_LABEL = Some token \<and>
     i_image item = Some image_id"

definition recover_creation :: "world \<Rightarrow> boot_args \<Rightarrow> pystr \<Rightarrow> pystr \<Rightarrow> pystr \<Rightarrow> ('m, pystr option) act" where
  "recover_creation w b name token image_id =
    andthen (upd (\<lambda>r. r\<lparr>k_creation_ownership_unresolved := Some True\<rparr>))
    (catch
      (bnd (docker w b (lookup_cmd name) 20) (\<lambda>inspected.
       if returncode inspected \<noteq> 0 then
         andthen (upd (\<lambda>r. r\<lparr>k_creation_reconciliation :=
                    Some (Unresolved_exit (returncode inspected) (stderr inspected))\<rparr>))
           (ret None)
       else
         bnd (lift (w_inspect_json w (stdout inspected))) (\<lambda>doc.
         case doc of
           NotOneRecord \<Rightarrow> raise (OtherException (py ''ValueError'') (py ''Expected one container inspect record''))
         | OneRecord item \<Rightarrow>
             let candidate = (case i_id item of Some c \<Rightarrow> c | None \<Rightarrow> []);
                 matched = matches_creation name token image_id item in
             andthen (upd (\<lambda>r. r\<lparr>k_creation_reconciliation :=
                        Some (if matched then Recovered candidate else OwnershipMismatch candidate)\<rparr>))
             (if \<not> matched then ret None
              else andthen (upd (\<lambda>r. r\<lparr>k_creation_ownership_unresolved := Some False\<rparr>))
                (ret (Some candidate))))))
      (\<lambda>e. andthen (upd (\<lambda>r. r\<lparr>k_creation_reconciliation := Some (Unresolved_error (described e))\<rparr>))
             (ret None)))"

definition write_logs :: "world \<Rightarrow> boot_args \<Rightarrow> captured \<Rightarrow> captured \<Rightarrow> ('m, unit) act" where
  "write_logs w b out err =
    andthen (write_text w (w_join w (b_output b) (py ''container-stdout.log'')) (decode w out))
            (write_text w (w_join w (b_output b) (py ''container-stderr.log'')) (decode w err))"

definition start_timed_out :: "world \<Rightarrow> boot_args \<Rightarrow> pexc \<Rightarrow> ('m, process) act" where
  "start_timed_out w b e =
    (case e of
       TimeoutExpired m out err \<Rightarrow>
         andthen (upd (\<lambda>r. r\<lparr>k_attach_timed_out := True, k_docker_start_exit_code := None\<rparr>))
        (andthen (write_logs w b out err)
        (raise e))
     | _ \<Rightarrow> raise e)"

definition attach :: "world \<Rightarrow> boot_args \<Rightarrow> pystr \<Rightarrow> int \<Rightarrow> ('m, process) act" where
  "attach w b cid timeout =
    andthen (upd (\<lambda>r. r\<lparr>k_attach_attempted := True\<rparr>))
    (bnd (catch (docker w b (start_cmd cid) (timeout + 15)) (start_timed_out w b)) (\<lambda>started.
     andthen (write_logs w b (CText (stdout started)) (CText (stderr started)))
    (andthen (upd (\<lambda>r. r\<lparr>k_docker_start_exit_code := Some (returncode started)\<rparr>))
    (ret started))))"

definition image_exc :: "pexc \<Rightarrow> pexc" where
  "image_exc e =
    (case e of
       FileNotFoundError m \<Rightarrow> Unavailable (py ''Docker CLI unavailable'')
     | TimeoutExpired m out err \<Rightarrow> Unavailable (py ''Docker image inspect timed out'')
     | OSErrorOther n m \<Rightarrow> Unavailable (py ''Docker engine unavailable: '' @ m)
     | _ \<Rightarrow> e)"

definition SHA_PREFIX :: pystr where "SHA_PREFIX = py ''sha256:''"

definition image_of :: "pystr \<Rightarrow> pystr \<Rightarrow> process \<Rightarrow> pexc + pystr" where
  "image_of image_ref image_id inspected =
    ensure (returncode inspected = 0)
      (Unavailable (py ''Docker verifier image unavailable: '' @
         strip (if stderr inspected \<noteq> [] then stderr inspected else stdout inspected)))
   (let resolved = strip (stdout inspected) in
    ensure (starts_with resolved SHA_PREFIX \<and> valid_cid (drop 7 resolved))
      (Unavailable (py ''Invalid verifier image identity''))
   (ensure (resolved = image_id)
      (Unavailable (py ''Pinned verifier image '' @ image_id @ py '' is not present; '' @ image_ref @
         py '' resolved to '' @ resolved))
   (Inr resolved)))"

definition resolve_pinned_image :: "world \<Rightarrow> boot_args \<Rightarrow> ('m, pystr) act" where
  "resolve_pinned_image w b =
    bnd (catch (docker w b (image_cmd (b_image_ref b)) 20) (\<lambda>e. raise (image_exc e))) (\<lambda>inspected.
    lift (image_of (b_image_ref b) (b_image_id b) inspected))"

section \<open>The boot\<close>

definition container_name :: "world \<Rightarrow> pystr" where
  "container_name w = py ''native-qualify-'' @ w_uuid w"

definition cidfile_path :: "world \<Rightarrow> boot_args \<Rightarrow> pystr" where
  "cidfile_path w b = w_join w (w_parent w (b_output b)) (py ''container.cid'')"

definition create_cmd :: "world \<Rightarrow> boot_args \<Rightarrow> pystr \<Rightarrow> pystr \<Rightarrow> command" where
  "create_cmd w b resolved cmd =
    create_args (cidfile_path w b) (container_name w) (w_uuid w) (b_inputs b) (b_output b) resolved cmd"

definition boot_init :: "world \<Rightarrow> boot_args \<Rightarrow> ('m, unit) act" where
  "boot_init w b =
    andthen (set_cid None) (andthen (set_create_attempted False)
    (upd (\<lambda>r. r\<lparr>
       k_creation_identity := Some (container_name w, OWNER_LABEL, w_uuid w),
       k_expected_markers := MARKERS,
       k_kernel_entry_observed := (case k_kernel_entry_observed r of None \<Rightarrow> Some False | Some k \<Rightarrow> Some k),
       k_linux_replacement_qualified := False,
       k_scope := SCOPE,
       k_qemu_accel := Some (b_accel b),
       k_docker_host := b_docker_host b,
       k_docker_config := (case b_docker_config b of Some c \<Rightarrow> if c \<noteq> [] then Some c else k_docker_config r
                           | None \<Rightarrow> k_docker_config r)\<rparr>)))"

definition read_cidfile :: "world \<Rightarrow> boot_args \<Rightarrow> ('m, unit) act" where
  "read_cidfile w b =
    bnd (exists_path w (cidfile_path w b)) (\<lambda>there.
    if there then
      bnd (read_text w (cidfile_path w b)) (\<lambda>text.
      if valid_cid (strip text) then set_cid (Some (strip text)) else ret ())
    else ret ())"

definition create_container :: "world \<Rightarrow> boot_args \<Rightarrow> pystr \<Rightarrow> pystr \<Rightarrow> ('m, pystr) act" where
  "create_container w b resolved cmd =
    bnd (finally_do (andthen (set_create_attempted True) (docker w b (create_cmd w b resolved cmd) 20))
           (read_cidfile w b)) (\<lambda>created.
    bnd (asking p_cid) (\<lambda>cid.
    case cid of
      Some c \<Rightarrow> if returncode created \<noteq> 0
        then raise (Failed (py ''Docker create failed or did not yield owned container ID'')) else ret c
    | None \<Rightarrow> raise (Failed (py ''Docker create failed or did not yield owned container ID''))))"

definition check_firmware :: "world \<Rightarrow> boot_args \<Rightarrow> ('m, unit) act" where
  "check_firmware w b =
    bnd (exists_path w (w_join w (b_output b) (py ''firmware-missing.txt''))) (\<lambda>missing.
    if missing then raise (Unavailable (py ''OVMF firmware missing inside verifier image''))
    else
    bnd (exists_path w (w_join w (b_output b) (py ''firmware-sha256.txt''))) (\<lambda>there.
    if there then
      bnd (read_text w (w_join w (b_output b) (py ''firmware-sha256.txt''))) (\<lambda>text.
      let firmware = parse_firmware_hashes w text in
      andthen (upd (\<lambda>r. r\<lparr>k_firmware_sha256 := Some firmware\<rparr>))
      (if firmware OVMF_CODE \<noteq> Some PINNED_OVMF_CODE_SHA256 \<or> firmware RUN_VARS \<noteq> Some PINNED_OVMF_VARS_SHA256
       then log_error (py ''Pinned firmware hash mismatch: code='' @ show_opt (firmware OVMF_CODE) @
              py '' vars='' @ show_opt (firmware RUN_VARS))
       else ret ()))
    else log_error (py ''Firmware hash evidence missing'')))"

definition EXIT33 :: pystr where "EXIT33 = py ''Expected isa-debug-exit status33''"

definition check_state :: "world \<Rightarrow> boot_args \<Rightarrow> pystr \<Rightarrow> process \<Rightarrow> ('m, unit) act" where
  "check_state w b cid started =
    bnd (docker w b (state_cmd cid) 20) (\<lambda>state.
    if returncode state \<noteq> 0 then raise (Failed (py ''Cannot inspect completed native probe''))
    else
      bnd (lift (w_state_json w (stdout state))) (\<lambda>doc.
      andthen (upd (\<lambda>r. r\<lparr>k_container_state := Some doc\<rparr>))
      (case doc of
         NotADict truthy m \<Rightarrow> raise (OtherException (py ''AttributeError'') m)
       | StateDict code \<Rightarrow>
           if code \<noteq> Some 33 \<or> returncode started \<noteq> 33 then log_error EXIT33 else ret ())))"

definition boot_body :: "world \<Rightarrow> boot_args \<Rightarrow> ('m, unit) act" where
  "boot_body w b =
    bnd (lift (require_tcg w (b_accel b))) (\<lambda>_.
    bnd (lift (require_timeout (b_timeout b))) (\<lambda>timeout.
    bnd (resolve_pinned_image w b) (\<lambda>resolved.
    andthen (upd (\<lambda>r. r\<lparr>k_verifier_image := Some resolved, k_verifier_image_ref := Some (b_image_ref b)\<rparr>))
    (bnd (lift (guest_command w (b_timeout b) (b_accel b))) (\<lambda>cmd.
    andthen (upd (\<lambda>r. r\<lparr>k_guest_command := Some cmd\<rparr>))
    (bnd (create_container w b resolved cmd) (\<lambda>cid.
    andthen (upd (\<lambda>r. r\<lparr>k_owned_container_id := Some cid, k_launched := True\<rparr>))
    (bnd (attach w b cid timeout) (\<lambda>started.
    andthen (check_firmware w b)
    (check_state w b cid started))))))))))"

definition boot_handler :: "pexc \<Rightarrow> ('m, unit) act" where
  "boot_handler e =
    andthen (log_error (described e))
      (case e of Unavailable m \<Rightarrow> raise e | Failed m \<Rightarrow> raise e | _ \<Rightarrow> ret ())"

definition recover_step :: "world \<Rightarrow> boot_args \<Rightarrow> ('m, unit) act" where
  "recover_step w b =
    bnd (asking (\<lambda>s. (p_create_attempted s, p_cid s, k_verifier_image (p_report s)))) (\<lambda>(attempted, cid, image).
    if attempted \<and> cid = None then
      bnd (recover_creation w b (container_name w) (w_uuid w)
             (case image of Some v \<Rightarrow> if v \<noteq> [] then v else b_image_id b | None \<Rightarrow> b_image_id b)) (\<lambda>found.
      andthen (set_cid found)
      (if found = None
       then log_error (py ''Container creation ownership unresolved; see recorded name/label/image'')
       else ret ()))
    else ret ())"

definition remove_step :: "world \<Rightarrow> boot_args \<Rightarrow> ('m, unit) act" where
  "remove_step w b =
    bnd (asking p_cid) (\<lambda>cid.
    case cid of
      None \<Rightarrow> ret ()
    | Some c \<Rightarrow>
        andthen (upd (\<lambda>r. r\<lparr>k_owned_container_id := Some c\<rparr>))
        (catch
          (bnd (docker w b (rm_cmd c) 20) (\<lambda>removed.
           andthen (upd (\<lambda>r. r\<lparr>k_cleanup := Some (c, returncode removed)\<rparr>))
           (if returncode removed \<noteq> 0 then log_error (py ''Owned container removal failed'') else ret ())))
          (\<lambda>e. andthen (log_error (py ''Cleanup failed: '' @ exc_name e)) (ret ()))))"

text \<open>The two calls of \<open>exists\<close> are outside any \<open>try\<close>; what they raise leaves the \<open>finally\<close> block.\<close>

definition serial_step :: "world \<Rightarrow> boot_args \<Rightarrow> ('m, unit) act" where
  "serial_step w b =
    bnd (asking (\<lambda>s. k_attach_attempted (p_report s))) (\<lambda>attempted.
    bnd (if attempted then ret True else exists_path w (serial_path w b)) (\<lambda>wanted.
    if wanted then
      catch (collect_serial w b)
        (\<lambda>e. andthen (log_error (py ''Serial evidence failed: '' @ described e)) (ret ()))
    else ret ()))"

definition esp_path :: "world \<Rightarrow> boot_args \<Rightarrow> pystr" where
  "esp_path w b = w_join w (b_inputs b) ESP_NAME"

definition esp_step :: "world \<Rightarrow> boot_args \<Rightarrow> ('m, unit) act" where
  "esp_step w b =
     bnd (exists_path w (esp_path w b)) (\<lambda>there.
     bnd (asking (\<lambda>s. if there then given (k_inputs (p_report s)) ESP_NAME else None)) (\<lambda>entry.
     case entry of
       None \<Rightarrow> ret ()
     | Some (_, sha) \<Rightarrow>
         catch
           (bnd (digest w (esp_path w b)) (\<lambda>d.
            andthen (upd (\<lambda>r. r\<lparr>k_esp_unchanged := Some (d = sha)\<rparr>))
            (if d \<noteq> sha then log_error (py ''Boot input ESP changed'') else ret ())))
           (\<lambda>e. andthen (log_error (py ''ESP rehash failed: '' @ described e)) (ret ()))))"

definition boot_cleanup :: "world \<Rightarrow> boot_args \<Rightarrow> ('m, unit) act" where
  "boot_cleanup w b =
    andthen (recover_step w b) (andthen (remove_step w b) (andthen (serial_step w b) (andthen (esp_step w b)
    (upd (\<lambda>r. r\<lparr>k_linux_replacement_qualified := False\<rparr>)))))"

definition run_boot :: "world \<Rightarrow> boot_args \<Rightarrow> ('m, unit) act" where
  "run_boot w b =
    andthen (boot_init w b) (finally_do (catch (boot_body w b) boot_handler) (boot_cleanup w b))"

end
