(* ===== verification/Probe_Spec.thy ===== *)
theory Probe_Spec
  imports Probe
begin

text \<open>
  What a probe run does to the host and what a run without errors has observed: the docker commands
  of \<open>run_boot\<close> are one of seven sequences on one owned container, the container is removed
  whenever it is known, only \<open>Unavailable\<close>, \<open>Failed\<close> and the exceptions of two \<open>exists\<close> calls leave the
  function, and an error-free run is evidence for the pinned image, firmware, exit status, transcript and untouched ESP.
\<close>

section \<open>Sequencing\<close>

lemma bnd_cases:
  assumes "bnd m f s = (r, s')"
  obtains (raised) e where "m s = (Inl e, s')" "r = Inl e"
  | (returned) x t where "m s = (Inr x, t)" "f x t = (r, s')"
  using assms by (auto simp: bnd_def split: prod.splits sum.splits)

lemma andthen_cases:
  assumes "andthen m n s = (r, s')"
  obtains (raised) e where "m s = (Inl e, s')" "r = Inl e"
  | (returned) t where "m s = (Inr (), t)" "n t = (r, s')"
  using assms unfolding andthen_def by (auto elim!: bnd_cases)

lemma catch_cases:
  assumes "catch m h s = (r, s')"
  obtains (caught) e t where "m s = (Inl e, t)" "h e t = (r, s')"
  | (returned) x where "m s = (Inr x, s')" "r = Inr x"
  using assms by (auto simp: catch_def split: prod.splits sum.splits)

lemma finally_cases:
  assumes "finally_do m f s = (r, s')"
  obtains q t u where "m s = (q, t)" "f t = (u, s')" "r = (case u of Inl e \<Rightarrow> Inl e | Inr _ \<Rightarrow> q)"
  using assms by (auto simp: finally_do_def split: prod.splits sum.splits)

lemma upd_step [simp]: "upd f s = (r, s') \<longleftrightarrow> r = Inr () \<and> s' = s\<lparr>p_report := f (p_report s)\<rparr>"
  by (auto simp: upd_def)

section \<open>Which actions issue which docker commands\<close>

text \<open>\<open>issues c m\<close>: the action issues exactly the docker command \<open>c\<close> and leaves the locals alone.\<close>

definition issued :: "command \<Rightarrow> 'm pst \<Rightarrow> 'm pst \<Rightarrow> bool" where
  "issued c s s' \<longleftrightarrow> dockers (p_trace s') = dockers (p_trace s) @ [c] \<and>
     p_cid s' = p_cid s \<and> p_create_attempted s' = p_create_attempted s"

definition issues :: "command \<Rightarrow> ('m, 'a) act \<Rightarrow> bool" where
  "issues c m \<longleftrightarrow> (\<forall>s. issued c s (snd (m s)))"

lemma issuesD: "issues c m \<Longrightarrow> m s = (r, s') \<Longrightarrow> issued c s s'"
  by (metis issues_def snd_conv)

lemma issued_quiet: "issued c s t \<Longrightarrow> same_control t u \<Longrightarrow> issued c s u"
  by (simp add: issued_def same_control_def)

lemma quiet_issued: "same_control s t \<Longrightarrow> issued c t u \<Longrightarrow> issued c s u"
  by (simp add: issued_def same_control_def)

lemma issues_docker [quiet_rules]: "issues c (docker w b c n)"
  by (simp add: issues_def issued_def docker_def perform_def)

lemma issues_bnd [quiet_rules]: "issues c m \<Longrightarrow> (\<And>x. quiet (f x)) \<Longrightarrow> issues c (bnd m f)"
  unfolding issues_def quiet_def conforms_def bnd_def
  by (auto split: prod.splits sum.splits) (metis issued_quiet snd_conv)+

lemma issues_catch [quiet_rules]: "issues c m \<Longrightarrow> (\<And>e. quiet (h e)) \<Longrightarrow> issues c (catch m h)"
  unfolding issues_def quiet_def conforms_def catch_def
  by (auto split: prod.splits sum.splits) (metis issued_quiet snd_conv)+

lemma issues_upd [quiet_rules]: "issues c n \<Longrightarrow> issues c (andthen (upd f) n)"
  unfolding issues_def andthen_def bnd_def upd_def
  by (auto intro: quiet_issued [OF same_control_report])

lemma quiet_perform [quiet_rules]: "(\<And>c. ev \<noteq> Docker c) \<Longrightarrow> quiet (perform ev ans)"
  by (cases ev) (auto simp: quiet_def conforms_def perform_def same_control_def)

lemma quiet_option [quiet_rules]: "quiet m \<Longrightarrow> (\<And>y. quiet (f y)) \<Longrightarrow> quiet (case x of None \<Rightarrow> m | Some y \<Rightarrow> f y)"
  by (simp split: option.split)

lemma quiet_pair [quiet_rules]: "(\<And>y z. quiet (f y z)) \<Longrightarrow> quiet (case x of (y, z) \<Rightarrow> f y z)"
  by (simp split: prod.split)

lemma quiet_write_logs [quiet_rules]: "quiet (write_logs w b out err)"
  unfolding write_logs_def by (intro quiet_rules)

lemma quiet_timed_out [quiet_rules]: "quiet (start_timed_out w b e)"
  unfolding start_timed_out_def by (cases e) (simp_all, (intro quiet_rules)+)

lemma quiet_check_firmware [quiet_rules]: "quiet (check_firmware w b)"
  unfolding check_firmware_def Let_def by (intro quiet_rules)

lemma quiet_collect_serial [quiet_rules]: "quiet (collect_serial w b)"
  unfolding collect_serial_def Let_def by (intro quiet_rules)

lemma quiet_serial_step [quiet_rules]: "quiet (serial_step w b)"
  unfolding serial_step_def by (intro quiet_rules)

lemma quiet_esp_step [quiet_rules]: "quiet (esp_step w b)"
  unfolding esp_step_def Let_def
  by (intro quiet_rules)

lemma quiet_handler [quiet_rules]: "quiet (boot_handler e)"
  unfolding boot_handler_def by (cases e) (simp_all, (intro quiet_rules)+)

lemma issues_resolve: "issues (image_cmd (b_image_ref b)) (resolve_pinned_image w b)"
  unfolding resolve_pinned_image_def by (intro quiet_rules)

lemma issues_attach: "issues (start_cmd cid) (attach w b cid timeout)"
  unfolding attach_def by (intro quiet_rules)

lemma issues_check_state: "issues (state_cmd cid) (check_state w b cid started)"
  unfolding check_state_def
  by (intro quiet_rules) (simp split: state_doc.split, intro conjI allI impI quiet_rules)

lemma issues_recover: "issues (lookup_cmd name) (recover_creation w b name token image_id)"
  unfolding recover_creation_def
  by (intro quiet_rules) (simp add: Let_def split: inspect_doc.split, intro conjI allI impI quiet_rules)

section \<open>The command sequences of a run\<close>

text \<open>The two ways a container becomes the run's own: its cidfile names it, or an inspect answers for it.\<close>

definition from_cidfile :: "world \<Rightarrow> boot_args \<Rightarrow> pystr \<Rightarrow> bool" where
  "from_cidfile w b c \<longleftrightarrow> valid_cid c \<and> (\<exists>tr text. w_read_text w tr (cidfile_path w b) = Inr text \<and> c = strip text)"

definition recovered :: "world \<Rightarrow> boot_args \<Rightarrow> pystr \<Rightarrow> bool" where
  "recovered w b c \<longleftrightarrow> (\<exists>tr p item.
     w_docker w tr (lookup_cmd (container_name w)) (docker_env w (b_docker_host b) (b_docker_config b)) 20 = Inr p \<and>
     returncode p = 0 \<and> w_inspect_json w (stdout p) = Inr (OneRecord item) \<and>
     matches_creation (container_name w) (w_uuid w) (b_image_id b) item \<and> i_id item = Some c)"

text \<open>The commands of the \<open>try\<close> block, with the locals it leaves for the \<open>finally\<close> block.\<close>

definition body_commands :: "world \<Rightarrow> boot_args \<Rightarrow> command list \<Rightarrow> pystr option \<Rightarrow> bool \<Rightarrow> bool" where
  "body_commands w b cs cid attempted \<longleftrightarrow>
     cs \<in> {[], [image_cmd (b_image_ref b)]} \<and> cid = None \<and> \<not> attempted \<or>
     attempted \<and> (\<forall>c. cid = Some c \<longrightarrow> from_cidfile w b c) \<and>
     (\<exists>cmd. guest_command w (b_timeout b) (b_accel b) = Inr cmd \<and>
       (cs = [image_cmd (b_image_ref b), create_cmd w b (b_image_id b) cmd] \<or>
        (\<exists>c. cid = Some c \<and> cs \<in>
          {[image_cmd (b_image_ref b), create_cmd w b (b_image_id b) cmd, start_cmd c],
           [image_cmd (b_image_ref b), create_cmd w b (b_image_id b) cmd, start_cmd c, state_cmd c]})))"

text \<open>The commands of a whole run.\<close>

definition boot_commands :: "world \<Rightarrow> boot_args \<Rightarrow> command list \<Rightarrow> bool" where
  "boot_commands w b cs \<longleftrightarrow>
     cs = [] \<or> cs = [image_cmd (b_image_ref b)] \<or>
     (\<exists>cmd. guest_command w (b_timeout b) (b_accel b) = Inr cmd \<and>
       (let image = image_cmd (b_image_ref b);
            create = create_cmd w b (b_image_id b) cmd;
            lookup = lookup_cmd (container_name w) in
        cs = [image, create, lookup] \<or>
        (\<exists>c. recovered w b c \<and> cs = [image, create, lookup, rm_cmd c]) \<or>
        (\<exists>c. from_cidfile w b c \<and>
          (cs = [image, create, rm_cmd c] \<or>
           cs = [image, create, start_cmd c, rm_cmd c] \<or>
           cs = [image, create, start_cmd c, state_cmd c, rm_cmd c]))))"

lemma lift_step [simp]: "lift x s = (r, s') \<longleftrightarrow> x = r \<and> s' = s"
  by (auto simp: lift_def)

lemma image_of_Inr:
  "image_of ref i p = Inr v \<longleftrightarrow> returncode p = 0 \<and> strip (stdout p) = i \<and> v = i \<and>
     starts_with i SHA_PREFIX \<and> valid_cid (drop 7 i)"
  unfolding image_of_def Let_def ensure_Inr by auto

lemma resolve_pinned_image_is_id:
  assumes "resolve_pinned_image w b s = (Inr v, s')"
  shows "v = b_image_id b \<and> b_image_id b \<noteq> []"
  using assms unfolding resolve_pinned_image_def
  by (auto elim!: bnd_cases simp: image_of_Inr starts_with_def SHA_PREFIX_def)

lemma read_cidfile_step:
  assumes "read_cidfile w b s = (r, s')"
  shows "p_trace s' = p_trace s \<and> p_create_attempted s' = p_create_attempted s \<and> p_report s' = p_report s \<and>
    (p_cid s' = p_cid s \<or> (\<exists>text. w_read_text w (p_trace s) (cidfile_path w b) = Inr text \<and>
       valid_cid (strip text) \<and> p_cid s' = Some (strip text)))"
  using assms unfolding read_cidfile_def
  by (auto elim!: bnd_cases simp: exists_path_def asking_def read_text_def look_def ret_def set_cid_def split: if_splits)

lemma create_container_step:
  assumes "create_container w b img cmd s = (r, s')" "p_cid s = None"
  shows "dockers (p_trace s') = dockers (p_trace s) @ [create_cmd w b img cmd] \<and> p_create_attempted s' \<and>
    p_report s' = p_report s \<and>
    (\<forall>c. p_cid s' = Some c \<longrightarrow> from_cidfile w b c) \<and> (\<forall>c. r = Inr c \<longrightarrow> p_cid s' = Some c)"
proof -
  let ?m = "andthen (set_create_attempted True) (docker w b (create_cmd w b img cmd) 20)"
  have created: "dockers (p_trace t) = dockers (p_trace s) @ [create_cmd w b img cmd] \<and> p_create_attempted t \<and>
      p_cid t = None \<and> p_report t = p_report s"
    if "?m s = (q, t)" for q t
    using that assms(2)
    by (auto elim!: andthen_cases simp: set_create_attempted_def docker_def perform_def)
  have read: "dockers (p_trace t) = dockers (p_trace s) @ [create_cmd w b img cmd] \<and> p_create_attempted t \<and>
      p_report t = p_report s \<and> (\<forall>c. p_cid t = Some c \<longrightarrow> from_cidfile w b c)" if "finally_do ?m (read_cidfile w b) s = (q, t)" for q t
    using that by (rule finally_cases) (use created read_cidfile_step in \<open>fastforce simp: from_cidfile_def\<close>)
  from assms(1) show ?thesis unfolding create_container_def
  proof (cases rule: bnd_cases)
    case (raised e)
    with read show ?thesis by blast
  next
    case (returned created t)
    from returned(2) read [OF returned(1)] show ?thesis
      by (auto elim!: bnd_cases simp: asking_def ret_def raise_def split: option.splits if_splits)
  qed
qed

text \<open>What a prefix of the \<open>try\<close> block may have done.\<close>

definition after_body :: "world \<Rightarrow> boot_args \<Rightarrow> 'm pst \<Rightarrow> 'm pst \<Rightarrow> bool" where
  "after_body w b s s' \<longleftrightarrow> (\<exists>cs. dockers (p_trace s') = dockers (p_trace s) @ cs \<and>
     body_commands w b cs (p_cid s') (p_create_attempted s')) \<and>
   (p_create_attempted s' \<and> p_cid s' = None \<longrightarrow>
     k_verifier_image (p_report s') = Some (b_image_id b) \<and> b_image_id b \<noteq> [])"

lemma after_none: "same_control s s' \<Longrightarrow> p_cid s = None \<Longrightarrow> \<not> p_create_attempted s \<Longrightarrow> after_body w b s s'"
  by (auto simp: after_body_def body_commands_def same_control_def)

lemma after_image: "issued (image_cmd (b_image_ref b)) s s' \<Longrightarrow> p_cid s = None \<Longrightarrow> \<not> p_create_attempted s \<Longrightarrow>
    after_body w b s s'"
  by (auto simp: after_body_def body_commands_def issued_def)

lemma after_create:
  "issued (image_cmd (b_image_ref b)) s t \<Longrightarrow> guest_command w (b_timeout b) (b_accel b) = Inr cmd \<Longrightarrow>
   dockers (p_trace s') = dockers (p_trace t) @ [create_cmd w b (b_image_id b) cmd] \<Longrightarrow>
   p_create_attempted s' \<Longrightarrow> \<forall>c. p_cid s' = Some c \<longrightarrow> from_cidfile w b c \<Longrightarrow>
   k_verifier_image (p_report s') = Some (b_image_id b) \<Longrightarrow> b_image_id b \<noteq> [] \<Longrightarrow> after_body w b s s'"
  by (auto simp: after_body_def body_commands_def issued_def)

lemma after_start:
  "issued (image_cmd (b_image_ref b)) s t \<Longrightarrow> guest_command w (b_timeout b) (b_accel b) = Inr cmd \<Longrightarrow>
   dockers (p_trace u) = dockers (p_trace t) @ [create_cmd w b (b_image_id b) cmd] \<Longrightarrow>
   p_create_attempted u \<Longrightarrow> \<forall>c. p_cid u = Some c \<longrightarrow> from_cidfile w b c \<Longrightarrow> p_cid u = Some c \<Longrightarrow>
   issued (start_cmd c) u s' \<Longrightarrow> after_body w b s s'"
  by (auto simp: after_body_def body_commands_def issued_def)

lemma after_state:
  "issued (image_cmd (b_image_ref b)) s t \<Longrightarrow> guest_command w (b_timeout b) (b_accel b) = Inr cmd \<Longrightarrow>
   dockers (p_trace u) = dockers (p_trace t) @ [create_cmd w b (b_image_id b) cmd] \<Longrightarrow>
   p_create_attempted u \<Longrightarrow> \<forall>c. p_cid u = Some c \<longrightarrow> from_cidfile w b c \<Longrightarrow> p_cid u = Some c \<Longrightarrow>
   issued (start_cmd c) u v \<Longrightarrow> issued (state_cmd c) v s' \<Longrightarrow> after_body w b s s'"
  by (auto simp: after_body_def body_commands_def issued_def)

lemma issued_report [simp]: "issued c (s\<lparr>p_report := x\<rparr>) s' \<longleftrightarrow> issued c s s'"
  by (simp add: issued_def)

lemma issued_report' [simp]: "issued c s (s'\<lparr>p_report := x\<rparr>) \<longleftrightarrow> issued c s s'"
  by (simp add: issued_def)

lemma boot_body_commands:
  assumes "boot_body w b s = (r, s')" "p_cid s = None" "\<not> p_create_attempted s"
  shows "after_body w b s s'"
  using assms(1) unfolding boot_body_def
proof (elim bnd_cases andthen_cases, goal_cases)
  case (3 e tcg t0 timeout t1)
  then show ?case using assms(2,3) by (auto intro!: after_image dest: issuesD [OF issues_resolve])
next
  case (5 tcg t0 timeout t1 resolved t2 t3)
  then show ?case using assms(2,3) by (auto intro!: after_image dest: issuesD [OF issues_resolve])
next
  case (7 tcg t0 timeout t1 resolved t2 t3 cmd t4 t5 e)
  then have "issued (image_cmd (b_image_ref b)) s t5" "resolved = b_image_id b" "b_image_id b \<noteq> []"
    using issuesD [OF issues_resolve 7(3)] resolve_pinned_image_is_id [OF 7(3)] by auto
  with 7 create_container_step [OF 7(7)] show ?case using assms(2,3)
    by (auto intro!: after_create simp: issued_def)
next
  case (9 tcg t0 timeout t1 resolved t2 t3 cmd t4 t5 c t6 t7 e)
  then have "issued (image_cmd (b_image_ref b)) s t5" "resolved = b_image_id b" "b_image_id b \<noteq> []"
    using issuesD [OF issues_resolve 9(3)] resolve_pinned_image_is_id [OF 9(3)] by auto
  with 9 create_container_step [OF 9(7)] issuesD [OF issues_attach 9(9)] show ?case using assms(2,3)
    by (intro after_start [of b s t5 w cmd t6 c]) (auto simp: issued_def)
next
  case (10 tcg t0 timeout t1 resolved t2 t3 cmd t4 t5 c t6 t7 started t8 e)
  then have "issued (image_cmd (b_image_ref b)) s t5" "resolved = b_image_id b" "b_image_id b \<noteq> []"
    using issuesD [OF issues_resolve 10(3)] resolve_pinned_image_is_id [OF 10(3)] by auto
  with 10 create_container_step [OF 10(7)]
    issued_quiet [OF issuesD [OF issues_attach 10(9)] quietD [OF quiet_check_firmware 10(10)]]
  show ?case using assms(2,3)
    by (intro after_start [of b s t5 w cmd t6 c]) (auto simp: issued_def)
next
  case (11 tcg t0 timeout t1 resolved t2 t3 cmd t4 t5 c t6 t7 started t8 t9)
  then have "issued (image_cmd (b_image_ref b)) s t5" "resolved = b_image_id b" "b_image_id b \<noteq> []"
    using issuesD [OF issues_resolve 11(3)] resolve_pinned_image_is_id [OF 11(3)] by auto
  with 11 create_container_step [OF 11(7)]
    issued_quiet [OF issuesD [OF issues_attach 11(9)] quietD [OF quiet_check_firmware 11(10)]]
    issuesD [OF issues_check_state 11(11)]
  show ?case using assms(2,3)
    by (intro after_state [of b s t5 w cmd t6 c t9]) (auto simp: issued_def)
qed (use assms(2,3) in \<open>auto intro: after_none\<close>)

section \<open>The \<open>finally\<close> block\<close>

lemma recover_creation_step:
  assumes "recover_creation w b name token img s = (r, s')"
  shows "issued (lookup_cmd name) s s' \<and> errs s' = errs s \<and> (\<exists>found. r = Inr found \<and> (\<forall>c. found = Some c \<longrightarrow> (\<exists>tr p item.
     w_docker w tr (lookup_cmd name) (docker_env w (b_docker_host b) (b_docker_config b)) 20 = Inr p \<and>
     returncode p = 0 \<and> w_inspect_json w (stdout p) = Inr (OneRecord item) \<and>
     matches_creation name token img item \<and> i_id item = Some c)))"
  (is "_ \<and> ?errs \<and> ?found")
proof (intro conjI)
  show "issued (lookup_cmd name) s s'" by (rule issuesD [OF issues_recover assms])
  have cid: "i_id item = Some (case i_id item of Some c \<Rightarrow> c | None \<Rightarrow> [])"
    if "matches_creation name token img item" for item
    using that by (cases "i_id item") (simp_all add: matches_creation_def valid_cid_def)
  note steps = docker_def perform_def ret_def raise_def errs_def
  from assms show ?errs ?found
    unfolding recover_creation_def
    by (auto elim!: bnd_cases catch_cases andthen_cases simp: steps Let_def
        split: if_splits inspect_doc.splits) (use cid in blast)
qed

lemma recover_step_commands:
  assumes "recover_step w b s = (r, s')"
  shows "(\<not> (p_create_attempted s \<and> p_cid s = None) \<longrightarrow> r = Inr () \<and> s' = s) \<and>
    (p_create_attempted s \<and> p_cid s = None \<longrightarrow> k_verifier_image (p_report s) = Some (b_image_id b) \<and> b_image_id b \<noteq> [] \<longrightarrow>
      r = Inr () \<and> dockers (p_trace s') = dockers (p_trace s) @ [lookup_cmd (container_name w)] \<and>
      (\<forall>c. p_cid s' = Some c \<longrightarrow> recovered w b c))"
  using assms unfolding recover_step_def
  by (auto elim!: bnd_cases andthen_cases dest!: recover_creation_step
      simp: asking_def ret_def set_cid_def log_error_def issued_def recovered_def split: if_splits)

lemma remove_step_commands:
  assumes "remove_step w b s = (r, s')"
  shows "r = Inr () \<and> p_cid s' = p_cid s \<and>
    dockers (p_trace s') = dockers (p_trace s) @ (case p_cid s of None \<Rightarrow> [] | Some c \<Rightarrow> [rm_cmd c])"
  using assms unfolding remove_step_def
  by (auto elim!: bnd_cases andthen_cases catch_cases
      simp: asking_def ret_def log_error_def docker_def perform_def split: if_splits option.splits)

text \<open>What the two last steps raise is what their call of \<open>exists\<close> raises, and they change no trace.\<close>

lemma keeps_attempted_collect: "keeps k_attach_attempted (collect_serial w b)"
  unfolding collect_serial_def Let_def by (intro own_rules) simp_all

lemma collect_serial_step:
  assumes "collect_serial w b s = (r, s')"
  shows "p_trace s' = p_trace s \<and> k_attach_attempted (p_report s') = k_attach_attempted (p_report s)"
  using keepsD [OF keeps_attempted_collect assms] assms unfolding collect_serial_def Let_def
  by (auto elim!: bnd_cases andthen_cases simp: exists_path_def read_text_def digest_def look_def ret_def split: if_splits)

lemma serial_step_raises:
  assumes "serial_step w b s = (r, s')"
  shows "p_trace s' = p_trace s \<and> k_attach_attempted (p_report s') = k_attach_attempted (p_report s) \<and>
    (r = Inr () \<or> (\<exists>e. r = Inl e \<and> \<not> k_attach_attempted (p_report s') \<and> w_exists w (p_trace s') (serial_path w b) = Inl e))"
  using assms unfolding serial_step_def
  by (auto elim!: bnd_cases andthen_cases catch_cases dest!: collect_serial_step
      simp: asking_def ret_def log_error_def exists_path_def look_def split: if_splits)

lemma esp_step_raises:
  assumes "esp_step w b s = (r, s')"
  shows "p_trace s' = p_trace s \<and> (r = Inr () \<or> (\<exists>e. r = Inl e \<and> w_exists w (p_trace s') (esp_path w b) = Inl e))"
  using assms unfolding esp_step_def
  by (auto elim!: bnd_cases andthen_cases catch_cases
      simp: asking_def ret_def log_error_def exists_path_def look_def digest_def split: if_splits option.splits)

text \<open>What the \<open>finally\<close> block raises in the state it ends in.\<close>

definition exists_raises :: "world \<Rightarrow> boot_args \<Rightarrow> 'm pst \<Rightarrow> pexc \<Rightarrow> bool" where
  "exists_raises w b s e \<longleftrightarrow>
     \<not> k_attach_attempted (p_report s) \<and> w_exists w (p_trace s) (serial_path w b) = Inl e \<or>
     w_exists w (p_trace s) (esp_path w b) = Inl e"

text \<open>The \<open>finally\<close> block raises nothing else, and removes the container that is known by then.\<close>

lemma boot_cleanup_step:
  assumes "boot_cleanup w b s = (r, s')"
    "p_create_attempted s \<and> p_cid s = None \<longrightarrow> k_verifier_image (p_report s) = Some (b_image_id b) \<and> b_image_id b \<noteq> []"
  shows "(r = Inr () \<or> (\<exists>e. r = Inl e \<and> exists_raises w b s' e)) \<and>
    (\<exists>t. recover_step w b s = (Inr (), t) \<and> p_cid s' = p_cid t \<and>
      dockers (p_trace s') = dockers (p_trace t) @ (case p_cid t of None \<Rightarrow> [] | Some c \<Rightarrow> [rm_cmd c]))"
proof -
  obtain q t where t: "recover_step w b s = (q, t)" by fastforce
  with recover_step_commands [OF t] assms(2) have q: "q = Inr ()" by blast
  obtain q2 u where u: "remove_step w b t = (q2, u)" by fastforce
  from remove_step_commands [OF u] have q2: "q2 = Inr ()" by blast
  obtain q3 v where v: "serial_step w b u = (q3, v)" by fastforce
  obtain q4 x where x: "esp_step w b v = (q4, x)" by fastforce
  note control = quietD [OF quiet_serial_step v] quietD [OF quiet_esp_step x]
  show ?thesis
  proof (cases q3)
    case (Inl e)
    then have run: "r = Inl e \<and> s' = v"
      using assms(1) t q u q2 v by (simp add: boot_cleanup_def andthen_def bnd_def)
    moreover have "exists_raises w b v e" using serial_step_raises [OF v] Inl by (auto simp: exists_raises_def)
    ultimately show ?thesis using control(1) remove_step_commands [OF u] t q by (simp add: same_control_def)
  next
    case (Inr y)
    have "(q4 = Inr () \<and> r = Inr () \<or> (\<exists>e. q4 = Inl e \<and> r = Inl e)) \<and> p_trace s' = p_trace x \<and> p_cid s' = p_cid x \<and>
        (r = Inr () \<or> s' = x)"
      using assms(1) t q u q2 v x Inr by (cases q4) (auto simp: boot_cleanup_def andthen_def bnd_def upd_def)
    moreover have "same_control u x" using control by (rule same_control_trans)
    ultimately show ?thesis using esp_step_raises [OF x] remove_step_commands [OF u] t q
      by (auto simp: same_control_def exists_raises_def)
  qed
qed

text \<open>How the phases of a run compose: the \<open>try\<close> block, its handlers, the \<open>finally\<close> block.\<close>

definition handled :: "pexc + unit \<Rightarrow> 'm pst \<Rightarrow> pexc + unit \<Rightarrow> 'm pst \<Rightarrow> bool" where
  "handled q t r u \<longleftrightarrow>
     (case q of
        Inr _ \<Rightarrow> r = q \<and> u = t
      | Inl e \<Rightarrow> u = snd (log_error (described e) t) \<and>
          r = (case e of Unavailable m \<Rightarrow> Inl e | Failed m \<Rightarrow> Inl e | _ \<Rightarrow> Inr ()))"

lemma boot_handler_step:
  "catch (boot_body w b) boot_handler s = (r, u) \<longleftrightarrow> (\<exists>q t. boot_body w b s = (q, t) \<and> handled q t r u)"
proof -
  obtain q t where body: "boot_body w b s = (q, t)" by fastforce
  show ?thesis
  proof (cases q)
    case (Inl e)
    with body show ?thesis
      by (cases e) (auto simp: catch_def handled_def boot_handler_def andthen_def bnd_def log_error_def raise_def ret_def)
  next
    case (Inr x)
    with body show ?thesis by (auto simp: catch_def handled_def)
  qed
qed

lemma handled_control: "handled q t r u \<Longrightarrow> same_control t u"
  by (auto simp: handled_def log_error_def split: sum.splits)

lemma handled_after: "handled q t r u \<Longrightarrow> after_body w b s t \<Longrightarrow> after_body w b s u"
  by (auto simp: handled_def after_body_def log_error_def split: sum.splits)

lemma handled_exc: "handled q t (Inl e) u \<Longrightarrow> q = Inl e \<and> (\<exists>m. e = Unavailable m \<or> e = Failed m)"
  by (auto simp: handled_def split: sum.splits pexc.splits)

lemma boot_init_step:
  obtains i where "boot_init w b s = (Inr (), i)" "p_trace i = p_trace s" "p_cid i = None" "\<not> p_create_attempted i"
    "errs i = errs s"
  by (simp add: boot_init_def andthen_def bnd_def set_cid_def set_create_attempted_def upd_def errs_def)

lemma run_boot_phases:
  assumes "run_boot w b s = (r, s')"
  obtains i q t q' u c where "boot_init w b s = (Inr (), i)" "boot_body w b i = (q, t)" "handled q t q' u"
    "boot_cleanup w b u = (c, s')" "r = (case c of Inl e \<Rightarrow> Inl e | Inr _ \<Rightarrow> q')" "after_body w b s u"
proof -
  obtain i where i: "boot_init w b s = (Inr (), i)" "p_trace i = p_trace s" "p_cid i = None" "\<not> p_create_attempted i"
    by (rule boot_init_step)
  obtain q t where body: "boot_body w b i = (q, t)" by fastforce
  obtain q2 u where c: "catch (boot_body w b) boot_handler i = (q2, u)" by fastforce
  then have h: "handled q t q2 u" using body by (auto simp: boot_handler_step)
  have "after_body w b s t"
    using boot_body_commands [OF body i(3,4)] i(2) by (simp add: after_body_def)
  with h have au: "after_body w b s u" by (rule handled_after)
  obtain q3 v where cl: "boot_cleanup w b u = (q3, v)" by fastforce
  have "r = (case q3 of Inl e \<Rightarrow> Inl e | Inr _ \<Rightarrow> q2)" "s' = v"
    using assms i(1) c cl by (cases q3; auto simp: run_boot_def andthen_def bnd_def finally_do_def)+
  with i(1) body h cl au that show thesis by blast
qed

lemma run_boot_commands:
  "\<exists>cs. dockers (p_trace (snd (run_boot w b s))) = dockers (p_trace s) @ cs \<and> boot_commands w b cs"
proof -
  obtain r s' where run: "run_boot w b s = (r, s')" by fastforce
  then show ?thesis
  proof (rule run_boot_phases)
    fix i q t q' u c
    assume cl: "boot_cleanup w b u = (c, s')" and after: "after_body w b s u"
    from after obtain cs where cs: "dockers (p_trace u) = dockers (p_trace s) @ cs"
      "body_commands w b cs (p_cid u) (p_create_attempted u)" by (auto simp: after_body_def)
    from boot_cleanup_step [OF cl] after obtain v where v: "recover_step w b u = (Inr (), v)" "p_cid s' = p_cid v"
      "dockers (p_trace s') = dockers (p_trace v) @ (case p_cid v of None \<Rightarrow> [] | Some c \<Rightarrow> [rm_cmd c])"
      by (auto simp: after_body_def)
    show ?thesis
    proof (cases "p_create_attempted u \<and> p_cid u = None")
      case True
      with recover_step_commands [OF v(1)] after cs v show ?thesis
        unfolding run by (cases "p_cid v") (auto simp: after_body_def body_commands_def boot_commands_def Let_def)
    next
      case False
      with recover_step_commands [OF v(1)] have "v = u" by blast
      with False cs v show ?thesis
        unfolding run by (cases "p_cid u") (auto simp: body_commands_def boot_commands_def Let_def)
    qed
  qed
qed

text \<open>
  C6: The docker commands of a probe run, whatever the host answers, are one of seven sequences: nothing,
  the image lookup, then one create with the pinned image, and from there start and inspect of the one
  owned container. A known container is removed by the last command, and a container that was created but
  not named is removed only after an inspect record with the run's name, nonce label and image.
\<close>

theorem run_boot_docker_protocol:
  "\<exists>cs. dockers (p_trace (snd (run_boot w b s))) = dockers (p_trace s) @ cs \<and> boot_commands w b cs"
  by (rule run_boot_commands)

section \<open>The errors of a run\<close>

lemma logs_option [logs_rules]: "logs m \<Longrightarrow> (\<And>y. logs (f y)) \<Longrightarrow> logs (case x of None \<Rightarrow> m | Some y \<Rightarrow> f y)"
  by (simp split: option.split)

lemma logs_pair [logs_rules]: "(\<And>y z. logs (f y z)) \<Longrightarrow> logs (case x of (y, z) \<Rightarrow> f y z)"
  by (simp split: prod.split)

lemma logs_doc [logs_rules]: "(\<And>b m. logs (f b m)) \<Longrightarrow> (\<And>c. logs (g c)) \<Longrightarrow> logs (case d of NotADict b m \<Rightarrow> f b m | StateDict c \<Rightarrow> g c)"
  by (simp split: state_doc.split)

lemma logs_docker [logs_rules]: "logs (docker w b c n)"
  unfolding docker_def by (intro logs_rules)

lemma logs_write_logs [logs_rules]: "logs (write_logs w b out err)"
  unfolding write_logs_def by (intro logs_rules)

lemma logs_timed_out [logs_rules]: "logs (start_timed_out w b e)"
  unfolding start_timed_out_def by (cases e) (simp_all, (intro logs_rules; simp)+)

lemma logs_check_firmware [logs_rules]: "logs (check_firmware w b)"
  unfolding check_firmware_def Let_def by (intro logs_rules) simp

lemma logs_collect_serial [logs_rules]: "logs (collect_serial w b)"
  unfolding collect_serial_def Let_def by (intro logs_rules) simp_all

lemma logs_serial_step [logs_rules]: "logs (serial_step w b)"
  unfolding serial_step_def by (intro logs_rules)

lemma logs_esp_step [logs_rules]: "logs (esp_step w b)"
  unfolding esp_step_def Let_def by (intro logs_rules) simp

lemma logs_handler [logs_rules]: "logs (boot_handler e)"
  unfolding boot_handler_def by (cases e) (simp_all, (intro logs_rules)+)

lemma logs_resolve [logs_rules]: "logs (resolve_pinned_image w b)"
  unfolding resolve_pinned_image_def by (intro logs_rules)

lemma logs_attach [logs_rules]: "logs (attach w b cid timeout)"
  unfolding attach_def by (intro logs_rules) simp_all

lemma logs_check_state [logs_rules]: "logs (check_state w b cid started)"
  unfolding check_state_def by (intro logs_rules) simp

lemma logs_read_cidfile [logs_rules]: "logs (read_cidfile w b)"
  unfolding read_cidfile_def by (intro logs_rules)

lemma logs_create_container [logs_rules]: "logs (create_container w b img cmd)"
  unfolding create_container_def by (intro logs_rules)

lemma logs_recover_creation [logs_rules]: "logs (recover_creation w b name token img)"
  using recover_creation_step unfolding logs_def conforms_def extends_def by (metis append_Nil2 prod.collapse)

lemma logs_recover_step [logs_rules]: "logs (recover_step w b)"
  unfolding recover_step_def by (intro logs_rules)

lemma logs_remove_step [logs_rules]: "logs (remove_step w b)"
  unfolding remove_step_def by (intro logs_rules) simp_all

lemma logs_boot_body [logs_rules]: "logs (boot_body w b)"
  unfolding boot_body_def by (intro logs_rules) simp_all

lemma logs_boot_cleanup [logs_rules]: "logs (boot_cleanup w b)"
  unfolding boot_cleanup_def by (intro logs_rules) simp

lemma logs_boot_init [logs_rules]: "logs (boot_init w b)"
  unfolding boot_init_def by (intro logs_rules) simp

lemma logs_run_boot [logs_rules]: "logs (run_boot w b)"
  unfolding run_boot_def by (intro logs_rules)

section \<open>A run copies nothing\<close>

lemma onward_timed_out [onward_rules]: "onward (start_timed_out w b e)"
  unfolding start_timed_out_def write_logs_def by (cases e) (simp_all, (intro onward_rules)+)

lemma onward_handler [onward_rules]: "onward (boot_handler e)"
  unfolding boot_handler_def by (cases e) (simp_all, (intro onward_rules)+)

lemma onward_docker [onward_rules]: "onward (docker w b c n)"
  unfolding docker_def by (intro onward_rules) simp

lemma onward_run_boot [onward_rules]: "onward (run_boot w b)"
proof -
  have "onward (boot_body w b)"
    unfolding boot_body_def resolve_pinned_image_def create_container_def read_cidfile_def attach_def write_logs_def
      check_firmware_def check_state_def Let_def
    by (intro onward_rules)
  moreover have "onward (boot_cleanup w b)"
    unfolding boot_cleanup_def recover_step_def recover_creation_def remove_step_def serial_step_def collect_serial_def
      esp_step_def Let_def
    by (intro onward_rules)
  ultimately show ?thesis unfolding run_boot_def boot_init_def by (intro onward_rules)
qed

section \<open>What leaves a run\<close>

lemma keeps_timed_out [own_rules]:
  "(\<And>r x y. g (r\<lparr>k_attach_timed_out := x, k_docker_start_exit_code := y\<rparr>) = g r) \<Longrightarrow> keeps g (start_timed_out w b e)"
  unfolding start_timed_out_def write_logs_def by (cases e) (simp_all, (intro own_rules; simp)+)

lemma keeps_handler [own_rules]: "(\<And>r es. g (r\<lparr>k_errors := es\<rparr>) = g r) \<Longrightarrow> keeps g (boot_handler e)"
  unfolding boot_handler_def by (cases e) (simp_all, (intro own_rules; simp)+)

lemma keeps_linux_body: "keeps k_linux_replacement_qualified (boot_body w b)"
  unfolding boot_body_def resolve_pinned_image_def create_container_def read_cidfile_def attach_def write_logs_def
    check_firmware_def check_state_def docker_def Let_def
  by (intro own_rules) simp_all

lemma keeps_linux_handled: "handled q t r u \<Longrightarrow> k_linux_replacement_qualified (p_report u) = k_linux_replacement_qualified (p_report t)"
  by (auto simp: handled_def log_error_def split: sum.splits)

lemma cleanup_linux:
  assumes "boot_cleanup w b s = (r, s')" "\<not> k_linux_replacement_qualified (p_report s)"
  shows "\<not> k_linux_replacement_qualified (p_report s')"
proof -
  let ?g = "\<lambda>r. k_linux_replacement_qualified r"
  have k: "keeps ?g (recover_step w b)" "keeps ?g (remove_step w b)" "keeps ?g (serial_step w b)" "keeps ?g (esp_step w b)"
    unfolding recover_step_def recover_creation_def remove_step_def serial_step_def collect_serial_def esp_step_def
      docker_def Let_def
    by (intro own_rules; simp)+
  from assms show ?thesis
    unfolding boot_cleanup_def
    by (auto elim!: andthen_cases dest!: keepsD [OF k(1)] keepsD [OF k(2)] keepsD [OF k(3)] keepsD [OF k(4)])
qed

text \<open>
  C23: What leaves a probe run, whatever the docker commands, file accesses and JSON documents raise. It is an
  \<open>Unavailable\<close> or \<open>Failed\<close> that the report records, or what one of the two calls of \<open>exists\<close> in the \<open>finally\<close>
  block raises at the end of the run, for the serial log, only when no attach was attempted, or for the ESP.
  The errors reported so far are kept, and the report never claims a qualified Linux replacement.
\<close>

theorem run_boot_errors:
  assumes "run_boot w b s = (r, s')"
  shows "(\<exists>es. k_errors (p_report s') = k_errors (p_report s) @ es \<and>
      (\<forall>e. r = Inl e \<longrightarrow> described e \<in> set es \<and> (\<exists>m. e = Unavailable m \<or> e = Failed m) \<or>
         \<not> k_attach_attempted (p_report s') \<and> w_exists w (p_trace s') (w_join w (b_output b) (py ''serial.log'')) = Inl e \<or>
         w_exists w (p_trace s') (w_join w (b_inputs b) ESP_NAME) = Inl e)) \<and>
    \<not> k_linux_replacement_qualified (p_report s')"
  using assms
proof (rule run_boot_phases)
  fix i q t q' u c
  assume init: "boot_init w b s = (Inr (), i)" and body: "boot_body w b i = (q, t)" and h: "handled q t q' u"
    and cl: "boot_cleanup w b u = (c, s')" and r: "r = (case c of Inl e \<Rightarrow> Inl e | Inr _ \<Rightarrow> q')" and au: "after_body w b s u"
  obtain es1 where "errs t = errs s @ es1"
    using extends_trans [OF logsD [OF logs_boot_init init] logsD [OF logs_boot_body body]] by (auto simp: extends_def)
  moreover obtain es2 where "errs s' = errs u @ es2"
    using logsD [OF logs_boot_cleanup cl] by (auto simp: extends_def)
  moreover have "errs u = errs t @ (case q of Inl e \<Rightarrow> [described e] | Inr _ \<Rightarrow> [])"
    using h by (auto simp: handled_def errs_def log_error_def split: sum.splits)
  ultimately have "errs s' = errs s @ (es1 @ (case q of Inl e \<Rightarrow> [described e] | Inr _ \<Rightarrow> []) @ es2)" by simp
  moreover have "exists_raises w b s' e \<or> q = Inl e \<and> (\<exists>m. e = Unavailable m \<or> e = Failed m)" if "r = Inl e" for e
    using that r boot_cleanup_step [OF cl] au handled_exc [of q t e u] h by (auto simp: after_body_def split: sum.splits)
  moreover have "\<not> k_linux_replacement_qualified (p_report i)"
    using init by (auto simp: boot_init_def andthen_def bnd_def set_cid_def set_create_attempted_def upd_def)
  then have "\<not> k_linux_replacement_qualified (p_report s')"
    using cleanup_linux [OF cl] keeps_linux_handled [OF h] keepsD [OF keeps_linux_body body] by simp
  ultimately show ?thesis
    unfolding exists_raises_def serial_path_def esp_path_def by (fastforce simp: errs_def)
qed

section \<open>What a run without errors has observed\<close>

text \<open>The pinned environment and the outcome of the guest, as the report holds them.\<close>

text \<open>The text a reader gets that takes a missing file for an empty one.\<close>

definition serial_at :: "world \<Rightarrow> trace \<Rightarrow> pystr \<Rightarrow> pystr \<Rightarrow> bool" where
  "serial_at w tr path serial \<longleftrightarrow>
     w_exists w tr path = Inr True \<and> w_read_text w tr path = Inr serial \<or> w_exists w tr path = Inr False \<and> serial = []"

definition boot_evidence :: "world \<Rightarrow> boot_args \<Rightarrow> trace \<Rightarrow> 'm boot_report_scheme \<Rightarrow> bool" where
  "boot_evidence w b tr r \<longleftrightarrow>
     b_accel b = TCG \<and> k_qemu_accel r = Some TCG \<and> (\<exists>n. b_timeout b = VInt n \<and> 5 \<le> n \<and> n \<le> 120) \<and>
     k_verifier_image r = Some (b_image_id b) \<and> starts_with (b_image_id b) SHA_PREFIX \<and> valid_cid (drop 7 (b_image_id b)) \<and>
     (\<exists>c. valid_cid c \<and> k_owned_container_id r = Some c \<and> k_cleanup r = Some (c, 0)) \<and>
     k_launched r \<and> k_attach_attempted r \<and> k_docker_start_exit_code r = Some 33 \<and>
     k_container_state r = Some (StateDict (Some 33)) \<and>
     (\<exists>f. k_firmware_sha256 r = Some f \<and> f OVMF_CODE = Some PINNED_OVMF_CODE_SHA256 \<and>
        f RUN_VARS = Some PINNED_OVMF_VARS_SHA256) \<and>
     (\<exists>serial. serial_at w tr (serial_path w b) serial \<and> k_transcript r = Some (parse_serial serial) \<and>
        transcript_errors (parse_serial serial) = [])"

text \<open>The ESP that a run was given is the one it had, or is gone.\<close>

definition esp_kept :: "world \<Rightarrow> boot_args \<Rightarrow> trace \<Rightarrow> 'm boot_report_scheme \<Rightarrow> bool" where
  "esp_kept w b tr r \<longleftrightarrow>
     (case given (k_inputs r) ESP_NAME of
        None \<Rightarrow> True
      | Some (n, sha) \<Rightarrow>
          w_exists w tr (esp_path w b) = Inr False \<or>
          w_exists w tr (esp_path w b) = Inr True \<and> k_esp_unchanged r = Some True \<and>
          (\<exists>d. w_read_bytes w tr (esp_path w b) = Inr d \<and> w_sha w d = sha))"

lemma clean_docker [clean_rules]:
  "clean (docker w b c n) s y s' \<longleftrightarrow>
     w_docker w (p_trace s) c (docker_env w (b_docker_host b) (b_docker_config b)) n = Inr y \<and>
     s' = s\<lparr>p_trace := p_trace s @ [Docker c]\<rparr>"
  by (simp add: docker_def clean_perform)

lemma clean_catch_raise:
  assumes "logs m" "\<And>e. logs (h e)" "\<And>e t. \<not> clean (h e) t y s'"
  shows "clean (catch m h) s y s' \<longleftrightarrow> clean m s y s'"
proof
  assume c: "clean (catch m h) s y s'"
  then have "catch m h s = (Inr y, s')" "errs s' = errs s" by (auto simp: clean_def)
  then show "clean m s y s'"
  proof (cases rule: catch_cases [of m h s "Inr y" s'])
    case (caught e t)
    have "errs t = errs s"
      using extends_squeeze [OF logsD [OF assms(1) caught(1)] logsD [OF assms(2) caught(2)]]
        \<open>errs s' = errs s\<close> by simp
    with caught \<open>errs s' = errs s\<close> have "clean (h e) t y s'" by (simp add: clean_def)
    with assms(3) show ?thesis by blast
  qed (auto simp: clean_def)
qed (auto simp: clean_def catch_def)

lemma clean_guarded:
  "logs m \<Longrightarrow> clean (catch m (\<lambda>e. andthen (log_error (msg e)) (ret x))) s y s' \<longleftrightarrow> clean m s y s'"
  by (rule clean_catch_logged [where n = "\<lambda>e. ret x"]) (simp_all add: logs_rules)

lemmas clean_split = clean_bnd clean_andthen clean_finally clean_guarded logs_rules

lemma clean_read_text [clean_rules]:
  "clean (read_text w path) s y s' \<longleftrightarrow> w_read_text w (p_trace s) path = Inr y \<and> s' = s"
  by (simp add: read_text_def clean_look)

lemma clean_exists_path [clean_rules]:
  "clean (exists_path w path) s y s' \<longleftrightarrow> w_exists w (p_trace s) path = Inr y \<and> s' = s"
  by (simp add: exists_path_def clean_look)

lemma clean_digest [clean_rules]:
  "clean (digest w path) s y s' \<longleftrightarrow> (\<exists>d. w_read_bytes w (p_trace s) path = Inr d \<and> y = w_sha w d) \<and> s' = s"
  by (cases "w_read_bytes w (p_trace s) path") (auto simp: digest_def clean_look)

lemma clean_image_query [clean_rules]:
  "clean (catch (docker w b (image_cmd (b_image_ref b)) 20) (\<lambda>e. raise (image_exc e))) s y s' \<longleftrightarrow>
   clean (docker w b (image_cmd (b_image_ref b)) 20) s y s'"
  by (rule clean_catch_raise) (simp_all add: clean_raise logs_rules)

lemma clean_state_doc [clean_rules]:
  "clean (case d of NotADict b m \<Rightarrow> f b m | StateDict c \<Rightarrow> g c) s y s' \<longleftrightarrow>
     (\<exists>b m. d = NotADict b m \<and> clean (f b m) s y s') \<or> (\<exists>c. d = StateDict c \<and> clean (g c) s y s')"
  by (cases d) auto

lemma clean_if [clean_rules]:
  "clean (if c then m else n) s y s' \<longleftrightarrow> c \<and> clean m s y s' \<or> \<not> c \<and> clean n s y s'"
  by simp

lemma clean_resolve:
  assumes "clean (resolve_pinned_image w b) s v s'"
  shows "v = b_image_id b \<and> starts_with v SHA_PREFIX \<and> valid_cid (drop 7 v) \<and> p_report s' = p_report s"
  using assms unfolding resolve_pinned_image_def
  by (auto simp: clean_split clean_rules image_of_Inr)

lemma clean_write_logs: "clean (write_logs w b out err) s y s' \<Longrightarrow> p_report s' = p_report s \<and> p_cid s' = p_cid s"
  by (auto simp: write_logs_def write_text_def clean_split clean_rules)

lemma clean_timed_out: "\<not> clean (start_timed_out w b e) s y s'"
  unfolding start_timed_out_def
  by (cases e) (simp_all add: clean_raise clean_andthen logs_rules)

lemma clean_start_query:
  "clean (catch (docker w b (start_cmd c) n) (start_timed_out w b)) s y s' \<longleftrightarrow> clean (docker w b (start_cmd c) n) s y s'"
  by (rule clean_catch_raise) (simp_all add: clean_timed_out logs_rules)

lemma clean_attach:
  assumes "clean (attach w b c n) s started s'"
  shows "p_report s' = (p_report s)\<lparr>k_attach_attempted := True, k_docker_start_exit_code := Some (returncode started)\<rparr> \<and>
    p_cid s' = p_cid s"
  using assms unfolding attach_def
  by (auto simp: clean_split clean_rules clean_start_query dest!: clean_write_logs)

lemma clean_check_firmware:
  assumes "clean (check_firmware w b) s y s'"
  shows "p_cid s' = p_cid s \<and> (\<exists>f. p_report s' = (p_report s)\<lparr>k_firmware_sha256 := Some f\<rparr> \<and>
    f OVMF_CODE = Some PINNED_OVMF_CODE_SHA256 \<and> f RUN_VARS = Some PINNED_OVMF_VARS_SHA256)"
  using assms unfolding check_firmware_def Let_def
  by (auto simp: clean_split clean_rules)

lemma clean_check_state:
  assumes "clean (check_state w b c started) s y s'"
  shows "p_cid s' = p_cid s \<and> p_report s' = (p_report s)\<lparr>k_container_state := Some (StateDict (Some 33))\<rparr> \<and>
    returncode started = 33"
  using assms unfolding check_state_def
  by (auto simp: clean_split clean_rules)

lemma clean_create_container:
  assumes "clean (create_container w b img cmd) s c s'" "p_cid s = None"
  shows "p_cid s' = Some c \<and> valid_cid c \<and> p_report s' = p_report s"
  using create_container_step [of w b img cmd s "Inr c" s'] assms
  by (auto simp: clean_def from_cidfile_def)

lemma clean_boot_body:
  assumes "clean (boot_body w b) s y s'" "p_cid s = None"
  shows "\<exists>c f cmd. p_cid s' = Some c \<and> valid_cid c \<and> b_accel b = TCG \<and>
    (\<exists>n. b_timeout b = VInt n \<and> 5 \<le> n \<and> n \<le> 120) \<and>
    starts_with (b_image_id b) SHA_PREFIX \<and> valid_cid (drop 7 (b_image_id b)) \<and>
    f OVMF_CODE = Some PINNED_OVMF_CODE_SHA256 \<and> f RUN_VARS = Some PINNED_OVMF_VARS_SHA256 \<and>
    p_report s' = (p_report s)\<lparr>k_verifier_image := Some (b_image_id b), k_verifier_image_ref := Some (b_image_ref b),
      k_guest_command := Some cmd, k_owned_container_id := Some c, k_launched := True, k_attach_attempted := True,
      k_docker_start_exit_code := Some 33, k_firmware_sha256 := Some f,
      k_container_state := Some (StateDict (Some 33))\<rparr>"
proof -
  from assms(1) obtain t0 v t1 cmd c t2 started t3 t4 where
    "require_tcg w (b_accel b) = Inr ()" "\<exists>n. require_timeout (b_timeout b) = Inr n"
    and t1: "clean (resolve_pinned_image w b) s v t1"
    and t2: "clean (create_container w b v cmd) (t1\<lparr>p_report := (p_report t1)\<lparr>k_verifier_image := Some v,
        k_verifier_image_ref := Some (b_image_ref b), k_guest_command := Some cmd\<rparr>\<rparr>) c t2"
    and t3: "clean (attach w b c t0) (t2\<lparr>p_report := (p_report t2)\<lparr>k_owned_container_id := Some c, k_launched := True\<rparr>\<rparr>) started t3"
    and t4: "clean (check_firmware w b) t3 () t4" and s': "clean (check_state w b c started) t4 y s'"
    unfolding boot_body_def by (auto simp: clean_split clean_rules)
  moreover have "p_cid t1 = None"
    using issuesD [OF issues_resolve] t1 assms(2) by (fastforce simp: clean_def issued_def)
  ultimately show ?thesis
    using clean_resolve [OF t1] clean_create_container [OF t2] clean_attach [OF t3] clean_check_firmware [OF t4]
      clean_check_state [OF s']
    by (auto simp: require_tcg_def require_timeout_def require_range_def exc_simps split: pyval.splits)
qed

lemma clean_remove_step:
  assumes "clean (remove_step w b) s y s'" "p_cid s = Some c"
  shows "p_report s' = (p_report s)\<lparr>k_owned_container_id := Some c, k_cleanup := Some (c, 0)\<rparr>"
  using assms unfolding remove_step_def
  by (simp add: clean_split clean_rules) (auto simp: clean_split clean_rules)

lemma clean_collect_serial:
  assumes "clean (collect_serial w b) s y s'"
  shows "p_trace s' = p_trace s \<and> (\<exists>serial sha. serial_at w (p_trace s) (serial_path w b) serial \<and>
    transcript_errors (parse_serial serial) = [] \<and>
    p_report s' = (p_report s)\<lparr>k_serial_sha256 := sha, k_transcript := Some (parse_serial serial),
      k_kernel_entry_observed := Some (kernel_entry_observed (parse_serial serial)),
      k_errors := k_errors (p_report s)\<rparr>)"
proof -
  from assms obtain there serial sha t0 t1 t2 t where x: "clean (exists_path w (serial_path w b)) s there t0"
    "clean (if there then read_text w (serial_path w b) else ret []) t0 serial t1"
    "clean (if there then bnd (digest w (serial_path w b)) (\<lambda>d. ret (Some d)) else ret None) t1 sha t2"
    "clean (upd (\<lambda>r. r\<lparr>k_serial_sha256 := sha\<rparr>)) t2 () t"
    "clean (upd (\<lambda>r. r\<lparr>k_transcript := Some (parse_serial serial),
                k_kernel_entry_observed := Some (kernel_entry_observed (parse_serial serial)),
                k_errors := k_errors r @ transcript_errors (parse_serial serial)\<rparr>)) t () s'"
    unfolding collect_serial_def Let_def
    by (simp add: clean_bnd clean_andthen logs_rules, elim exE conjE) (rule that)
  from x(1-3) have "serial_at w (p_trace s) (serial_path w b) serial" "t2 = s"
    by (cases there; auto simp: clean_exists_path clean_read_text clean_ret clean_bnd clean_digest logs_rules serial_at_def)+
  with x(4,5) show ?thesis
    by (intro conjI exI [of _ serial] exI [of _ sha]) (simp_all add: clean_upd)
qed

lemma clean_serial_step:
  assumes "clean (serial_step w b) s y s'" "k_attach_attempted (p_report s)"
  shows "p_trace s' = p_trace s \<and> (\<exists>serial sha. serial_at w (p_trace s) (serial_path w b) serial \<and>
    transcript_errors (parse_serial serial) = [] \<and>
    p_report s' = (p_report s)\<lparr>k_serial_sha256 := sha, k_transcript := Some (parse_serial serial),
      k_kernel_entry_observed := Some (kernel_entry_observed (parse_serial serial)),
      k_errors := k_errors (p_report s)\<rparr>)"
proof -
  have "clean (collect_serial w b) s () s'"
    using assms unfolding serial_step_def
    by (simp add: clean_bnd clean_asking logs_rules) (auto simp: clean_guarded clean_ret logs_rules)
  then show ?thesis by (rule clean_collect_serial)
qed

lemma clean_esp_step:
  assumes "clean (esp_step w b) s y s'"
  shows "p_trace s' = p_trace s \<and> (\<exists>esp. p_report s' = (p_report s)\<lparr>k_esp_unchanged := esp\<rparr>) \<and> esp_kept w b (p_trace s) (p_report s')"
proof -
  obtain there where there: "w_exists w (p_trace s) (esp_path w b) = Inr there"
    using assms unfolding esp_step_def by (auto simp: clean_bnd clean_exists_path logs_rules)
  show ?thesis
  proof (cases "there \<and> given (k_inputs (p_report s)) ESP_NAME \<noteq> None")
    case True
    then obtain n sha where g: "given (k_inputs (p_report s)) ESP_NAME = Some (n, sha)" "there" by auto
    from assms there obtain d where d: "w_read_bytes w (p_trace s) (esp_path w b) = Inr d" "w_sha w d = sha"
      "s' = s\<lparr>p_report := (p_report s)\<lparr>k_esp_unchanged := Some True\<rparr>\<rparr>"
      unfolding esp_step_def by (auto simp: clean_split clean_rules g)
    then show ?thesis using g there by (auto simp: esp_kept_def)
  next
    case False
    then have none: "(if there then given (k_inputs (p_report s)) ESP_NAME else None) = None"
      by (cases there) (simp_all only: simp_thms if_True if_False)
    with assms there have "clean (ret ()) s y s'"
      unfolding esp_step_def by (simp add: clean_bnd clean_asking clean_exists_path logs_rules del: list.map)
    then have s': "s' = s" by (simp add: clean_ret)
    have "esp_kept w b (p_trace s) (p_report s)"
      using False there by (cases "given (k_inputs (p_report s)) ESP_NAME") (auto simp: esp_kept_def)
    then show ?thesis unfolding s' by (intro conjI exI [of _ "k_esp_unchanged (p_report s)"]) simp_all
  qed
qed

lemma clean_boot_init:
  assumes "clean (boot_init w b) s y s'"
  shows "p_cid s' = None \<and> p_trace s' = p_trace s \<and> k_qemu_accel (p_report s') = Some (b_accel b) \<and>
    k_inputs (p_report s') = k_inputs (p_report s)"
  using assms unfolding boot_init_def by (auto simp: clean_split clean_rules)

lemma clean_boot_cleanup:
  assumes "clean (boot_cleanup w b) s y s'" "p_cid s = Some c" "k_attach_attempted (p_report s)"
  shows "esp_kept w b (p_trace s') (p_report s') \<and> (\<exists>sha serial esp. serial_at w (p_trace s') (serial_path w b) serial \<and>
    transcript_errors (parse_serial serial) = [] \<and>
    p_report s' = (p_report s)\<lparr>k_owned_container_id := Some c, k_cleanup := Some (c, 0), k_serial_sha256 := sha,
      k_transcript := Some (parse_serial serial),
      k_kernel_entry_observed := Some (kernel_entry_observed (parse_serial serial)),
      k_esp_unchanged := esp, k_linux_replacement_qualified := False\<rparr>)"
proof -
  from assms(1) obtain t0 t1 t2 t3 where t0: "clean (recover_step w b) s () t0"
    and t1: "clean (remove_step w b) t0 () t1" and t2: "clean (serial_step w b) t1 () t2"
    and t3: "clean (esp_step w b) t2 () t3"
    and s': "s' = t3\<lparr>p_report := (p_report t3)\<lparr>k_linux_replacement_qualified := False\<rparr>\<rparr>"
    unfolding boot_cleanup_def by (auto simp: clean_andthen clean_upd logs_rules)
  have "t0 = s" using t0 assms(2) recover_step_commands [of w b s "Inr ()" t0] by (simp add: clean_def)
  then have r1: "p_report t1 = (p_report s)\<lparr>k_owned_container_id := Some c, k_cleanup := Some (c, 0)\<rparr>"
    using clean_remove_step [OF t1] assms(2) by simp
  obtain serial sha where t: "serial_at w (p_trace t1) (serial_path w b) serial" "transcript_errors (parse_serial serial) = []"
    and r2: "p_trace t2 = p_trace t1" "p_report t2 =
      (p_report t1)\<lparr>k_serial_sha256 := sha, k_transcript := Some (parse_serial serial),
      k_kernel_entry_observed := Some (kernel_entry_observed (parse_serial serial)),
      k_errors := k_errors (p_report t1)\<rparr>"
    using clean_serial_step [OF t2] r1 assms(3) by auto
  obtain esp where r3: "p_trace t3 = p_trace t2" "p_report t3 = (p_report t2)\<lparr>k_esp_unchanged := esp\<rparr>"
    "esp_kept w b (p_trace t2) (p_report t3)"
    using clean_esp_step [OF t3] by blast
  have "esp_kept w b (p_trace s') (p_report s')"
    using r3(1,3) s' by (auto simp: esp_kept_def split: option.splits prod.splits)
  then show ?thesis
    using t r1 r2 r3 s'
    by (intro conjI exI [of _ sha] exI [of _ serial] exI [of _ esp]) auto
qed

lemma run_boot_clean:
  assumes "run_boot w b s = (Inr (), s')" "k_errors (p_report s') = k_errors (p_report s)"
  shows "boot_evidence w b (p_trace s') (p_report s') \<and> esp_kept w b (p_trace s') (p_report s') \<and>
    k_inputs (p_report s') = k_inputs (p_report s)"
proof -
  have "clean (run_boot w b) s () s'" using assms by (simp add: clean_def errs_def)
  then obtain i u where i: "clean (boot_init w b) s () i" and u: "clean (catch (boot_body w b) boot_handler) i () u"
    and s': "clean (boot_cleanup w b) u () s'"
    unfolding run_boot_def by (auto simp: clean_andthen clean_finally logs_rules)
  have u: "clean (boot_body w b) i () u"
    using u by (subst (asm) clean_catch_logged [where n = "\<lambda>e. case e of Unavailable m \<Rightarrow> raise e | Failed m \<Rightarrow> raise e | _ \<Rightarrow> ret ()"])
      (auto simp: boot_handler_def logs_rules split: pexc.split)
  note i' = clean_boot_init [OF i]
  obtain c f cmd where body: "p_cid u = Some c" "valid_cid c" "b_accel b = TCG"
    "\<exists>n. b_timeout b = VInt n \<and> 5 \<le> n \<and> n \<le> 120"
    "starts_with (b_image_id b) SHA_PREFIX" "valid_cid (drop 7 (b_image_id b))"
    "f OVMF_CODE = Some PINNED_OVMF_CODE_SHA256" "f RUN_VARS = Some PINNED_OVMF_VARS_SHA256"
    "p_report u = (p_report i)\<lparr>k_verifier_image := Some (b_image_id b), k_verifier_image_ref := Some (b_image_ref b),
      k_guest_command := Some cmd, k_owned_container_id := Some c, k_launched := True, k_attach_attempted := True,
      k_docker_start_exit_code := Some 33, k_firmware_sha256 := Some f,
      k_container_state := Some (StateDict (Some 33))\<rparr>"
    using clean_boot_body [OF u conjunct1 [OF i']] by (elim exE conjE) (rule that, (assumption | (intro exI conjI, assumption+))+)
  have attached: "k_attach_attempted (p_report u)" using body(9) by simp
  obtain sha serial esp where kept: "esp_kept w b (p_trace s') (p_report s')"
    and at: "serial_at w (p_trace s') (serial_path w b) serial" and fin: "transcript_errors (parse_serial serial) = []"
    "p_report s' = (p_report u)\<lparr>k_owned_container_id := Some c, k_cleanup := Some (c, 0), k_serial_sha256 := sha,
      k_transcript := Some (parse_serial serial),
      k_kernel_entry_observed := Some (kernel_entry_observed (parse_serial serial)),
      k_esp_unchanged := esp, k_linux_replacement_qualified := False\<rparr>"
    using clean_boot_cleanup [OF s' body(1) attached] by (elim exE conjE) (rule that)
  have "boot_evidence w b (p_trace s') (p_report s')"
    unfolding boot_evidence_def using body at fin i' by auto
  moreover have "k_inputs (p_report s') = k_inputs (p_report s)" using body(9) fin(2) i' by simp
  ultimately show ?thesis using kept by blast
qed

text \<open>
  C16: A probe run that returns without adding an error is evidence: TCG and an admissible timeout, the
  pinned image under its own digest, one owned container that was launched and removed, both exit codes 33,
  the pinned firmware hashes, and the text of the serial log at the end of the run, accepted as a transcript
  without errors. Where the inputs list an ESP, either the file is gone at the end of the run, or it has the
  listed digest and the report says that it is unchanged.
\<close>

theorem run_boot_clean_evidence:
  assumes "run_boot w b s = (Inr (), s')" "k_errors (p_report s') = k_errors (p_report s)"
  shows "boot_evidence w b (p_trace s') (p_report s') \<and>
    (given (k_inputs (p_report s)) ESP_NAME = Some (n, sha) \<longrightarrow>
      w_exists w (p_trace s') (w_join w (b_inputs b) ESP_NAME) = Inr False \<or>
      w_exists w (p_trace s') (w_join w (b_inputs b) ESP_NAME) = Inr True \<and> k_esp_unchanged (p_report s') = Some True \<and>
      (\<exists>d. w_read_bytes w (p_trace s') (w_join w (b_inputs b) ESP_NAME) = Inr d \<and> w_sha w d = sha))"
  using run_boot_clean [OF assms] by (auto simp: esp_kept_def esp_path_def)

end
