(* ===== verification/Qualify.thy ===== *)
theory Qualify
  imports Probe_Spec
begin

text \<open>
  The first-slice qualifier \<open>scripts/qualify-native/qualify.py\<close>: the output directory check, the
  snapshot of the artifacts, the image inspection, the ESP binding of theory \<open>Esp_Verify\<close>, the probe
  of theory \<open>Probe\<close>, and the verdict with its exit code. The report extends the probe's; the
  serialisation of the report (\<open>json.dumps\<close>) is the parameter \<open>dumps\<close>, and what is printed is the
  summary returned.
\<close>

section \<open>The report and the arguments\<close>

record qualify_report = boot_report +
  k_status :: verdict
  k_verdict :: verdict
  k_run_dir :: pystr
  k_imginfo :: "(pystr \<times> pystr) option"
  k_esp_binding :: "esp_report option"

record qargs =
  q_esp_image :: pystr
  q_loader :: pystr
  q_kernel :: pystr
  q_initramfs :: pystr
  q_imginfo :: pystr
  q_initramfs_path :: pystr
  q_qemu_image :: pystr
  q_qemu_image_id :: pystr
  q_qemu_accel :: pystr
  q_timeout :: pyval
  q_evidence_parent :: pystr
  q_docker_host :: "pystr option"
  q_docker_config :: "pystr option"

record summary =
  s_status :: verdict
  s_verdict :: verdict
  s_run_dir :: "pystr option"
  s_kernel_entry_observed :: bool
  s_linux_replacement_qualified :: bool
  s_launched :: bool
  s_errors :: "pystr list"
  s_evidence :: "pystr option"

definition LOADER_PATH :: pystr where "LOADER_PATH = py ''/EFI/BOOT/BOOTX64.EFI''"
definition KERNEL_PATH :: pystr where "KERNEL_PATH = py ''/ZK/KERNEL.ELF''"
definition LOADER_NAME :: pystr where "LOADER_NAME = py ''BOOTX64.efi''"
definition KERNEL_NAME :: pystr where "KERNEL_NAME = py ''zk-kernel''"
definition INITRAMFS_NAME :: pystr where "INITRAMFS_NAME = py ''initramfs.bin''"
definition QSCOPE :: pystr where
  "QSCOPE = py ''native firmware/kernel first-slice bootstrap only; '' @
     py ''linux_replacement_qualified is always false''"

section \<open>Inputs\<close>

text \<open>\<open>drive.upper()\<close>: only the letters d and D have the upper case D.\<close>

definition require_d_output :: "world \<Rightarrow> pystr \<Rightarrow> pexc + pystr" where
  "require_d_output w path =
    ebind (if w_is_absolute w path then Inr path else ebind (w_cwd w) (\<lambda>cwd. Inr (w_join w cwd path))) (\<lambda>candidate.
    ebind (w_resolve w candidate) (\<lambda>resolved.
    ensure (\<not> (w_nt w \<and> ascii_upper (w_drive w resolved) \<noteq> py ''D:''))
      (Unavailable (py ''output must be on D:, got '' @ resolved))
      (Inr resolved)))"

definition resolve_docker_config :: "world \<Rightarrow> pystr option \<Rightarrow> ('m, pystr option) act" where
  "resolve_docker_config w explicit =
    (case explicit of
       None \<Rightarrow> ret None
     | Some path \<Rightarrow>
         if path = [] then ret None
         else bnd (look (\<lambda>tr. w_is_dir w tr path)) (\<lambda>ok.
           if \<not> ok then raise (Unavailable (py ''docker config directory missing: '' @ path))
           else bnd (lift (w_resolve w path)) (\<lambda>resolved. ret (Some resolved))))"

definition imginfo_exc :: "pystr \<Rightarrow> pystr \<Rightarrow> pexc \<Rightarrow> pexc" where
  "imginfo_exc imginfo kind e =
    (case e of
       FileNotFoundError m \<Rightarrow> Unavailable (py ''imginfo not executable: '' @ imginfo)
     | TimeoutExpired m out err \<Rightarrow> Failed (py ''imginfo '' @ kind @ py '' timed out'')
     | _ \<Rightarrow> e)"

definition run_imginfo :: "world \<Rightarrow> pystr \<Rightarrow> pystr \<Rightarrow> pystr \<Rightarrow> ('m, pystr) act" where
  "run_imginfo w imginfo kind path =
    bnd (look (\<lambda>tr. w_is_file w tr imginfo)) (\<lambda>ok.
    if \<not> ok then raise (Unavailable (py ''imginfo missing: '' @ imginfo))
    else
      bnd (catch (perform (RunTool [imginfo, kind, path]) (\<lambda>tr. w_tool w tr [imginfo, kind, path]))
             (\<lambda>e. raise (imginfo_exc imginfo kind e))) (\<lambda>proc.
      let text = strip (stdout proc @ stderr proc) in
      if returncode proc \<noteq> 0
      then raise (Failed (py ''imginfo '' @ kind @ py '' failed (rc='' @ show_int (returncode proc) @ py ''): '' @ text))
      else ret text))"

definition make_dir :: "world \<Rightarrow> pystr \<Rightarrow> ('m, unit) act" where
  "make_dir w path = perform (MakeDir path) (\<lambda>tr. refused (w_mkdir w tr path))"

definition copy_artifact :: "world \<Rightarrow> pystr \<Rightarrow> pystr \<Rightarrow> ('m, unit) act" where
  "copy_artifact w source target =
    bnd (look (\<lambda>tr. w_is_file w tr source)) (\<lambda>ok.
    if \<not> ok then raise (Unavailable (py ''missing artifact: '' @ source))
    else perform (CopyFile source target) (\<lambda>tr. refused (w_copy w tr source target)))"

definition artifact :: "world \<Rightarrow> trace \<Rightarrow> pystr \<Rightarrow> pystr \<Rightarrow> pexc + (pystr \<times> nat \<times> pystr)" where
  "artifact w tr inputs name =
    ebind (w_stat_size w tr (w_join w inputs name)) (\<lambda>bytes.
    ebind (w_read_bytes w tr (w_join w inputs name)) (\<lambda>content.
    Inr (name, bytes, w_sha w content)))"

definition inventory :: "world \<Rightarrow> pystr \<Rightarrow> trace \<Rightarrow> pexc + (pystr \<Rightarrow> (nat \<times> pystr) option)" where
  "inventory w inputs tr =
    ebind (w_iterdir w tr inputs) (\<lambda>names.
    ebind (emap (artifact w tr inputs) names) (\<lambda>items.
    Inr (foldl (\<lambda>m (name, item). m(name \<mapsto> item)) Map.empty items)))"

definition inputs_dir :: "world \<Rightarrow> pystr \<Rightarrow> pystr" where "inputs_dir w run = w_join w run (py ''inputs'')"
definition output_dir :: "world \<Rightarrow> pystr \<Rightarrow> pystr" where "output_dir w run = w_join w run (py ''output'')"

definition snapshot_inputs :: "world \<Rightarrow> qargs \<Rightarrow> pystr \<Rightarrow> ('m, pystr \<Rightarrow> (nat \<times> pystr) option) act" where
  "snapshot_inputs w q run =
    (let inputs = inputs_dir w run in
     andthen (make_dir w inputs)
    (andthen (make_dir w (output_dir w run))
    (andthen (copy_artifact w (q_esp_image q) (w_join w inputs ESP_NAME))
    (andthen (copy_artifact w (q_loader q) (w_join w inputs LOADER_NAME))
    (andthen (copy_artifact w (q_kernel q) (w_join w inputs KERNEL_NAME))
    (andthen (copy_artifact w (q_initramfs q) (w_join w inputs INITRAMFS_NAME))
    (look (inventory w inputs))))))))"

section \<open>The binding of the ESP\<close>

text \<open>
  The host of \<open>fat16.verify\<close>: a file access that raises \<open>OSError\<close> or a subclass does so there, and so does
  any other exception, such as the \<open>ValueError\<close> of a path with a NUL.
\<close>

definition host_exc :: "pexc \<Rightarrow> exc" where
  "host_exc e =
    (case e of
       FileNotFoundError m \<Rightarrow> OSError (exc_name e) m
     | OSErrorOther n m \<Rightarrow> OSError n m
     | _ \<Rightarrow> OtherExc (exc_name e) (exc_text e))"

definition esp_host :: "world \<Rightarrow> trace \<Rightarrow> host" where
  "esp_host w tr =
    \<lparr>h_read = (\<lambda>p. map_sum host_exc id (w_read_bytes w tr p)),
     h_resolve = (\<lambda>p. map_sum host_exc id (w_resolve w p)), h_sha = w_sha w\<rparr>"

definition raised :: "world \<Rightarrow> exc \<Rightarrow> pexc" where
  "raised w e =
    (case e of
       OSError n m \<Rightarrow> (if n = py ''FileNotFoundError'' then FileNotFoundError m else OSErrorOther n m)
     | OtherExc n m \<Rightarrow> OtherException n m
     | InvalidESP m \<Rightarrow> OtherException (py ''InvalidESP'') (w_str w e)
     | StructError \<Rightarrow> OtherException (py ''error'') (w_str w e)
     | IndexError \<Rightarrow> OtherException (py ''IndexError'') (w_str w e)
     | UnicodeError \<Rightarrow> OtherException (py ''UnicodeDecodeError'') (w_str w e))"

definition esp_error_text :: "world \<Rightarrow> esp_error \<Rightarrow> pystr" where
  "esp_error_text w err =
    (case err of
       Raised e \<Rightarrow> exc_text (raised w e)
     | MissingPath logical \<Rightarrow> py ''missing path: '' @ logical
     | ArtifactMismatch logical \<Rightarrow> py ''artifact mismatch: '' @ logical)"

definition expected_artifacts :: "world \<Rightarrow> pystr \<Rightarrow> pystr \<Rightarrow> (pystr \<times> pystr) list" where
  "expected_artifacts w inputs initramfs_path =
    [(LOADER_PATH, w_join w inputs LOADER_NAME), (KERNEL_PATH, w_join w inputs KERNEL_NAME),
     (initramfs_path, w_join w inputs INITRAMFS_NAME)]"

definition bind_esp :: "world \<Rightarrow> qargs \<Rightarrow> pystr \<Rightarrow> trace \<Rightarrow> pexc + esp_report" where
  "bind_esp w q run tr =
    map_sum (raised w) id
      (ebind (canonical_path (q_initramfs_path q)) (\<lambda>initramfs_path.
       ebind (verify (esp_host w tr) (w_join w (inputs_dir w run) ESP_NAME)
                (expected_artifacts w (inputs_dir w run) initramfs_path)) (\<lambda>(binding, _).
       Inr binding)))"

definition boot_args_of :: "world \<Rightarrow> qargs \<Rightarrow> pystr \<Rightarrow> pystr option \<Rightarrow> boot_args" where
  "boot_args_of w q run docker_config =
    \<lparr>b_inputs = inputs_dir w run, b_output = output_dir w run, b_timeout = q_timeout q,
     b_image_ref = q_qemu_image q, b_image_id = q_qemu_image_id q, b_accel = q_qemu_accel q,
     b_docker_host = (case q_docker_host q of Some h \<Rightarrow> if h \<noteq> [] then Some h else None | None \<Rightarrow> None),
     b_docker_config = docker_config\<rparr>"

text \<open>From the docker configuration to the boot: the part the two qualifiers share.\<close>

definition check_binding :: "world \<Rightarrow> qargs \<Rightarrow> pystr \<Rightarrow> ('x qualify_report_ext, unit) act" where
  "check_binding w q run =
    bnd (look (bind_esp w q run)) (\<lambda>binding.
    andthen (write_text w (w_join w run (py ''esp-binding.json'')) (w_dumps_binding w binding))
   (andthen (upd (\<lambda>r. r\<lparr>k_esp_binding := Some binding\<rparr>))
   (if r_status binding \<noteq> Pass
    then raise (Failed (py ''ESP artifact binding failed: '' @
           join_with (py ''; '') (map (esp_error_text w) (r_errors binding))))
    else ret ())))"

definition bind_and_boot :: "world \<Rightarrow> qargs \<Rightarrow> pystr \<Rightarrow> ('x qualify_report_ext, unit) act" where
  "bind_and_boot w q run =
    bnd (resolve_docker_config w (q_docker_config q)) (\<lambda>docker_config.
    bnd (snapshot_inputs w q run) (\<lambda>artifacts.
    andthen (upd (\<lambda>r. r\<lparr>k_inputs := Some artifacts\<rparr>))
   (bnd (run_imginfo w (q_imginfo q) (py ''pe'') (w_join w (inputs_dir w run) LOADER_NAME)) (\<lambda>pe.
    bnd (run_imginfo w (q_imginfo q) (py ''elf'') (w_join w (inputs_dir w run) KERNEL_NAME)) (\<lambda>elf.
    andthen (upd (\<lambda>r. r\<lparr>k_imginfo := Some (pe, elf)\<rparr>))
   (andthen (check_binding w q run)
   (run_boot w (boot_args_of w q run docker_config))))))))"

section \<open>The verdict\<close>

definition initial_report :: "world \<Rightarrow> pystr \<Rightarrow> qualify_report" where
  "initial_report w run =
    \<lparr>k_errors = [], k_linux_replacement_qualified = False, k_scope = QSCOPE, k_creation_identity = None,
     k_expected_markers = MARKERS, k_kernel_entry_observed = Some False, k_qemu_accel = None,
     k_docker_host = None, k_docker_config = None, k_verifier_image = None, k_verifier_image_ref = None,
     k_guest_command = None, k_owned_container_id = None, k_launched = False, k_attach_attempted = False,
     k_attach_timed_out = False, k_docker_start_exit_code = None, k_firmware_sha256 = None,
     k_container_state = None, k_cleanup = None, k_creation_ownership_unresolved = None,
     k_creation_reconciliation = None, k_serial_sha256 = None, k_transcript = None, k_inputs = None,
     k_esp_unchanged = None, k_status = Verdict_fail, k_verdict = Verdict_fail, k_run_dir = run, k_imginfo = None,
     k_esp_binding = None\<rparr>"

definition set_verdict :: "verdict \<Rightarrow> ('x qualify_report_ext, unit) act" where
  "set_verdict v = upd (\<lambda>r. r\<lparr>k_status := v, k_verdict := v\<rparr>)"

definition qualify_handler :: "pexc \<Rightarrow> ('x qualify_report_ext, unit) act" where
  "qualify_handler e =
    (case e of
       Unavailable m \<Rightarrow> andthen (log_error m) (set_verdict Verdict_unavailable)
     | Failed m \<Rightarrow> andthen (log_error m) (set_verdict Verdict_fail)
     | _ \<Rightarrow> andthen (log_error (described e)) (set_verdict Verdict_fail))"

definition exit_code :: "verdict \<Rightarrow> int" where
  "exit_code v = (case v of Verdict_pass \<Rightarrow> 0 | Verdict_unavailable \<Rightarrow> 2 | Verdict_fail \<Rightarrow> 1)"

text \<open>The \<open>try\<close> statement of both qualifiers, which differ in the check of the timeout.\<close>

definition try_launch :: "(pyval \<Rightarrow> pexc + int) \<Rightarrow> world \<Rightarrow> qargs \<Rightarrow> pystr \<Rightarrow> ('x qualify_report_ext, unit) act" where
  "try_launch check_timeout w q run =
    catch
      (bnd (lift (check_timeout (q_timeout q))) (\<lambda>_.
       bnd (lift (require_tcg w (q_qemu_accel q))) (\<lambda>_.
       bind_and_boot w q run)))
      qualify_handler"

definition qualify_try :: "world \<Rightarrow> qargs \<Rightarrow> pystr \<Rightarrow> ('x qualify_report_ext, unit) act" where
  "qualify_try = try_launch require_timeout"

definition decide :: "(unit qualify_report_ext, unit) act" where
  "decide =
    andthen (upd (\<lambda>r. if k_status r \<noteq> Verdict_unavailable
              then (let v = (if k_errors r = [] then Verdict_pass else Verdict_fail) in r\<lparr>k_status := v, k_verdict := v\<rparr>)
              else r))
      (upd (\<lambda>r. r\<lparr>k_linux_replacement_qualified := False\<rparr>))"

definition evidence_path :: "world \<Rightarrow> pystr \<Rightarrow> pystr" where
  "evidence_path w run = w_join w run (py ''evidence.json'')"

definition write_evidence :: "world \<Rightarrow> (qualify_report \<Rightarrow> pystr) \<Rightarrow> pystr \<Rightarrow> (unit qualify_report_ext, unit) act" where
  "write_evidence w dumps run =
    andthen (upd (\<lambda>r. r\<lparr>k_linux_replacement_qualified := False\<rparr>))
      (bnd (asking (\<lambda>s. dumps (p_report s))) (\<lambda>text. write_text w (evidence_path w run) text))"

definition summarise :: "world \<Rightarrow> pystr \<Rightarrow> qualify_report \<Rightarrow> summary" where
  "summarise w run r =
    \<lparr>s_status = k_status r, s_verdict = k_verdict r, s_run_dir = Some (k_run_dir r),
     s_kernel_entry_observed = (k_kernel_entry_observed r = Some True),
     s_linux_replacement_qualified = False, s_launched = k_launched r, s_errors = k_errors r,
     s_evidence = Some (evidence_path w run)\<rparr>"

definition unavailable_summary :: "pexc \<Rightarrow> summary" where
  "unavailable_summary e =
    \<lparr>s_status = Verdict_unavailable, s_verdict = Verdict_unavailable, s_run_dir = None, s_kernel_entry_observed = False,
     s_linux_replacement_qualified = False, s_launched = False, s_errors = [exc_text e], s_evidence = None\<rparr>"

definition run_dir :: "world \<Rightarrow> pystr \<Rightarrow> pystr" where
  "run_dir w parent = w_join w parent (py ''native-qualify-'' @ w_run_stamp w)"

definition qualify :: "world \<Rightarrow> (qualify_report \<Rightarrow> pystr) \<Rightarrow> qargs \<Rightarrow> (unit qualify_report_ext, int \<times> summary) act" where
  "qualify w dumps q =
    (case require_d_output w (q_evidence_parent q) of
       Inl (Unavailable m) \<Rightarrow> ret (2, unavailable_summary (Unavailable m))
     | Inl e \<Rightarrow> raise e
     | Inr parent \<Rightarrow>
        (let run = run_dir w parent in
         andthen (make_dir w parent)
        (andthen (make_dir w run)
        (andthen (upd (\<lambda>_. initial_report w run))
        (andthen (qualify_try w q run)
        (andthen decide
        (andthen (write_evidence w dumps run)
        (asking (\<lambda>s. (exit_code (k_status (p_report s)), summarise w run (p_report s)))))))))))"

end
