(* ===== verification/QualifyVM.thy ===== *)
theory QualifyVM
  imports Qualify VM_Cycles
begin

text \<open>
  The VM qualifier \<open>scripts/qualify-native/qualify_vm.py\<close>: the same snapshot, binding and probe as
  \<open>qualify.py\<close>, then the strict VM transcript of \<open>parse_vm_serial\<close>. In the two negative modes the run
  is never a pass; it records whether the expected failure was observed with an otherwise sound
  transport. The report extends the first-slice report with the keys of this profile.
\<close>

definition PROFILE :: pystr where "PROFILE = py ''native-vm-probe-v1''"
definition VM_SCOPE :: pystr where
  "VM_SCOPE = py ''native CPL0 private-VM mapping qualification only; '' @
     py ''linux_replacement_qualified, cpl3_execution_qualified and '' @
     py ''user_supervisor_isolation_qualified are always false''"
definition GUEST_FAIL_EXIT :: int where "GUEST_FAIL_EXIT = 47"

record vm_evidence = qualify_report +
  k_profile :: "pystr option"
  k_mode :: pystr
  k_cpl3_execution_qualified :: bool
  k_user_supervisor_isolation_qualified :: bool
  k_vm_qualified :: bool
  k_expected_negative_observed :: bool
  k_vm_transcript :: "vm_report option"
  k_kernel_sha256 :: "pystr option"
  k_fixture_sha256 :: "pystr list option"
  k_fixture_len :: "nat list option"

section \<open>The expected negative outcome\<close>

definition owned_container_id_ok :: "pystr option \<Rightarrow> bool" where
  "owned_container_id_ok value =
    (case value of None \<Rightarrow> False | Some c \<Rightarrow> length c = 64 \<and> (\<forall>x\<in>set c. x \<in> set hexdigits))"

definition ends_with :: "pystr \<Rightarrow> pystr \<Rightarrow> bool" where
  "ends_with s t \<longleftrightarrow> starts_with (rev s) (rev t)"

definition allowed_negative_error :: "pystr \<Rightarrow> bool" where
  "allowed_negative_error message \<longleftrightarrow>
     message = EXIT33 \<or>
     message = py ''Failed: '' @ EXIT33 \<or>
     (starts_with message (py ''Failed: '') \<and> ends_with message EXIT33) \<or>
     starts_with message (py ''Contradictory or malformed native exit'') \<or>
     starts_with message (py ''Native exit precedes completion'') \<or>
     message = py ''Required native stages missing or out of order''"

text \<open>
  The checks in order, each a return of \<open>False\<close>; \<open>(report.get("container_state") or {}).get(..)\<close> raises
  on a JSON document that is neither a dictionary nor falsy.
\<close>

definition container_exit :: "state_doc option \<Rightarrow> pexc + int option" where
  "container_exit doc =
    (case doc of
       None \<Rightarrow> Inr None
     | Some (StateDict code) \<Rightarrow> Inr code
     | Some (NotADict truthy m) \<Rightarrow> if truthy then Inl (OtherException (py ''AttributeError'') m) else Inr None)"

definition kernel_digest_ok :: "(nat \<times> pystr) option \<Rightarrow> pystr option \<Rightarrow> bool" where
  "kernel_digest_ok entry recorded =
    (case entry of
       None \<Rightarrow> False
     | Some (_, ksha) \<Rightarrow> ksha \<noteq> [] \<and> (recorded = None \<or> recorded = Some ksha))"

definition after_exit_ok :: "('x vm_evidence_scheme) \<Rightarrow> bool" where
  "after_exit_ok r \<longleftrightarrow>
     k_docker_start_exit_code r = Some GUEST_FAIL_EXIT \<and>
     map_option snd (k_cleanup r) = Some 0 \<and>
     owned_container_id_ok (k_owned_container_id r) \<and>
     map_option fst (k_cleanup r) = k_owned_container_id r \<and>
     k_esp_unchanged r = Some True \<and>
     map_option r_status (k_esp_binding r) = Some Pass \<and>
     k_profile r = Some PROFILE \<and>
     k_qemu_accel r = Some TCG \<and>
     k_verifier_image r = Some PINNED_IMAGE_ID \<and>
     (case k_firmware_sha256 r of
        None \<Rightarrow> False
      | Some f \<Rightarrow> f OVMF_CODE = Some PINNED_OVMF_CODE_SHA256 \<and> f RUN_VARS = Some PINNED_OVMF_VARS_SHA256) \<and>
     kernel_digest_ok (given (k_inputs r) KERNEL_NAME) (k_kernel_sha256 r) \<and>
     (\<forall>err\<in>set (k_errors r). allowed_negative_error err)"

definition expected_negative_transport_ok :: "'x vm_evidence_scheme \<Rightarrow> pexc + bool" where
  "expected_negative_transport_ok r =
    (if \<not> k_launched r \<or> \<not> k_attach_attempted r \<or> k_attach_timed_out r then Inr False
     else ebind (container_exit (k_container_state r)) (\<lambda>code.
       Inr (code = Some GUEST_FAIL_EXIT \<and> after_exit_ok r)))"

definition require_vm_timeout :: "pyval \<Rightarrow> pexc + int" where
  "require_vm_timeout = require_range 75 120 (py ''vm timeout must be an integer between 75 and 120 seconds'')"

section \<open>The transcript\<close>

definition raised_value_error :: "world \<Rightarrow> value_error \<Rightarrow> pexc" where
  "raised_value_error w e = OtherException (py ''ValueError'') (w_limit_text w e)"

definition negative_transcript_ok :: "pystr \<Rightarrow> pystr \<Rightarrow> vm_report \<Rightarrow> bool" where
  "negative_transcript_ok serial mode parsed \<longleftrightarrow>
     (case vm_fail parsed of
        None \<Rightarrow> False
      | Some (_, stage, reason) \<Rightarrow>
          stage = (if mode = SKIP_SWITCH then py ''switch'' else py ''fault-ro'') \<and>
          reason = (if mode = SKIP_SWITCH then py ''cr3-readback'' else py ''expected-pf'')) \<and>
     \<not> vm_complete parsed \<and> vm_errors parsed = [] \<and>
     contains (py ''ZKN: exit code=17'') serial \<and>
     \<not> contains (py ''ZKN: vm-complete'') serial \<and>
     \<not> contains (py ''ZKN: done'') serial"

definition store_transcript :: "vm_report \<Rightarrow> 'x vm_evidence_scheme \<Rightarrow> 'x vm_evidence_scheme" where
  "store_transcript parsed r =
    (let r = r\<lparr>k_vm_transcript := Some parsed,
               k_errors := k_errors r @ vm_errors parsed,
               k_kernel_sha256 := map_option snd (given (k_inputs r) KERNEL_NAME)\<rparr>
     in if vr_fixtures parsed \<noteq> []
        then r\<lparr>k_fixture_sha256 := Some (map (\<lambda>(_, _, h). h) (vr_fixtures parsed)),
               k_fixture_len := Some (map (\<lambda>(_, n, _). n) (vr_fixtures parsed))\<rparr>
        else r)"

definition NOT_OBSERVED :: pystr where "NOT_OBSERVED = py ''expected negative failure was not observed''"

definition judge_negative :: "pystr \<Rightarrow> pystr \<Rightarrow> vm_report \<Rightarrow> ('x vm_evidence_ext qualify_report_ext, unit) act" where
  "judge_negative serial mode parsed =
    (if mode \<noteq> POSITIVE then
       bnd (if negative_transcript_ok serial mode parsed
            then bnd (asking (\<lambda>s. expected_negative_transport_ok (p_report s))) lift else ret False) (\<lambda>expected.
       andthen (if expected then ret () else log_error NOT_OBSERVED)
         (upd (\<lambda>r. r\<lparr>k_expected_negative_observed := expected\<rparr>)))
     else upd (\<lambda>r. r\<lparr>k_expected_negative_observed := False\<rparr>))"

definition apply_vm_transcript :: "world \<Rightarrow> pystr \<Rightarrow> pystr \<Rightarrow> ('x vm_evidence_ext qualify_report_ext, unit) act" where
  "apply_vm_transcript w output mode =
    (let serial_file = w_join w output (py ''serial.log'') in
     bnd (exists_path w serial_file) (\<lambda>there.
     bnd (if there then read_text w serial_file else ret []) (\<lambda>serial.
     bnd (lift (map_sum (raised_value_error w) id (parse_vm_serial (w_repr w) serial mode))) (\<lambda>parsed.
     andthen (upd (store_transcript parsed))
    (andthen (judge_negative serial mode parsed)
    (upd (\<lambda>r. r\<lparr>k_vm_qualified := (mode = POSITIVE \<and> vm_errors parsed = [] \<and> vm_complete parsed \<and>
                 k_errors r = [])\<rparr>)))))))"

section \<open>The run\<close>

record vm_summary = summary +
  s_profile :: pystr
  s_mode :: "pystr option"
  s_vm_qualified :: bool
  s_expected_negative_observed :: bool
  s_cpl3_execution_qualified :: bool
  s_user_supervisor_isolation_qualified :: bool

definition vm_initial_report :: "pystr \<Rightarrow> pystr \<Rightarrow> vm_evidence" where
  "vm_initial_report mode run =
    \<lparr>k_errors = [], k_linux_replacement_qualified = False, k_scope = VM_SCOPE, k_creation_identity = None,
     k_expected_markers = [], k_kernel_entry_observed = Some False, k_qemu_accel = None,
     k_docker_host = None, k_docker_config = None, k_verifier_image = None, k_verifier_image_ref = None,
     k_guest_command = None, k_owned_container_id = None, k_launched = False, k_attach_attempted = False,
     k_attach_timed_out = False, k_docker_start_exit_code = None, k_firmware_sha256 = None,
     k_container_state = None, k_cleanup = None, k_creation_ownership_unresolved = None,
     k_creation_reconciliation = None, k_serial_sha256 = None, k_transcript = None, k_inputs = None,
     k_esp_unchanged = None, k_status = Verdict_fail, k_verdict = Verdict_fail, k_run_dir = run, k_imginfo = None,
     k_esp_binding = None, k_profile = Some PROFILE, k_mode = mode, k_cpl3_execution_qualified = False,
     k_user_supervisor_isolation_qualified = False, k_vm_qualified = False,
     k_expected_negative_observed = False, k_vm_transcript = None, k_kernel_sha256 = None,
     k_fixture_sha256 = None, k_fixture_len = None\<rparr>"

definition vm_try :: "world \<Rightarrow> qargs \<Rightarrow> pystr \<Rightarrow> ('x qualify_report_ext, unit) act" where
  "vm_try = try_launch require_vm_timeout"

text \<open>
  \<open>output is not None\<close> holds exactly when the snapshot was taken and its inventory stored. The call of
  \<open>exists\<close> is outside the \<open>try\<close>.
\<close>

definition vm_evidence_step :: "world \<Rightarrow> pystr \<Rightarrow> pystr \<Rightarrow> ('x vm_evidence_ext qualify_report_ext, unit) act" where
  "vm_evidence_step w mode run =
    bnd (asking (\<lambda>s. (k_inputs (p_report s) \<noteq> None, k_attach_attempted (p_report s), k_launched (p_report s))))
      (\<lambda>(snapshot, attempted, launched).
    bnd (if snapshot then
           (if attempted then ret True else exists_path w (w_join w (output_dir w run) (py ''serial.log'')))
         else ret False) (\<lambda>there.
    if there then
      catch (apply_vm_transcript w (output_dir w run) mode)
        (\<lambda>e. andthen (log_error (py ''VM transcript failed: '' @ described e)) (ret ()))
    else if mode = POSITIVE \<and> launched then log_error (py ''VM serial evidence missing'')
    else ret ()))"

definition vm_decided :: "pystr \<Rightarrow> 'x vm_evidence_scheme \<Rightarrow> 'x vm_evidence_scheme" where
  "vm_decided mode r =
    (let r =
       (if mode \<noteq> POSITIVE then
          (let r = r\<lparr>k_vm_qualified := False\<rparr> in
           if k_status r \<noteq> Verdict_unavailable then r\<lparr>k_status := Verdict_fail, k_verdict := Verdict_fail\<rparr> else r)
        else if k_status r \<noteq> Verdict_unavailable then
          (let v = (if k_errors r = [] \<and> k_vm_qualified r then Verdict_pass else Verdict_fail);
               r = r\<lparr>k_status := v, k_verdict := v\<rparr>
           in if v \<noteq> Verdict_pass then r\<lparr>k_vm_qualified := False\<rparr> else r)
        else r)
     in r\<lparr>k_linux_replacement_qualified := False, k_cpl3_execution_qualified := False,
          k_user_supervisor_isolation_qualified := False\<rparr>)"

definition vm_write_evidence ::
  "world \<Rightarrow> (vm_evidence \<Rightarrow> pystr) \<Rightarrow> pystr \<Rightarrow> (unit vm_evidence_ext qualify_report_ext, unit) act" where
  "vm_write_evidence w dumps run =
    andthen (upd (\<lambda>r. r\<lparr>k_linux_replacement_qualified := False, k_cpl3_execution_qualified := False,
                    k_user_supervisor_isolation_qualified := False\<rparr>))
      (bnd (asking (\<lambda>s. dumps (p_report s))) (\<lambda>text. write_text w (evidence_path w run) text))"

definition vm_summarise :: "world \<Rightarrow> pystr \<Rightarrow> pystr \<Rightarrow> vm_evidence \<Rightarrow> vm_summary" where
  "vm_summarise w mode run r =
    \<lparr>s_status = k_status r, s_verdict = k_verdict r, s_run_dir = Some (k_run_dir r),
     s_kernel_entry_observed = (k_kernel_entry_observed r = Some True),
     s_linux_replacement_qualified = False, s_launched = k_launched r, s_errors = k_errors r,
     s_evidence = Some (evidence_path w run), s_profile = PROFILE, s_mode = Some mode,
     s_vm_qualified = k_vm_qualified r, s_expected_negative_observed = k_expected_negative_observed r,
     s_cpl3_execution_qualified = False, s_user_supervisor_isolation_qualified = False\<rparr>"

definition vm_unavailable_summary :: "pexc \<Rightarrow> vm_summary" where
  "vm_unavailable_summary e =
    \<lparr>s_status = Verdict_unavailable, s_verdict = Verdict_unavailable, s_run_dir = None,
     s_kernel_entry_observed = False, s_linux_replacement_qualified = False, s_launched = False,
     s_errors = [exc_text e], s_evidence = None, s_profile = PROFILE, s_mode = None, s_vm_qualified = False,
     s_expected_negative_observed = False, s_cpl3_execution_qualified = False,
     s_user_supervisor_isolation_qualified = False\<rparr>"

definition vm_run_dir :: "world \<Rightarrow> pystr \<Rightarrow> pystr" where
  "vm_run_dir w parent = w_join w parent (py ''native-vm-qualify-'' @ w_run_stamp w)"

definition qualify_vm ::
  "world \<Rightarrow> (vm_evidence \<Rightarrow> pystr) \<Rightarrow> qargs \<Rightarrow> pystr \<Rightarrow>
   (unit vm_evidence_ext qualify_report_ext, int \<times> vm_summary) act" where
  "qualify_vm w dumps q mode =
    (case require_d_output w (q_evidence_parent q) of
       Inl (Unavailable m) \<Rightarrow> ret (2, vm_unavailable_summary (Unavailable m))
     | Inl e \<Rightarrow> raise e
     | Inr parent \<Rightarrow>
        (let run = vm_run_dir w parent in
         andthen (make_dir w parent)
        (andthen (make_dir w run)
        (andthen (upd (\<lambda>_. vm_initial_report mode run))
        (andthen (vm_try w q run)
        (andthen (vm_evidence_step w mode run)
        (andthen (upd (vm_decided mode))
        (andthen (vm_write_evidence w dumps run)
        (asking (\<lambda>s. (exit_code (k_status (p_report s)), vm_summarise w mode run (p_report s))))))))))))"

end
