(* ===== verification/Qualify_Spec.thy ===== *)
theory Qualify_Spec
  imports Qualify
begin

text \<open>
  What the first-slice qualifier guarantees: its exit code is its verdict, a pass carries the whole
  evidence of the snapshot, of the binding and of the probe, no docker command is issued before the ESP binding has
  passed, and no run claims a qualified Linux replacement.
\<close>

section \<open>The probe leaves the caller's keys alone\<close>

definition own :: "'m boot_report_scheme \<Rightarrow> 'm \<times> (pystr \<Rightarrow> (nat \<times> pystr) option) option" where
  "own r = (boot_report.more r, k_inputs r)"

lemma own_basic [simp]: "own (r\<lparr>k_errors := es\<rparr>) = own r"
  by (simp add: own_def)

lemma keeps_own_body [own_rules]: "keeps own (boot_body w b)"
  unfolding boot_body_def resolve_pinned_image_def create_container_def read_cidfile_def attach_def write_logs_def
    check_firmware_def check_state_def docker_def Let_def
  by (intro own_rules) (simp_all add: own_def)

lemma keeps_own_cleanup [own_rules]: "keeps own (boot_cleanup w b)"
  unfolding boot_cleanup_def recover_step_def recover_creation_def remove_step_def serial_step_def collect_serial_def
    esp_step_def docker_def Let_def
  by (intro own_rules) (simp_all add: own_def)

lemma keeps_own_run_boot: "keeps own (run_boot w b)"
  unfolding run_boot_def boot_init_def by (intro own_rules) (simp_all add: own_def)

section \<open>The qualifier's actions\<close>

lemma quiet_qualify_actions [quiet_rules]:
  "quiet (resolve_docker_config w c)" "quiet (make_dir w p)" "quiet (copy_artifact w p p')"
  "quiet (run_imginfo w i k p)" "quiet (snapshot_inputs w q run)" "quiet (check_binding w q run)"
proof -
  show make: "quiet (make_dir w p)" for p :: pystr
    unfolding make_dir_def by (intro quiet_rules) simp
  show copy: "quiet (copy_artifact w p p')" for p p' :: pystr
    unfolding copy_artifact_def by (intro quiet_rules) simp
  show "quiet (resolve_docker_config w c)"
    unfolding resolve_docker_config_def by (intro quiet_rules)
  show "quiet (run_imginfo w i k p)"
    unfolding run_imginfo_def Let_def by (intro quiet_rules) simp
  show "quiet (snapshot_inputs w q run)"
    unfolding snapshot_inputs_def Let_def by (intro quiet_rules make copy)
  show "quiet (check_binding w q run)"
    unfolding check_binding_def by (intro quiet_rules)
qed

lemma logs_qualify_actions [logs_rules]:
  "logs (resolve_docker_config w c)" "logs (make_dir w p)" "logs (copy_artifact w p p')"
  "logs (run_imginfo w i k p)" "logs (snapshot_inputs w q run)" "logs (check_binding w q run)"
  unfolding resolve_docker_config_def make_dir_def copy_artifact_def run_imginfo_def snapshot_inputs_def
    check_binding_def Let_def
  by (intro logs_rules; simp)+

lemma logs_bind_and_boot [logs_rules]: "logs (bind_and_boot w q run)"
  unfolding bind_and_boot_def by (intro logs_rules) simp_all

lemma logs_handler_q [logs_rules]: "logs (qualify_handler e)"
  unfolding qualify_handler_def set_verdict_def by (cases e) (simp_all, (intro logs_rules; simp)+)

lemma logs_try_launch [logs_rules]: "logs (try_launch chk w q run)"
  unfolding try_launch_def by (intro logs_rules)

section \<open>The launch gate\<close>

text \<open>What the report of a launched run says of the binding, and what the launch did.\<close>

definition bound_launch :: "world \<Rightarrow> qargs \<Rightarrow> pystr \<Rightarrow> 'x qualify_report_scheme \<Rightarrow> command list \<Rightarrow> bool" where
  "bound_launch w q run r cs \<longleftrightarrow>
     (\<exists>binding tr. k_esp_binding r = Some binding \<and> r_status binding = Pass \<and> bind_esp w q run tr = Inr binding) \<and>
     k_imginfo r \<noteq> None \<and> (\<exists>config. boot_commands w (boot_args_of w q run config) cs)"

definition gated :: "world \<Rightarrow> qargs \<Rightarrow> pystr \<Rightarrow> 'x qualify_report_ext pst \<Rightarrow> 'x qualify_report_ext pst \<Rightarrow> bool" where
  "gated w q run s s' \<longleftrightarrow> dockers (p_trace s') = dockers (p_trace s) \<or>
     (\<exists>cs. dockers (p_trace s') = dockers (p_trace s) @ cs \<and> bound_launch w q run (p_report s') cs)"

lemma gated_quiet: "same_control s s' \<Longrightarrow> gated w q run s s'"
  by (simp add: gated_def same_control_def)

lemma check_binding_step:
  assumes "check_binding w q run s = (r, s')"
  shows "same_control s s' \<and> k_imginfo (p_report s') = k_imginfo (p_report s) \<and>
    (r = Inr () \<longrightarrow> (\<exists>binding. k_esp_binding (p_report s') = Some binding \<and> r_status binding = Pass \<and>
       bind_esp w q run (p_trace s) = Inr binding))"
proof -
  have "same_control s s'" by (rule quietD [OF quiet_qualify_actions(6) assms])
  moreover have "k_imginfo (p_report s') = k_imginfo (p_report s) \<and>
    (r = Inr () \<longrightarrow> (\<exists>binding. k_esp_binding (p_report s') = Some binding \<and> r_status binding = Pass \<and>
       bind_esp w q run (p_trace s) = Inr binding))"
    using assms unfolding check_binding_def
    by (elim bnd_cases andthen_cases)
       (auto simp: look_def write_text_def perform_def ret_def raise_def split: if_splits)
  ultimately show ?thesis by blast
qed

lemma own_imginfo:
  "own r' = own r \<Longrightarrow> k_imginfo r' = k_imginfo r \<and> k_esp_binding r' = k_esp_binding r \<and>
     k_status r' = k_status r \<and> k_verdict r' = k_verdict r"
  by (cases r; cases r') (simp add: own_def)

lemma run_boot_gated:
  assumes "run_boot w (boot_args_of w q run config) s = (r, s')" "k_esp_binding (p_report s) = Some binding"
    "r_status binding = Pass" "bind_esp w q run tr = Inr binding" "k_imginfo (p_report s) \<noteq> None"
  shows "gated w q run s s'"
proof -
  obtain cs where cs: "dockers (p_trace s') = dockers (p_trace s) @ cs" "boot_commands w (boot_args_of w q run config) cs"
    using run_boot_commands [of w "boot_args_of w q run config" s] assms(1) by auto
  have "own (p_report s') = own (p_report s)" by (rule keepsD [OF keeps_own_run_boot assms(1)])
  with own_imginfo [OF this] cs assms(2-5) show ?thesis
    unfolding gated_def bound_launch_def by metis
qed

lemma bind_and_boot_gated:
  assumes "bind_and_boot w q run s = (r, s')"
  shows "gated w q run s s'"
  using assms unfolding bind_and_boot_def
proof (elim bnd_cases andthen_cases, goal_cases)
  case (7 c t0 artifacts t1 t2 pe t3 elf t4 t5 e)
  have "same_control s t5"
    using quietD [OF quiet_qualify_actions(1) 7(1)] quietD [OF quiet_qualify_actions(5) 7(2)]
      quietD [OF quiet_qualify_actions(4) 7(4)] quietD [OF quiet_qualify_actions(4) 7(5)] 7(3,6)
    by (simp add: same_control_def)
  moreover have "same_control t5 s'" using check_binding_step [OF 7(7)] by blast
  ultimately show ?case by (intro gated_quiet) (rule same_control_trans)
next
  case (8 c t0 artifacts t1 t2 pe t3 elf t4 t5 t6)
  have "same_control s t5"
    using quietD [OF quiet_qualify_actions(1) 8(1)] quietD [OF quiet_qualify_actions(5) 8(2)]
      quietD [OF quiet_qualify_actions(4) 8(4)] quietD [OF quiet_qualify_actions(4) 8(5)] 8(3,6)
    by (simp add: same_control_def)
  moreover obtain binding where "same_control t5 t6" "k_imginfo (p_report t6) \<noteq> None"
    "k_esp_binding (p_report t6) = Some binding" "r_status binding = Pass" "bind_esp w q run (p_trace t5) = Inr binding"
    using check_binding_step [OF 8(7)] 8(6) by auto
  moreover from this(2-) 8(8) have "gated w q run t6 s'" by (blast intro: run_boot_gated)
  ultimately show ?case by (simp add: gated_def same_control_def)
qed (auto intro!: gated_quiet dest!: quietD [OF quiet_qualify_actions(1)] quietD [OF quiet_qualify_actions(5)]
      quietD [OF quiet_qualify_actions(4)] simp: same_control_def)

text \<open>A run of the qualifier: either the output directory is refused, or its phases compose.\<close>

lemma qualify_handler_step:
  "qualify_handler e s = (r, s') \<Longrightarrow> r = Inr () \<and> same_control s s' \<and>
     k_imginfo (p_report s') = k_imginfo (p_report s) \<and> k_esp_binding (p_report s') = k_esp_binding (p_report s)"
  unfolding qualify_handler_def set_verdict_def
  by (cases e) (auto elim!: andthen_cases simp: log_error_def same_control_def)

lemma gated_handled:
  "gated w q run s t \<Longrightarrow> same_control t u \<Longrightarrow> k_imginfo (p_report u) = k_imginfo (p_report t) \<Longrightarrow>
   k_esp_binding (p_report u) = k_esp_binding (p_report t) \<Longrightarrow> gated w q run s u"
  by (simp add: gated_def same_control_def bound_launch_def)

lemma try_launch_step:
  assumes "try_launch chk w q run s = (r, s')"
  shows "r = Inr () \<and> gated w q run s s'"
proof -
  from assms obtain p t where body: "(bnd (lift (chk (q_timeout q))) (\<lambda>_.
       bnd (lift (require_tcg w (q_qemu_accel q))) (\<lambda>_. bind_and_boot w q run))) s = (p, t)"
    and h: "(\<exists>e. p = Inl e \<and> qualify_handler e t = (r, s')) \<or> (p = Inr () \<and> r = p \<and> s' = t)"
    unfolding try_launch_def by (auto elim!: catch_cases)
  from body have g: "gated w q run s t"
    by (elim bnd_cases) (auto intro: bind_and_boot_gated gated_quiet)
  with h show ?thesis by (auto dest!: qualify_handler_step intro: gated_handled)
qed

definition statuses :: "'x qualify_report_scheme \<Rightarrow> verdict \<times> verdict" where
  "statuses r = (k_status r, k_verdict r)"

lemma keeps_statuses_run_boot [own_rules]: "keeps statuses (run_boot w b)"
  unfolding keeps_iff statuses_def
  using keepsD [OF keeps_own_run_boot] own_imginfo by (metis prod.collapse)

lemma keeps_statuses_bind_and_boot: "keeps statuses (bind_and_boot w q run)"
  unfolding bind_and_boot_def resolve_docker_config_def make_dir_def copy_artifact_def run_imginfo_def
    snapshot_inputs_def check_binding_def Let_def
  by (intro own_rules) (simp_all add: statuses_def)

lemma try_launch_status:
  assumes "try_launch chk w q run s = (r, s')" "k_verdict (p_report s) = k_status (p_report s)"
  shows "k_verdict (p_report s') = k_status (p_report s')"
proof -
  let ?body = "bnd (lift (chk (q_timeout q))) (\<lambda>_.
       bnd (lift (require_tcg w (q_qemu_accel q))) (\<lambda>_. bind_and_boot w q run))"
  have k: "keeps statuses ?body" by (intro own_rules keeps_statuses_bind_and_boot)
  from assms(1) show ?thesis
    unfolding try_launch_def
  proof (cases rule: catch_cases)
    case (caught e t)
    then show ?thesis
      by (cases e) (auto simp: qualify_handler_def set_verdict_def log_error_def elim!: andthen_cases)
  next
    case (returned x)
    with keepsD [OF k returned(1)] assms(2) show ?thesis by (simp add: statuses_def)
  qed
qed

definition decided :: "qualify_report \<Rightarrow> qualify_report" where
  "decided r =
    (let r = (if k_status r \<noteq> Verdict_unavailable
              then (let v = (if k_errors r = [] then Verdict_pass else Verdict_fail) in r\<lparr>k_status := v, k_verdict := v\<rparr>)
              else r)
     in r\<lparr>k_linux_replacement_qualified := False\<rparr>)"

lemma qualify_cases:
  assumes "qualify w dumps q s = (Inr (code, sm), s')"
  obtains (refused) m where "require_d_output w (q_evidence_parent q) = Inl (Unavailable m)" "code = 2"
      "sm = unavailable_summary (Unavailable m)" "s' = s"
  | (ran) parent run t u where "require_d_output w (q_evidence_parent q) = Inr parent" "run = run_dir w parent"
      "dockers (p_trace t) = dockers (p_trace s)" "p_report t = initial_report w run"
      "qualify_try w q run t = (Inr (), u)"
      "p_trace s' = p_trace u @ [WriteText (evidence_path w run) (dumps (p_report s'))]"
      "p_report s' = decided (p_report u)" "code = exit_code (k_status (p_report s'))" "sm = summarise w run (p_report s')"
proof (cases "require_d_output w (q_evidence_parent q)")
  case (Inl e)
  with assms have r: "(\<exists>m. e = Unavailable m) \<and> code = 2 \<and> sm = unavailable_summary e \<and> s' = s"
    by (cases e) (simp_all add: qualify_def ret_def raise_def)
  then obtain m where "e = Unavailable m" by blast
  with r Inl show ?thesis using refused [of m] by simp
next
  case (Inr parent)
  with assms obtain t0 t1 t2 u v x where steps: "make_dir w parent s = (Inr (), t0)"
    "make_dir w (run_dir w parent) t0 = (Inr (), t1)" "t2 = t1\<lparr>p_report := initial_report w (run_dir w parent)\<rparr>"
    "qualify_try w q (run_dir w parent) t2 = (Inr (), u)" "decide u = (Inr (), v)"
    "write_evidence w dumps (run_dir w parent) v = (Inr (), x)"
    "asking (\<lambda>s. (exit_code (k_status (p_report s)), summarise w (run_dir w parent) (p_report s))) x = (Inr (code, sm), s')"
    by (auto simp: qualify_def Let_def elim!: andthen_cases)
  have "dockers (p_trace t2) = dockers (p_trace s)"
    using quietD [OF quiet_qualify_actions(2) steps(1)] quietD [OF quiet_qualify_actions(2) steps(2)] steps(3)
    by (simp add: same_control_def)
  moreover have "p_report v = decided (p_report u) \<and> p_trace v = p_trace u"
    using steps(5) by (auto simp: decide_def decided_def Let_def elim!: andthen_cases)
  moreover have "p_report s' = (p_report v)\<lparr>k_linux_replacement_qualified := False\<rparr> \<and>
      p_trace s' = p_trace v @ [WriteText (evidence_path w (run_dir w parent)) (dumps (p_report s'))] \<and>
      code = exit_code (k_status (p_report s')) \<and> sm = summarise w (run_dir w parent) (p_report s')"
    using steps(6,7) by (auto simp: write_evidence_def write_text_def perform_def asking_def elim!: andthen_cases bnd_cases)
  ultimately show ?thesis
    using steps(3,4) Inr by (intro ran [of parent "run_dir w parent" t2 u]) (auto simp: decided_def Let_def)
qed

lemma try_launch_unavailable:
  assumes "try_launch chk w q run s = (r, s')" "k_status (p_report s) \<noteq> Verdict_unavailable"
    "k_status (p_report s') = Verdict_unavailable"
  shows "k_errors (p_report s') \<noteq> []"
proof -
  let ?body = "bnd (lift (chk (q_timeout q))) (\<lambda>_.
       bnd (lift (require_tcg w (q_qemu_accel q))) (\<lambda>_. bind_and_boot w q run))"
  have k: "keeps statuses ?body" by (intro own_rules keeps_statuses_bind_and_boot)
  from assms(1) show ?thesis
    unfolding try_launch_def
  proof (cases rule: catch_cases)
    case (caught e t)
    then show ?thesis
      by (cases e) (auto simp: qualify_handler_def set_verdict_def log_error_def elim!: andthen_cases)
  next
    case (returned x)
    with keepsD [OF k returned(1)] assms(2,3) show ?thesis by (simp add: statuses_def)
  qed
qed

lemma exit_code_status:
  "exit_code v = 0 \<longleftrightarrow> v = Verdict_pass" "exit_code v = 1 \<longleftrightarrow> v = Verdict_fail" "exit_code v = 2 \<longleftrightarrow> v = Verdict_unavailable"
  by (cases v; simp add: exit_code_def)+

text \<open>
  C25: The verdict of a run. The exit code is 0 for a pass, 1 for a failure and 2 for an unavailable
  environment, and a run passes exactly when it has no error. A refused output directory is unavailable and
  leaves the host untouched. Every other completed run ends by writing its evidence file, which holds the
  status, verdict and errors of the summary; nothing claims a qualified Linux replacement.
\<close>

theorem qualify_exit_code:
  assumes "qualify w dumps q s = (Inr (code, sm), s')"
  shows "(code = 0 \<longleftrightarrow> s_status sm = Verdict_pass) \<and> (code = 1 \<longleftrightarrow> s_status sm = Verdict_fail) \<and>
    (code = 2 \<longleftrightarrow> s_status sm = Verdict_unavailable) \<and> s_verdict sm = s_status sm \<and>
    (s_status sm = Verdict_pass \<longleftrightarrow> s_errors sm = []) \<and> \<not> s_linux_replacement_qualified sm \<and>
    (case require_d_output w (q_evidence_parent q) of
       Inl e \<Rightarrow> (\<exists>m. e = Unavailable m) \<and> code = 2 \<and> s' = s
     | Inr parent \<Rightarrow>
         (\<exists>tr. p_trace s' = tr @ [WriteText (w_join w (run_dir w parent) (py ''evidence.json'')) (dumps (p_report s'))]) \<and>
         k_status (p_report s') = s_status sm \<and> k_verdict (p_report s') = s_status sm \<and>
         k_errors (p_report s') = s_errors sm \<and> \<not> k_linux_replacement_qualified (p_report s'))"
  using assms
proof (cases rule: qualify_cases)
  case refused
  then show ?thesis by (simp add: unavailable_summary_def)
next
  case (ran parent run t u)
  have u: "k_verdict (p_report u) = k_status (p_report u)"
    "k_status (p_report u) = Verdict_unavailable \<longrightarrow> k_errors (p_report u) \<noteq> []"
    using try_launch_status [OF ran(5) [unfolded qualify_try_def]]
      try_launch_unavailable [OF ran(5) [unfolded qualify_try_def]] ran(4) by (simp_all add: initial_report_def)
  have d: "k_verdict (decided r) = k_status (decided r)" "k_status (decided r) = Verdict_pass \<longleftrightarrow> k_errors (decided r) = []"
      "\<not> k_linux_replacement_qualified (decided r)"
    if "k_verdict r = k_status r" "k_status r = Verdict_unavailable \<longrightarrow> k_errors r \<noteq> []" for r
    using that by (auto simp: decided_def Let_def)
  have s: "s_status sm = k_status (p_report s')" "s_verdict sm = k_verdict (p_report s')" "s_errors sm = k_errors (p_report s')"
      "\<not> s_linux_replacement_qualified sm"
    by (simp_all add: ran(9) summarise_def)
  show ?thesis
    using d [OF u] ran(1,2,6)
    unfolding s(1-3) ran(8) exit_code_status ran(7) evidence_path_def by (simp add: s(4))
qed

text \<open>
  C10: Nothing is launched before the artifacts are bound. If a qualifier run issues any docker command at
  all, then both image inspections had returned, the ESP binding had passed for the snapshot that is
  booted, and the commands are those of one probe run.
\<close>

theorem qualify_launch_gate:
  assumes "qualify w dumps q s = (Inr (code, sm), s')" "dockers (p_trace s') \<noteq> dockers (p_trace s)"
  shows "\<exists>parent cs. require_d_output w (q_evidence_parent q) = Inr parent \<and>
    dockers (p_trace s') = dockers (p_trace s) @ cs \<and> bound_launch w q (run_dir w parent) (p_report s') cs"
  using assms(1)
proof (cases rule: qualify_cases)
  case (ran parent run t u)
  then have "gated w q run t u" using try_launch_step unfolding qualify_try_def by blast
  with ran assms(2) obtain cs where "dockers (p_trace u) = dockers (p_trace t) @ cs" "bound_launch w q run (p_report u) cs"
    by (auto simp: gated_def)
  with ran show ?thesis
    by (intro exI [of _ parent] exI [of _ cs]) (auto simp: bound_launch_def decided_def Let_def)
qed (use assms in auto)

section \<open>The snapshot\<close>

text \<open>
  The supplied artifacts and their names in the snapshot, the copying of files into a directory without
  failure, from one trace to another, and the traces in which the last copies are those of the snapshot.
\<close>

definition supplied :: "qargs \<Rightarrow> (pystr \<times> pystr) list" where
  "supplied q = [(q_esp_image q, ESP_NAME), (q_loader q, LOADER_NAME), (q_kernel q, KERNEL_NAME), (q_initramfs q, INITRAMFS_NAME)]"

fun copied :: "world \<Rightarrow> pystr \<Rightarrow> (pystr \<times> pystr) list \<Rightarrow> trace \<Rightarrow> trace \<Rightarrow> bool" where
  "copied w dir [] tr tr' \<longleftrightarrow> tr' = tr"
| "copied w dir ((source, name) # files) tr tr' \<longleftrightarrow>
     w_is_file w tr source = Inr True \<and> w_copy w tr source (w_join w dir name) = None \<and>
     copied w dir files (tr @ [CopyFile source (w_join w dir name)]) tr'"

definition snapshot_taken :: "world \<Rightarrow> qargs \<Rightarrow> pystr \<Rightarrow> trace \<Rightarrow> bool" where
  "snapshot_taken w q run tr \<longleftrightarrow>
     (\<exists>start mid rest. copied w (inputs_dir w run) (supplied q) start mid \<and> tr = mid @ rest \<and> no_copies rest)"

lemma snapshot_taken_later: "snapshot_taken w q run (p_trace s) \<Longrightarrow> later s t \<Longrightarrow> snapshot_taken w q run (p_trace t)"
  unfolding snapshot_taken_def later_def by fastforce

lemma clean_copy:
  "clean (copy_artifact w source target) s y s' \<longleftrightarrow>
     w_is_file w (p_trace s) source = Inr True \<and> w_copy w (p_trace s) source target = None \<and>
     s' = s\<lparr>p_trace := p_trace s @ [CopyFile source target]\<rparr>"
  unfolding copy_artifact_def
  by (auto simp: clean_split logs_rules clean_rules refused_def split: option.splits)

lemma clean_snapshot:
  assumes "clean (snapshot_inputs w q run) s arts s'"
  shows "p_report s' = p_report s \<and> snapshot_taken w q run (p_trace s')"
proof -
  from assms obtain t0 t where t: "clean (make_dir w (inputs_dir w run)) s () t0"
    "clean (make_dir w (output_dir w run)) t0 () t"
    "p_report s' = p_report t" "copied w (inputs_dir w run) (supplied q) (p_trace t) (p_trace s')"
    unfolding snapshot_inputs_def Let_def
    by (auto simp: clean_andthen clean_look clean_copy logs_rules supplied_def)
  then have "p_report t = p_report s" by (auto simp: make_dir_def clean_rules)
  with t show ?thesis unfolding snapshot_taken_def
    by (intro conjI exI [of _ "p_trace t"] exI [of _ "p_trace s'"] exI [of _ "[]"]) simp_all
qed

lemma onward_qualify_actions [onward_rules]:
  "onward (run_imginfo w i k p)" "onward (check_binding w q run)"
  unfolding run_imginfo_def check_binding_def Let_def by (intro onward_rules; simp)+

section \<open>The evidence of a pass\<close>

lemma clean_check_binding:
  assumes "clean (check_binding w q run) s y s'"
  shows "\<exists>binding. bind_esp w q run (p_trace s) = Inr binding \<and> r_status binding = Pass \<and>
    p_report s' = (p_report s)\<lparr>k_esp_binding := Some binding\<rparr>"
  using assms unfolding check_binding_def
  by (auto simp: clean_split logs_rules clean_rules write_text_def)

lemma clean_imginfo: "clean (run_imginfo w i k p) s x s' \<Longrightarrow> p_report s' = p_report s"
  unfolding run_imginfo_def Let_def
  by (auto simp: clean_split logs_rules clean_rules clean_catch_raise)

lemma clean_later: "onward m \<Longrightarrow> clean m s x s' \<Longrightarrow> later s s'"
  by (auto simp: clean_def dest: onwardD)

text \<open>
  The evidence of a passed run that has come to the trace \<open>tr\<close>: at an earlier moment, after which no file was
  copied, the snapshot had been taken and its binding passed; the images were inspected; the probe's
  evidence; and the booted ESP unchanged, unless it is gone.
\<close>

definition pass_evidence :: "world \<Rightarrow> qargs \<Rightarrow> pystr \<Rightarrow> trace \<Rightarrow> 'x qualify_report_scheme \<Rightarrow> bool" where
  "pass_evidence w q run tr r \<longleftrightarrow>
     (\<exists>binding before after. k_esp_binding r = Some binding \<and> r_status binding = Pass \<and>
        bind_esp w q run before = Inr binding \<and> snapshot_taken w q run before \<and>
        tr = before @ after \<and> no_copies after) \<and>
     k_imginfo r \<noteq> None \<and> (\<exists>config. boot_evidence w (boot_args_of w q run config) tr r) \<and>
     (\<forall>n sha. given (k_inputs r) ESP_NAME = Some (n, sha) \<longrightarrow>
        (let esp = w_join w (inputs_dir w run) ESP_NAME in
         w_exists w tr esp = Inr False \<or>
         w_exists w tr esp = Inr True \<and> k_esp_unchanged r = Some True \<and>
         (\<exists>d. w_read_bytes w tr esp = Inr d \<and> w_sha w d = sha)))"

lemma clean_bind_and_boot:
  assumes "clean (bind_and_boot w q run) s y s'"
  shows "pass_evidence w q run (p_trace s') (p_report s')"
proof -
  from assms obtain config arts pe elf ta t0 t1 t2 t3 t4 where
    t0: "clean (snapshot_inputs w q run) ta arts t0"
    and t1: "t1 = t0\<lparr>p_report := (p_report t0)\<lparr>k_inputs := Some arts\<rparr>\<rparr>"
    and t2: "clean (run_imginfo w (q_imginfo q) (py ''pe'') (w_join w (inputs_dir w run) LOADER_NAME)) t1 pe t2"
    and t3: "clean (run_imginfo w (q_imginfo q) (py ''elf'') (w_join w (inputs_dir w run) KERNEL_NAME)) t2 elf t3"
    and t4: "clean (check_binding w q run) (t3\<lparr>p_report := (p_report t3)\<lparr>k_imginfo := Some (pe, elf)\<rparr>\<rparr>) () t4"
    and boot: "clean (run_boot w (boot_args_of w q run config)) t4 () s'"
    unfolding bind_and_boot_def by (auto simp: clean_bnd clean_andthen clean_upd logs_rules)
  have "later t1 t2" "later t2 t3" by (rule clean_later [OF onward_qualify_actions(1) t2], rule clean_later [OF onward_qualify_actions(1) t3])
  then have "later t1 t3" by (rule time.step_trans)
  moreover have "snapshot_taken w q run (p_trace t1)" using clean_snapshot [OF t0] t1 by simp
  ultimately have taken: "snapshot_taken w q run (p_trace t3)" by (blast intro: snapshot_taken_later)
  obtain binding where b: "bind_esp w q run (p_trace t3) = Inr binding" "r_status binding = Pass"
    "p_report t4 = (p_report t3)\<lparr>k_imginfo := Some (pe, elf), k_esp_binding := Some binding\<rparr>"
    using clean_check_binding [OF t4] by auto
  have "later t4 s'" by (rule clean_later [OF onward_run_boot boot])
  moreover have "later t3 t4" using clean_later [OF onward_qualify_actions(2) t4] by (simp add: later_def)
  ultimately have "later t3 s'" by (blast intro: time.step_trans)
  then obtain after where after: "p_trace s' = p_trace t3 @ after" "no_copies after" by (auto simp: later_def)
  have own: "own (p_report s') = own (p_report t4)"
    using boot keepsD [OF keeps_own_run_boot] by (auto simp: clean_def)
  have run: "run_boot w (boot_args_of w q run config) t4 = (Inr (), s')" "k_errors (p_report s') = k_errors (p_report t4)"
    using boot by (simp_all add: clean_def errs_def)
  note probe = run_boot_clean [OF run]
  have "k_esp_binding (p_report s') = Some binding" "k_imginfo (p_report s') \<noteq> None"
    using own_imginfo [OF own] b(3) by simp_all
  moreover have "boot_evidence w (boot_args_of w q run config) (p_trace s') (p_report s')" using probe by blast
  moreover have "esp_path w (boot_args_of w q run config) = w_join w (inputs_dir w run) ESP_NAME"
    by (simp add: esp_path_def boot_args_of_def)
  then have "\<forall>n sha. given (k_inputs (p_report s')) ESP_NAME = Some (n, sha) \<longrightarrow>
        (let esp = w_join w (inputs_dir w run) ESP_NAME in
         w_exists w (p_trace s') esp = Inr False \<or>
         w_exists w (p_trace s') esp = Inr True \<and> k_esp_unchanged (p_report s') = Some True \<and>
         (\<exists>d. w_read_bytes w (p_trace s') esp = Inr d \<and> w_sha w d = sha))"
    using probe by (auto simp: esp_kept_def Let_def)
  ultimately show ?thesis
    unfolding pass_evidence_def using b(1,2) taken after by blast
qed

lemma clean_try_launch:
  assumes "clean (try_launch chk w q run) s y s'"
  shows "pass_evidence w q run (p_trace s') (p_report s')"
proof -
  have h: "qualify_handler e = andthen (log_error (case e of Unavailable m \<Rightarrow> m | Failed m \<Rightarrow> m | _ \<Rightarrow> described e))
      (case e of Unavailable m \<Rightarrow> set_verdict Verdict_unavailable | _ \<Rightarrow> set_verdict Verdict_fail)" for e
    by (cases e) (simp_all add: qualify_handler_def)
  have l: "logs (case e of Unavailable m \<Rightarrow> set_verdict Verdict_unavailable | _ \<Rightarrow> set_verdict Verdict_fail)" for e
    by (cases e) (simp_all add: set_verdict_def, (intro logs_rules; simp)+)
  have "clean (bnd (lift (chk (q_timeout q))) (\<lambda>_.
       bnd (lift (require_tcg w (q_qemu_accel q))) (\<lambda>_. bind_and_boot w q run))) s y s'"
    using assms unfolding try_launch_def
    by (subst (asm) clean_catch_logged [OF _ h l]) (intro logs_rules)
  then show ?thesis by (auto simp: clean_split logs_rules clean_rules dest: clean_bind_and_boot)
qed

text \<open>The run directory of a completed run, and the trace it had come to before it wrote its evidence.\<close>

lemma qualify_pass:
  assumes "qualify w dumps q s = (Inr (0, sm), s')"
  shows "\<exists>parent tr. require_d_output w (q_evidence_parent q) = Inr parent \<and>
    p_trace s' = tr @ [WriteText (evidence_path w (run_dir w parent)) (dumps (p_report s'))] \<and>
    k_errors (p_report s') = [] \<and> pass_evidence w q (run_dir w parent) tr (p_report s')"
  using assms
proof (cases rule: qualify_cases)
  case (ran parent run t u)
  then have pass: "k_status (p_report s') = Verdict_pass" by (auto simp: exit_code_def split: verdict.splits)
  then have e: "k_errors (p_report u) = []"
    using ran(7) by (auto simp: decided_def Let_def split: if_splits)
  then have "clean (try_launch require_timeout w q run) t () u"
    using ran(4) ran(5) [unfolded qualify_try_def] by (simp add: clean_def errs_def initial_report_def)
  then have "pass_evidence w q run (p_trace u) (p_report u)" by (rule clean_try_launch)
  then have "pass_evidence w q run (p_trace u) (p_report s')"
    unfolding ran(7) by (simp add: decided_def Let_def pass_evidence_def boot_evidence_def)
  with ran e show ?thesis
    by (intro exI [of _ parent] exI [of _ "p_trace u"]) (auto simp: decided_def Let_def)
qed simp


end
