(* ===== verification/QualifyVM_Spec.thy ===== *)
theory QualifyVM_Spec
  imports QualifyVM Qualify_Spec
begin

text \<open>
  What the VM qualifier guarantees: a negative mode never passes, \<open>vm_qualified\<close> is the pass verdict and
  carries the probe's evidence together with an accepted positive VM transcript, nothing is launched
  before the binding has passed, and an observed expected failure is one of the prescribed kind.
\<close>

section \<open>The transcript step\<close>

lemma judge_negative_step:
  assumes "judge_negative serial mode parsed s = (r, s')"
  shows "(\<exists>es. k_errors (p_report s') = k_errors (p_report s) @ es) \<and>
    (r = Inr () \<longrightarrow> mode \<noteq> POSITIVE \<longrightarrow> k_expected_negative_observed (p_report s') \<longrightarrow>
       negative_transcript_ok serial mode parsed \<and> expected_negative_transport_ok (p_report s) = Inr True \<and>
       p_report s' = (p_report s)\<lparr>k_expected_negative_observed := True\<rparr>) \<and>
    (r = Inr () \<longrightarrow> mode = POSITIVE \<longrightarrow> p_report s' = (p_report s)\<lparr>k_expected_negative_observed := False\<rparr>)"
  using assms unfolding judge_negative_def
  by (auto elim!: bnd_cases andthen_cases simp: asking_def ret_def log_error_def split: if_splits)

lemma store_transcript_errors [simp]:
  "k_errors (store_transcript parsed r) = k_errors r @ vm_errors parsed"
  by (simp add: store_transcript_def Let_def)

lemma store_transcript_keeps [simp]:
  "k_vm_transcript (store_transcript parsed r) = Some parsed"
  "k_status (store_transcript parsed r) = k_status r" "k_verdict (store_transcript parsed r) = k_verdict r"
  "k_esp_binding (store_transcript parsed r) = k_esp_binding r" "k_imginfo (store_transcript parsed r) = k_imginfo r"
  "k_inputs (store_transcript parsed r) = k_inputs r" "k_esp_unchanged (store_transcript parsed r) = k_esp_unchanged r"
  by (simp_all add: store_transcript_def Let_def)

lemma logs_vm_evidence_step [logs_rules]: "logs (vm_evidence_step w mode run)"
  unfolding vm_evidence_step_def apply_vm_transcript_def judge_negative_def Let_def
  by (intro logs_rules) simp_all

lemma quiet_vm_evidence_step [quiet_rules]: "quiet (vm_evidence_step w mode run)"
  unfolding vm_evidence_step_def apply_vm_transcript_def judge_negative_def Let_def
  by (intro quiet_rules)

text \<open>The transcript step only reads: the trace stays as it is.\<close>

lemma judge_negative_trace: "judge_negative serial mode parsed s = (r, s') \<Longrightarrow> p_trace s' = p_trace s"
  unfolding judge_negative_def
  by (auto elim!: bnd_cases andthen_cases simp: asking_def ret_def log_error_def split: if_splits)

lemma apply_vm_transcript_trace: "apply_vm_transcript w output mode s = (r, s') \<Longrightarrow> p_trace s' = p_trace s"
  unfolding apply_vm_transcript_def Let_def
  by (auto elim!: bnd_cases andthen_cases dest!: judge_negative_trace
      simp: exists_path_def read_text_def look_def ret_def split: if_splits)

lemma vm_evidence_step_trace: "vm_evidence_step w mode run s = (r, s') \<Longrightarrow> p_trace s' = p_trace s"
  unfolding vm_evidence_step_def
  by (auto elim!: bnd_cases andthen_cases catch_cases dest!: apply_vm_transcript_trace
      simp: asking_def exists_path_def look_def log_error_def ret_def split: if_splits)

text \<open>The keys the transcript step leaves alone: the evidence of the probe and of the binding.\<close>

definition launch_view :: "'x vm_evidence_scheme \<Rightarrow> _" where
  "launch_view r = (k_esp_binding r, k_imginfo r, k_inputs r, k_esp_unchanged r, k_qemu_accel r, k_verifier_image r,
     (k_owned_container_id r, k_cleanup r, k_launched r, k_attach_attempted r, k_docker_start_exit_code r),
     (k_container_state r, k_firmware_sha256 r, k_transcript r), k_status r, k_verdict r)"

lemma keeps_launch_view: "keeps launch_view (vm_evidence_step w mode run)"
  unfolding vm_evidence_step_def apply_vm_transcript_def judge_negative_def Let_def
  by (intro own_rules) (simp_all add: launch_view_def store_transcript_def Let_def)

lemma keeps_judged: "keeps (\<lambda>r. (k_vm_qualified r, k_vm_transcript r)) (judge_negative serial mode parsed)"
  unfolding judge_negative_def by (intro own_rules) simp_all

lemma store_transcript_qualified [simp]: "k_vm_qualified (store_transcript parsed x) = k_vm_qualified x"
  by (simp add: store_transcript_def Let_def)

lemma serial_read_report:
  "(if there then read_text w p else ret []) s = (r, s') \<Longrightarrow> p_report s' = p_report s"
  by (auto simp: read_text_def look_def ret_def split: if_splits)

lemma apply_vm_transcript_qualified:
  assumes "apply_vm_transcript w output mode s = (q, s')" "k_vm_qualified (p_report s')" "\<not> k_vm_qualified (p_report s)"
  shows "q = Inr () \<and> mode = POSITIVE \<and> k_errors (p_report s') = [] \<and>
    (\<exists>serial parsed. serial_at w (p_trace s) (w_join w output (py ''serial.log'')) serial \<and>
      parse_vm_serial (w_repr w) serial mode = Inr parsed \<and> vm_errors parsed = [] \<and> vm_complete parsed \<and> k_vm_transcript (p_report s') = Some parsed)"
  using assms(1) unfolding apply_vm_transcript_def Let_def
proof (elim bnd_cases andthen_cases, goal_cases)
  case (2 e there t0)
  then show ?case using assms(2,3) serial_read_report [OF 2(2)] by (auto simp: exists_path_def look_def)
next
  case (3 e there t0 serial t1)
  then show ?case using assms(2,3) serial_read_report [OF 3(2)] by (auto simp: exists_path_def look_def)
next
  case (5 there t0 serial t1 parsed t2 t3 e)
  then show ?case
    using assms(2,3) keepsD [OF keeps_judged 5(5)] serial_read_report [OF 5(2)] by (auto simp: exists_path_def look_def)
next
  case (6 there t0 serial t1 parsed t2 t3 t4)
  then have "parse_vm_serial (w_repr w) serial mode = Inr parsed"
    by (cases "parse_vm_serial (w_repr w) serial mode") simp_all
  moreover have "k_vm_transcript (p_report t4) = Some parsed"
    using keepsD [OF keeps_judged 6(5)] 6(4) by simp
  moreover have "serial_at w (p_trace s) (w_join w output (py ''serial.log'')) serial"
    using 6(1,2) by (auto simp: serial_at_def exists_path_def read_text_def look_def ret_def split: if_splits)
  ultimately show ?case using assms(2) 6(4-6) by auto
qed (use assms(2,3) in \<open>auto simp: exists_path_def look_def\<close>)

lemma vm_evidence_step_qualified:
  assumes "vm_evidence_step w mode run s = (r, s')" "k_vm_qualified (p_report s')" "\<not> k_vm_qualified (p_report s)"
  shows "mode = POSITIVE \<and> k_errors (p_report s') = [] \<and> (\<exists>serial parsed.
    serial_at w (p_trace s) (w_join w (output_dir w run) (py ''serial.log'')) serial \<and> parse_vm_serial (w_repr w) serial mode = Inr parsed \<and>
    vm_errors parsed = [] \<and> vm_complete parsed \<and> k_vm_transcript (p_report s') = Some parsed)"
proof -
  have "catch (apply_vm_transcript w (output_dir w run) mode)
        (\<lambda>e. andthen (log_error (py ''VM transcript failed: '' @ described e)) (ret ())) s = (r, s')"
    using assms unfolding vm_evidence_step_def
    by (auto elim!: bnd_cases simp: asking_def exists_path_def look_def log_error_def ret_def split: if_splits)
  then show ?thesis
  proof (cases rule: catch_cases)
    case (caught e t)
    then have "k_vm_qualified (p_report t)"
      using assms(2) by (auto elim!: andthen_cases simp: log_error_def ret_def)
    from apply_vm_transcript_qualified [OF caught(1) this assms(3)] show ?thesis by simp
  next
    case (returned x)
    from apply_vm_transcript_qualified [OF returned(1) assms(2,3)] show ?thesis by blast
  qed
qed

lemma judge_negative_raised:
  "judge_negative serial mode parsed s = (Inl e, s') \<Longrightarrow> p_report s' = p_report s"
  unfolding judge_negative_def
  by (auto elim!: bnd_cases andthen_cases simp: asking_def ret_def log_error_def split: if_splits)

lemma store_transcript_expected [simp]:
  "k_expected_negative_observed (store_transcript parsed x) = k_expected_negative_observed x"
  by (simp add: store_transcript_def Let_def)

lemma apply_vm_transcript_expected:
  assumes "apply_vm_transcript w output mode s = (q, s')" "k_expected_negative_observed (p_report s')"
    "\<not> k_expected_negative_observed (p_report s)"
  shows "q = Inr () \<and> mode \<noteq> POSITIVE \<and> (\<exists>serial parsed x.
    serial_at w (p_trace s) (w_join w output (py ''serial.log'')) serial \<and> parse_vm_serial (w_repr w) serial mode = Inr parsed \<and>
    negative_transcript_ok serial mode parsed \<and> expected_negative_transport_ok x = Inr True \<and>
    k_vm_transcript x = Some parsed \<and> k_kernel_sha256 x = map_option snd (given (k_inputs x) KERNEL_NAME) \<and>
    p_report s' = x\<lparr>k_expected_negative_observed := True, k_vm_qualified := False\<rparr>)"
  using assms(1) unfolding apply_vm_transcript_def Let_def
proof (elim bnd_cases andthen_cases, goal_cases)
  case (2 e there t0)
  then show ?case using assms(2,3) serial_read_report [OF 2(2)] by (auto simp: exists_path_def look_def)
next
  case (3 e there t0 serial t1)
  then show ?case using assms(2,3) serial_read_report [OF 3(2)] by (auto simp: exists_path_def look_def)
next
  case (5 there t0 serial t1 parsed t2 t3 e)
  then show ?case
    using assms(2,3) judge_negative_raised [OF 5(5)] serial_read_report [OF 5(2)] by (auto simp: exists_path_def look_def)
next
  case (6 there t0 serial t1 parsed t2 t3 t4)
  then have parsed: "parse_vm_serial (w_repr w) serial mode = Inr parsed"
    by (cases "parse_vm_serial (w_repr w) serial mode") simp_all
  have "mode \<noteq> POSITIVE" "k_expected_negative_observed (p_report t4)"
    using judge_negative_step [OF 6(5)] 6(6) assms(2) by auto
  then have j: "negative_transcript_ok serial mode parsed" "expected_negative_transport_ok (p_report t3) = Inr True"
    "p_report t4 = (p_report t3)\<lparr>k_expected_negative_observed := True\<rparr>"
    using judge_negative_step [OF 6(5)] by auto
  have "k_vm_transcript (p_report t3) = Some parsed"
    "k_kernel_sha256 (p_report t3) = map_option snd (given (k_inputs (p_report t3)) KERNEL_NAME)"
    using 6(4) by (simp_all add: store_transcript_def Let_def)
  moreover have "serial_at w (p_trace s) (w_join w output (py ''serial.log'')) serial"
    using 6(1,2) by (auto simp: serial_at_def exists_path_def read_text_def look_def ret_def split: if_splits)
  ultimately show ?case using j parsed \<open>mode \<noteq> POSITIVE\<close> 6(6)
    by (intro conjI exI [of _ serial] exI [of _ parsed] exI [of _ "p_report t3"]) auto
qed (use assms(2,3) in \<open>auto simp: exists_path_def look_def\<close>)

lemma vm_evidence_step_expected:
  assumes "vm_evidence_step w mode run s = (r, s')" "k_expected_negative_observed (p_report s')"
    "\<not> k_expected_negative_observed (p_report s)"
  shows "mode \<noteq> POSITIVE \<and> (\<exists>serial parsed x.
    serial_at w (p_trace s) (w_join w (output_dir w run) (py ''serial.log'')) serial \<and>
    parse_vm_serial (w_repr w) serial mode = Inr parsed \<and>
    negative_transcript_ok serial mode parsed \<and> expected_negative_transport_ok x = Inr True \<and>
    k_vm_transcript x = Some parsed \<and> k_kernel_sha256 x = map_option snd (given (k_inputs x) KERNEL_NAME) \<and>
    p_report s' = x\<lparr>k_expected_negative_observed := True, k_vm_qualified := False\<rparr>)"
proof -
  have "catch (apply_vm_transcript w (output_dir w run) mode)
        (\<lambda>e. andthen (log_error (py ''VM transcript failed: '' @ described e)) (ret ())) s = (r, s')"
    using assms unfolding vm_evidence_step_def
    by (auto elim!: bnd_cases simp: asking_def exists_path_def look_def log_error_def ret_def split: if_splits)
  then show ?thesis
  proof (cases rule: catch_cases)
    case (caught e t)
    then have "k_expected_negative_observed (p_report t)"
      using assms(2) by (auto elim!: andthen_cases simp: log_error_def ret_def)
    from apply_vm_transcript_expected [OF caught(1) this assms(3)] show ?thesis by simp
  next
    case (returned x)
    from apply_vm_transcript_expected [OF returned(1) assms(2,3)] show ?thesis by blast
  qed
qed

section \<open>A run of the VM qualifier\<close>

lemma vm_qualify_cases:
  assumes "qualify_vm w dumps q mode s = (Inr (code, sm), s')"
  obtains (refused) m where "require_d_output w (q_evidence_parent q) = Inl (Unavailable m)" "code = 2"
      "sm = vm_unavailable_summary (Unavailable m)" "s' = s"
  | (ran) parent run t u v where "require_d_output w (q_evidence_parent q) = Inr parent" "run = vm_run_dir w parent"
      "dockers (p_trace t) = dockers (p_trace s)" "p_report t = vm_initial_report mode run"
      "vm_try w q run t = (Inr (), u)" "vm_evidence_step w mode run u = (Inr (), v)"
      "p_trace s' = p_trace v @ [WriteText (evidence_path w run) (dumps (p_report s'))]"
      "p_report s' = vm_decided mode (p_report v)" "code = exit_code (k_status (p_report s'))"
      "sm = vm_summarise w mode run (p_report s')"
proof (cases "require_d_output w (q_evidence_parent q)")
  case (Inl e)
  with assms have r: "(\<exists>m. e = Unavailable m) \<and> code = 2 \<and> sm = vm_unavailable_summary e \<and> s' = s"
    by (cases e) (simp_all add: qualify_vm_def ret_def raise_def)
  then obtain m where "e = Unavailable m" by blast
  with r Inl show ?thesis using refused [of m] by simp
next
  case (Inr parent)
  with assms obtain t0 t1 t2 u v v' x where steps: "make_dir w parent s = (Inr (), t0)"
    "make_dir w (vm_run_dir w parent) t0 = (Inr (), t1)"
    "t2 = t1\<lparr>p_report := vm_initial_report mode (vm_run_dir w parent)\<rparr>"
    "vm_try w q (vm_run_dir w parent) t2 = (Inr (), u)" "vm_evidence_step w mode (vm_run_dir w parent) u = (Inr (), v)"
    "v' = v\<lparr>p_report := vm_decided mode (p_report v)\<rparr>"
    "vm_write_evidence w dumps (vm_run_dir w parent) v' = (Inr (), x)"
    "asking (\<lambda>s. (exit_code (k_status (p_report s)), vm_summarise w mode (vm_run_dir w parent) (p_report s))) x = (Inr (code, sm), s')"
    by (auto simp: qualify_vm_def Let_def elim!: andthen_cases)
  have "dockers (p_trace t2) = dockers (p_trace s)"
    using quietD [OF quiet_qualify_actions(2) steps(1)] quietD [OF quiet_qualify_actions(2) steps(2)] steps(3)
    by (simp add: same_control_def)
  moreover have "p_report s' = (p_report v')\<lparr>k_linux_replacement_qualified := False, k_cpl3_execution_qualified := False,
        k_user_supervisor_isolation_qualified := False\<rparr> \<and>
      p_trace s' = p_trace v' @ [WriteText (evidence_path w (vm_run_dir w parent)) (dumps (p_report s'))] \<and>
      code = exit_code (k_status (p_report s')) \<and> sm = vm_summarise w mode (vm_run_dir w parent) (p_report s')"
    using steps(7,8) by (auto simp: vm_write_evidence_def write_text_def perform_def asking_def elim!: andthen_cases bnd_cases)
  ultimately show ?thesis
    using steps(3-6) Inr by (intro ran [of parent "vm_run_dir w parent" t2 u v]) (auto simp: vm_decided_def Let_def)
qed

definition vm_own :: "'x vm_evidence_scheme \<Rightarrow> _" where
  "vm_own r = (k_vm_qualified r, k_expected_negative_observed r)"

lemma own_vm: "own r' = own r \<Longrightarrow> vm_own r' = vm_own r"
  by (cases r; cases r') (simp add: own_def vm_own_def)

lemma keeps_vm_own_run_boot [own_rules]: "keeps vm_own (run_boot w b)"
  unfolding keeps_iff using keepsD [OF keeps_own_run_boot] own_vm by (metis prod.collapse)

lemma keeps_vm_own_try: "keeps vm_own (try_launch chk w q run)"
proof -
  have h: "keeps vm_own (qualify_handler e)" for e
    unfolding qualify_handler_def set_verdict_def
    by (cases e) (simp_all, (intro own_rules; simp add: vm_own_def)+)
  show ?thesis
    unfolding try_launch_def bind_and_boot_def resolve_docker_config_def make_dir_def copy_artifact_def run_imginfo_def
      snapshot_inputs_def check_binding_def Let_def
    by (intro own_rules h) (simp_all add: vm_own_def)
qed

text \<open>
  C14: The verdict of a VM run. The exit code is 0 for a pass, 1 for a failure and 2 for unavailable; a run is a pass exactly when it is
  reported as VM-qualified, and then it ran in the positive mode without errors; a run in a negative mode
  is never a pass; an expected negative outcome is never reported in the positive mode; the three
  claims beyond the profile are always false.
\<close>

theorem qualify_vm_verdict:
  assumes "qualify_vm w dumps q mode s = (Inr (code, sm), s')"
  shows "(code = 0 \<longleftrightarrow> s_status sm = Verdict_pass) \<and> (code = 1 \<longleftrightarrow> s_status sm = Verdict_fail) \<and>
    (code = 2 \<longleftrightarrow> s_status sm = Verdict_unavailable) \<and> s_verdict sm = s_status sm \<and>
    (s_vm_qualified sm \<longleftrightarrow> s_status sm = Verdict_pass) \<and>
    (s_status sm = Verdict_pass \<longrightarrow> mode = POSITIVE \<and> s_errors sm = []) \<and>
    (mode \<noteq> POSITIVE \<longrightarrow> code \<noteq> 0) \<and>
    (s_expected_negative_observed sm \<longrightarrow> mode \<noteq> POSITIVE) \<and>
    \<not> s_linux_replacement_qualified sm \<and> \<not> s_cpl3_execution_qualified sm \<and>
    \<not> s_user_supervisor_isolation_qualified sm"
  using assms
proof (cases rule: vm_qualify_cases)
  case refused
  then show ?thesis by (simp add: vm_unavailable_summary_def)
next
  case (ran parent run t u v)
  have u: "\<not> k_vm_qualified (p_report u)" "\<not> k_expected_negative_observed (p_report u)"
    "k_verdict (p_report u) = k_status (p_report u)"
    "k_status (p_report u) = Verdict_unavailable \<longrightarrow> k_errors (p_report u) \<noteq> []"
    using keepsD [OF keeps_vm_own_try ran(5) [unfolded vm_try_def]] try_launch_status [OF ran(5) [unfolded vm_try_def]]
      try_launch_unavailable [OF ran(5) [unfolded vm_try_def]] ran(4)
    by (auto simp: vm_own_def vm_initial_report_def)
  have v: "k_verdict (p_report v) = k_status (p_report v)" "k_status (p_report v) = k_status (p_report u)"
    using keepsD [OF keeps_launch_view ran(6)] u(3) by (auto simp: launch_view_def)
  have grow: "\<exists>es. k_errors (p_report v) = k_errors (p_report u) @ es"
    using logsD [OF logs_vm_evidence_step ran(6)] by (simp add: extends_def errs_def)
  have q: "k_vm_qualified (p_report v) \<longrightarrow> mode = POSITIVE \<and> k_errors (p_report v) = []"
    using vm_evidence_step_qualified [OF ran(6) _ u(1)] by blast
  have n: "k_expected_negative_observed (p_report v) \<longrightarrow> mode \<noteq> POSITIVE"
    using vm_evidence_step_expected [OF ran(6) _ u(2)] by blast
  have fin: "k_vm_qualified (p_report s') \<longleftrightarrow> k_status (p_report s') = Verdict_pass"
    "k_verdict (p_report s') = k_status (p_report s')"
    "k_status (p_report s') = Verdict_pass \<longrightarrow> mode = POSITIVE \<and> k_errors (p_report s') = []"
    "k_expected_negative_observed (p_report s') = k_expected_negative_observed (p_report v)"
    using ran(8) u(4) v grow q by (auto simp: vm_decided_def Let_def)
  then show ?thesis using ran(9,10) n by (auto simp: vm_summarise_def exit_code_status)
qed

lemma pass_evidence_view: "launch_view r' = launch_view r \<Longrightarrow> pass_evidence w q run tr r' = pass_evidence w q run tr r"
  by (simp add: launch_view_def pass_evidence_def boot_evidence_def)

lemma vm_decided_view:
  "pass_evidence w q run tr (vm_decided mode r) = pass_evidence w q run tr r"
  "k_errors (vm_decided mode r) = k_errors r" "k_vm_transcript (vm_decided mode r) = k_vm_transcript r"
  "bound_launch w q run (vm_decided mode r) cs = bound_launch w q run r cs"
  "k_expected_negative_observed (vm_decided mode r) = k_expected_negative_observed r"
  by (simp_all add: vm_decided_def Let_def pass_evidence_def boot_evidence_def bound_launch_def)

lemma qualify_vm_pass:
  assumes "qualify_vm w dumps q mode s = (Inr (0, sm), s')"
  shows "\<exists>parent serial parsed tr. mode = POSITIVE \<and> require_d_output w (q_evidence_parent q) = Inr parent \<and>
    p_trace s' = tr @ [WriteText (evidence_path w (vm_run_dir w parent)) (dumps (p_report s'))] \<and>
    k_errors (p_report s') = [] \<and> pass_evidence w q (vm_run_dir w parent) tr (p_report s') \<and>
    k_vm_transcript (p_report s') = Some parsed \<and>
    serial_at w tr (w_join w (output_dir w (vm_run_dir w parent)) (py ''serial.log'')) serial \<and>
    parse_vm_serial (w_repr w) serial POSITIVE = Inr parsed \<and> vm_errors parsed = [] \<and> vm_complete parsed"
  using assms
proof (cases rule: vm_qualify_cases)
  case (ran parent run t u v)
  then have pass: "k_status (p_report s') = Verdict_pass" by (simp add: exit_code_status(1) [symmetric])
  have u: "\<not> k_vm_qualified (p_report u)"
    using keepsD [OF keeps_vm_own_try ran(5) [unfolded vm_try_def]] ran(4) by (simp add: vm_own_def vm_initial_report_def)
  from pass ran(8) have v: "mode = POSITIVE" "k_errors (p_report v) = []" "k_vm_qualified (p_report v)"
    by (auto simp: vm_decided_def Let_def split: if_splits)
  have "k_errors (p_report u) = []"
    using logsD [OF logs_vm_evidence_step ran(6)] v(2) by (auto simp: extends_def errs_def)
  then have "clean (try_launch require_vm_timeout w q run) t () u"
    using ran(4) ran(5) [unfolded vm_try_def] by (simp add: clean_def errs_def vm_initial_report_def)
  then have "pass_evidence w q run (p_trace u) (p_report v)"
    using clean_try_launch pass_evidence_view [OF keepsD [OF keeps_launch_view ran(6)]] by blast
  moreover note vm_evidence_step_trace [OF ran(6)]
  moreover obtain serial parsed where "serial_at w (p_trace u) (w_join w (output_dir w run) (py ''serial.log'')) serial"
    "parse_vm_serial (w_repr w) serial mode = Inr parsed" "vm_errors parsed = []"
    "vm_complete parsed" "k_vm_transcript (p_report v) = Some parsed"
    using vm_evidence_step_qualified [OF ran(6) v(3) u] by blast
  ultimately show ?thesis
    using ran(1,2,7,8) v
    by (intro exI [of _ parent] exI [of _ serial] exI [of _ parsed] exI [of _ "p_trace u"]) (simp add: vm_decided_view)
qed simp

text \<open>
  C5: Exit code 0 of the VM qualifier stands for the complete evidence: positive mode, no errors, the
  snapshot, binding and probe evidence of the first slice, and a VM transcript, the text of the serial log,
  that the strict verifier accepts as complete. With \<open>positive_run_protocol\<close> this says what the guest's
  serial output contained. After all this only the evidence file is written.
\<close>

theorem qualify_vm_pass_evidence:
  assumes "qualify_vm w dumps q mode s = (Inr (0, sm), s')"
  shows "\<exists>parent serial parsed tr. mode = POSITIVE \<and> require_d_output w (q_evidence_parent q) = Inr parent \<and>
    p_trace s' = tr @ [WriteText (evidence_path w (vm_run_dir w parent)) (dumps (p_report s'))] \<and>
    k_errors (p_report s') = [] \<and> pass_evidence w q (vm_run_dir w parent) tr (p_report s') \<and>
    k_vm_transcript (p_report s') = Some parsed \<and>
    serial_at w tr (w_join w (output_dir w (vm_run_dir w parent)) (py ''serial.log'')) serial \<and>
    parse_vm_serial (w_repr w) serial POSITIVE = Inr parsed \<and> vm_errors parsed = [] \<and> vm_complete parsed"
  by (rule qualify_vm_pass [OF assms])

text \<open>
  C15: The VM qualifier launches nothing before the artifacts are bound: a run that issues a docker command
  had both images inspected and the binding passed, and its commands are those of one probe run.
\<close>

theorem qualify_vm_launch_gate:
  assumes "qualify_vm w dumps q mode s = (Inr (code, sm), s')" "dockers (p_trace s') \<noteq> dockers (p_trace s)"
  shows "\<exists>parent cs. require_d_output w (q_evidence_parent q) = Inr parent \<and>
    dockers (p_trace s') = dockers (p_trace s) @ cs \<and> bound_launch w q (vm_run_dir w parent) (p_report s') cs"
  using assms(1)
proof (cases rule: vm_qualify_cases)
  case (ran parent run t u v)
  then have g: "gated w q run t u" using try_launch_step unfolding vm_try_def by blast
  have "dockers (p_trace v) = dockers (p_trace u)"
    using quietD [OF quiet_vm_evidence_step ran(6)] by (simp add: same_control_def)
  with ran assms(2) g obtain cs where cs: "dockers (p_trace v) = dockers (p_trace t) @ cs" "bound_launch w q run (p_report u) cs"
    by (auto simp: gated_def)
  then have "bound_launch w q run (p_report v) cs"
    using keepsD [OF keeps_launch_view ran(6)] by (simp add: bound_launch_def launch_view_def)
  with ran cs show ?thesis
    by (intro exI [of _ parent] exI [of _ cs]) (simp add: vm_decided_view)
qed (use assms in auto)

section \<open>The evidence of an expected negative outcome\<close>

text \<open>The stage and the reason at which the guest of a negative mode has to fail.\<close>

definition prescribed :: "pystr \<Rightarrow> pystr \<times> pystr" where
  "prescribed mode =
    (if mode = SKIP_SWITCH then (py ''switch'', py ''cr3-readback'') else (py ''fault-ro'', py ''expected-pf''))"

text \<open>The errors that a guest which exits early with 47 causes by itself.\<close>

definition caused_by_guest :: "pystr \<Rightarrow> bool" where
  "caused_by_guest err \<longleftrightarrow>
     err = py ''Expected isa-debug-exit status33'' \<or>
     (\<exists>x y. err = py ''Failed: '' @ x \<and> err = y @ py ''Expected isa-debug-exit status33'') \<or>
     (\<exists>x. err = py ''Contradictory or malformed native exit'' @ x) \<or>
     (\<exists>x. err = py ''Native exit precedes completion'' @ x) \<or>
     err = py ''Required native stages missing or out of order''"

text \<open>What the report and the serial text of a run have to be, field by field.\<close>

definition negative_evidence :: "pystr \<Rightarrow> pystr \<Rightarrow> vm_report \<Rightarrow> 'x vm_evidence_scheme \<Rightarrow> bool" where
  "negative_evidence mode serial parsed r \<longleftrightarrow>
     k_launched r \<and> k_attach_attempted r \<and> \<not> k_attach_timed_out r \<and>
     k_container_state r = Some (StateDict (Some 47)) \<and> k_docker_start_exit_code r = Some 47 \<and>
     (\<exists>c. length c = 64 \<and> set c \<subseteq> set (py ''0123456789abcdef'') \<and> k_owned_container_id r = Some c \<and> k_cleanup r = Some (c, 0)) \<and>
     k_esp_unchanged r = Some True \<and>
     (\<exists>binding. k_esp_binding r = Some binding \<and> r_status binding = Pass) \<and>
     k_profile r = Some PROFILE \<and> k_qemu_accel r = Some (py ''tcg'') \<and> k_verifier_image r = Some PINNED_IMAGE_ID \<and>
     (\<exists>f. k_firmware_sha256 r = Some f \<and> f OVMF_CODE = Some PINNED_OVMF_CODE_SHA256 \<and>
        f RUN_VARS = Some PINNED_OVMF_VARS_SHA256) \<and>
     (\<exists>n sha. given (k_inputs r) KERNEL_NAME = Some (n, sha) \<and> sha \<noteq> [] \<and> k_kernel_sha256 r = Some sha) \<and>
     (\<forall>err\<in>set (k_errors r). caused_by_guest err) \<and>
     k_vm_transcript r = Some parsed \<and> vm_errors parsed = [] \<and> \<not> vm_complete parsed \<and>
     (\<exists>cycle. vm_fail parsed = Some (cycle, prescribed mode)) \<and>
     contains (py ''ZKN: exit code=17'') serial \<and> \<not> contains (py ''ZKN: vm-complete'') serial \<and>
     \<not> contains (py ''ZKN: done'') serial"

lemma starts_with_split: "starts_with s t \<Longrightarrow> \<exists>x. s = t @ x"
  by (metis append_take_drop_id starts_with_def)

lemma ends_with_append: "ends_with s t \<Longrightarrow> \<exists>y. s = y @ t"
  unfolding ends_with_def by (drule starts_with_split) (metis rev_append rev_rev_ident)

lemma allowed_caused: "allowed_negative_error err \<Longrightarrow> caused_by_guest err"
proof -
  have "\<exists>x y. e = py ''Failed: '' @ x \<and> e = y @ EXIT33" if "e = py ''Failed: '' @ EXIT33" for e
    using that by blast
  then show "allowed_negative_error err \<Longrightarrow> caused_by_guest err"
    unfolding allowed_negative_error_def caused_by_guest_def EXIT33_def [symmetric]
    using starts_with_split [of err] ends_with_append [of err] by metis
qed

lemma negative_evidenceI:
  assumes "negative_transcript_ok serial mode parsed" "expected_negative_transport_ok r = Inr True"
    "k_vm_transcript r = Some parsed" "k_kernel_sha256 r = map_option snd (given (k_inputs r) KERNEL_NAME)"
  shows "negative_evidence mode serial parsed r"
proof -
  have run: "k_launched r" "k_attach_attempted r" "\<not> k_attach_timed_out r" "k_container_state r = Some (StateDict (Some 47))"
    and ok: "after_exit_ok r"
    using assms(2) unfolding expected_negative_transport_ok_def
    by (auto simp: container_exit_def GUEST_FAIL_EXIT_def exc_simps split: if_splits option.splits state_doc.splits)
  have parsed: "\<exists>cycle. vm_fail parsed = Some (cycle, prescribed mode)" "\<not> vm_complete parsed" "vm_errors parsed = []"
    "contains (py ''ZKN: exit code=17'') serial" "\<not> contains (py ''ZKN: vm-complete'') serial"
    "\<not> contains (py ''ZKN: done'') serial"
    using assms(1) unfolding negative_transcript_ok_def prescribed_def
    by (auto simp del: contains.simps list.map split: option.splits)
  have owned: "\<exists>c. length c = 64 \<and> set c \<subseteq> set (py ''0123456789abcdef'') \<and> k_owned_container_id r = Some c \<and> k_cleanup r = Some (c, 0)"
    using ok unfolding hexdigits_def [symmetric]
    by (cases "k_owned_container_id r"; cases "k_cleanup r") (auto simp: after_exit_ok_def owned_container_id_ok_def)
  have kernel: "\<exists>n sha. given (k_inputs r) KERNEL_NAME = Some (n, sha) \<and> sha \<noteq> [] \<and> k_kernel_sha256 r = Some sha"
    using ok assms(4) by (auto simp: after_exit_ok_def kernel_digest_ok_def split: option.splits)
  have firmware: "\<exists>f. k_firmware_sha256 r = Some f \<and> f OVMF_CODE = Some PINNED_OVMF_CODE_SHA256 \<and>
        f RUN_VARS = Some PINNED_OVMF_VARS_SHA256"
    using ok by (auto simp: after_exit_ok_def split: option.splits)
  have fields: "k_docker_start_exit_code r = Some 47" "k_esp_unchanged r = Some True" "k_profile r = Some PROFILE"
    "k_qemu_accel r = Some (py ''tcg'')" "k_verifier_image r = Some PINNED_IMAGE_ID"
    using ok by (simp_all only: after_exit_ok_def GUEST_FAIL_EXIT_def TCG_def)
  have binding: "\<exists>binding. k_esp_binding r = Some binding \<and> r_status binding = Pass"
    using ok by (simp add: after_exit_ok_def)
  have errors: "\<forall>err\<in>set (k_errors r). caused_by_guest err"
    using ok allowed_caused by (simp add: after_exit_ok_def)
  show ?thesis
    unfolding negative_evidence_def
    by (intro conjI) (rule run parsed owned kernel firmware fields binding errors assms(3))+
qed

lemma negative_evidence_flags [simp]:
  "negative_evidence mode serial parsed (r\<lparr>k_expected_negative_observed := b\<rparr>) = negative_evidence mode serial parsed r"
  "negative_evidence mode serial parsed (r\<lparr>k_vm_qualified := b\<rparr>) = negative_evidence mode serial parsed r"
  "negative_evidence mode serial parsed (vm_decided m r) = negative_evidence mode serial parsed r"
  by (simp_all add: negative_evidence_def vm_decided_def Let_def)

text \<open>
  C9: An expected negative outcome is what the mode prescribes, on a sound transport: the serial log of the
  run is a VM transcript without an error of its own that stops at the prescribed stage for the prescribed
  reason, the guest and the attach exited with 47, the owned container was removed, the pinned image and
  firmware ran the bound artifacts, the ESP is unchanged, the recorded kernel digest is that of the snapshot,
  and every reported error is one that the failing guest itself causes.
\<close>

theorem qualify_vm_negative_evidence:
  assumes "qualify_vm w dumps q mode s = (Inr (code, sm), s')" "s_expected_negative_observed sm"
  shows "mode \<noteq> POSITIVE \<and> code \<noteq> 0 \<and>
    (\<exists>parent tr serial parsed. require_d_output w (q_evidence_parent q) = Inr parent \<and>
      p_trace s' = tr @ [WriteText (evidence_path w (vm_run_dir w parent)) (dumps (p_report s'))] \<and>
      serial_at w tr (w_join w (output_dir w (vm_run_dir w parent)) (py ''serial.log'')) serial \<and>
      parse_vm_serial (w_repr w) serial mode = Inr parsed \<and> negative_evidence mode serial parsed (p_report s'))"
  using assms(1)
proof (cases rule: vm_qualify_cases)
  case refused
  with assms(2) show ?thesis by (simp add: vm_unavailable_summary_def)
next
  case (ran parent run t u v)
  have u: "\<not> k_expected_negative_observed (p_report u)"
    using keepsD [OF keeps_vm_own_try ran(5) [unfolded vm_try_def]] ran(4) by (simp add: vm_own_def vm_initial_report_def)
  have v: "k_expected_negative_observed (p_report v)"
    using assms(2) ran(8,10) by (simp add: vm_summarise_def vm_decided_view)
  obtain serial parsed x where m: "mode \<noteq> POSITIVE"
    and t: "serial_at w (p_trace u) (w_join w (output_dir w run) (py ''serial.log'')) serial"
      "parse_vm_serial (w_repr w) serial mode = Inr parsed"
    and e: "negative_transcript_ok serial mode parsed" "expected_negative_transport_ok x = Inr True"
      "k_vm_transcript x = Some parsed" "k_kernel_sha256 x = map_option snd (given (k_inputs x) KERNEL_NAME)"
    and x: "p_report v = x\<lparr>k_expected_negative_observed := True, k_vm_qualified := False\<rparr>"
    using vm_evidence_step_expected [OF ran(6) v u] by blast
  have "negative_evidence mode serial parsed (p_report s')"
    using negative_evidenceI [OF e] by (simp add: ran(8) x)
  moreover have "code \<noteq> 0"
    unfolding ran(9) exit_code_status ran(8) using m by (simp add: vm_decided_def Let_def)
  ultimately show ?thesis
    using m t ran(1,2,7) vm_evidence_step_trace [OF ran(6)]
    by (intro conjI exI [of _ parent] exI [of _ "p_trace v"] exI [of _ serial] exI [of _ parsed]) simp_all
qed

end
