(* ===== verification/Esp_Sample.thy ===== *)
theory Esp_Sample
  imports Esp_Verify
begin

text \<open>
  A concrete boot image: a FAT16 volume that holds a loader, a kernel and an initramfs under the paths
  the qualifiers expect, and its evaluation. It instantiates the properties of the qualifiers.
\<close>

section \<open>The image\<close>

definition n_efi :: bytes where "n_efi = [0x45, 0x46, 0x49, 0x20, 0x20, 0x20, 0x20, 0x20, 0x20, 0x20, 0x20]"
definition n_boot :: bytes where "n_boot = [0x42, 0x4F, 0x4F, 0x54, 0x20, 0x20, 0x20, 0x20, 0x20, 0x20, 0x20]"
definition n_bootx64 :: bytes where "n_bootx64 = [0x42, 0x4F, 0x4F, 0x54, 0x58, 0x36, 0x34, 0x20, 0x45, 0x46, 0x49]"
definition n_kernel :: bytes where "n_kernel = [0x4B, 0x45, 0x52, 0x4E, 0x45, 0x4C, 0x20, 0x20, 0x45, 0x4C, 0x46]"
definition n_initrd :: bytes where "n_initrd = [0x49, 0x4E, 0x49, 0x54, 0x52, 0x44, 0x20, 0x20, 0x42, 0x49, 0x4E]"

lemma bs_names:
  "short_name n_efi = Inr (py ''EFI'')" "short_name n_boot = Inr (py ''BOOT'')"
  "short_name n_bootx64 = Inr (py ''BOOTX64.EFI'')" "short_name n_kernel = Inr (py ''KERNEL.ELF'')"
  "short_name n_initrd = Inr (py ''INITRD.BIN'')"
  "decode_ascii n_efi = Inr (py ''EFI        '')" "decode_ascii n_boot = Inr (py ''BOOT       '')"
  "decode_ascii n_bootx64 = Inr (py ''BOOTX64 EFI'')" "decode_ascii n_kernel = Inr (py ''KERNEL  ELF'')"
  "decode_ascii n_initrd = Inr (py ''INITRD  BIN'')"
  "hd n_efi = 0x45" "hd n_boot = 0x42" "hd n_bootx64 = 0x42" "hd n_kernel = 0x4B" "hd n_initrd = 0x49"
  "length n_efi = 11" "length n_boot = 11" "length n_bootx64 = 11" "length n_kernel = 11" "length n_initrd = 11"
  by code_simp+

definition b_fat :: bytes where
  "b_fat = [0xF8, 0xFF, 0xFF, 0xFF, 0xFF, 0xFF, 0xFF, 0xFF, 0xFF, 0xFF, 0xFF, 0xFF, 0xFF, 0xFF, 0xFF, 0xFF] @
     replicate 8176 0"

definition b_root :: bytes where
  "b_root = s_rec n_efi 0x10 2 0 0 @ s_rec n_zk 0x10 5 0 0 @ replicate 448 0"
definition b_efi :: bytes where
  "b_efi = s_rec dot_raw 0x10 2 0 0 @ s_rec dotdot_raw 0x10 0 0 0 @ s_rec n_boot 0x10 3 0 0 @ replicate 416 0"
definition b_boot :: bytes where
  "b_boot = s_rec dot_raw 0x10 3 0 0 @ s_rec dotdot_raw 0x10 2 0 0 @ s_rec n_bootx64 0x20 4 1 0 @ replicate 416 0"
definition b_zk :: bytes where
  "b_zk = s_rec dot_raw 0x10 5 0 0 @ s_rec dotdot_raw 0x10 0 0 0 @ s_rec n_kernel 0x20 6 2 0 @
     s_rec n_initrd 0x20 7 3 0 @ replicate 384 0"

definition loader_bytes :: bytes where "loader_bytes = [7]"
definition kernel_bytes :: bytes where "kernel_bytes = [8, 9]"
definition initramfs_bytes :: bytes where "initramfs_bytes = [1, 2, 3]"

definition b_data :: bytes where
  "b_data = b_efi @ b_boot @ ([7] @ replicate 511 0) @ b_zk @ ([8, 9] @ replicate 510 0) @ ([1, 2, 3] @ replicate 509 0) @
     replicate 2088448 0"

definition boot_image :: bytes where
  "boot_image = s_boot @ b_fat @ b_fat @ b_root @ b_data"

lemma b_lengths [simp]:
  "length b_fat = 8192" "length b_root = 512" "length b_efi = 512" "length b_boot = 512" "length b_zk = 512"
  "length b_data = 2091520" "length boot_image = 2108928"
  by (simp_all add: b_fat_def b_root_def b_efi_def b_boot_def b_zk_def s_rec_def b_data_def boot_image_def s_names bs_names)

definition b_geom :: geom where
  "b_geom = \<lparr>g_data = boot_image, g_cluster_bytes = 512, g_root_entries = 16, g_fat_offset = 512,
     g_fat_bytes = 8192, g_root_offset = 16896, g_data_offset = 17408, g_cluster_count = 4085\<rparr>"

lemma boot_fat: "c < 4096 \<Longrightarrow> fat b_geom c = u16 b_fat (c * 2)"
  by (auto simp: fat_def b_geom_def boot_image_def slice_simps)

lemma b_fat_reads:
  "u16 b_fat 0 = Inr 0xFFF8" "u16 b_fat 2 = Inr 0xFFFF" "u16 b_fat 4 = Inr 0xFFFF" "u16 b_fat 6 = Inr 0xFFFF"
  "u16 b_fat 8 = Inr 0xFFFF" "u16 b_fat 10 = Inr 0xFFFF" "u16 b_fat 12 = Inr 0xFFFF" "u16 b_fat 14 = Inr 0xFFFF"
  by (simp_all add: b_fat_def slice_simps u16_def)

lemma b_fat_free: "8 \<le> c \<Longrightarrow> c < 4096 \<Longrightarrow> u16 b_fat (c * 2) = Inr 0"
  by (simp add: b_fat_def slice_simps u16_def)

lemma boot_slices:
  "pyslice boot_image 510 512 = [0x55, 0xAA]"
  "pyslice boot_image 512 8704 = b_fat" "pyslice boot_image 8704 16896 = b_fat" "pyslice boot_image 16896 17408 = b_root"
  by (simp_all add: boot_image_def slice_simps s_boot_reads)

lemma boot_reads:
  "u16 boot_image 11 = Inr 512" "byte_at boot_image 13 = Inr 1" "u16 boot_image 14 = Inr 1" "byte_at boot_image 16 = Inr 2"
  "u16 boot_image 17 = Inr 16" "u16 boot_image 19 = Inr 4119" "u32 boot_image 32 = Inr 0" "u32 boot_image 28 = Inr 0"
  "u16 boot_image 22 = Inr 16" "byte_at boot_image 21 = Inr 0xF8"
  by (simp_all add: boot_image_def slice_simps s_boot_reads)

lemma boot_geometry: "read_geometry boot_image = Inr b_geom"
  by (simp add: read_geometry_def Let_def boot_reads boot_slices MAX_IMAGE_def b_geom_def [symmetric]
      boot_fat b_fat_reads)

lemma b_geom_ok: "geom_ok b_geom"
  using read_geometry_ok [OF boot_geometry] by simp

section \<open>Its directories\<close>

lemma b_entries:
  "pyslice b_root 0 32 = s_rec n_efi 0x10 2 0 0" "pyslice b_root 32 64 = s_rec n_zk 0x10 5 0 0"
  "pyslice b_root 64 96 = replicate 32 0"
  "pyslice b_efi 0 32 = s_rec dot_raw 0x10 2 0 0" "pyslice b_efi 32 64 = s_rec dotdot_raw 0x10 0 0 0"
  "pyslice b_efi 64 96 = s_rec n_boot 0x10 3 0 0" "pyslice b_efi 96 128 = replicate 32 0"
  "pyslice b_boot 0 32 = s_rec dot_raw 0x10 3 0 0" "pyslice b_boot 32 64 = s_rec dotdot_raw 0x10 2 0 0"
  "pyslice b_boot 64 96 = s_rec n_bootx64 0x20 4 1 0" "pyslice b_boot 96 128 = replicate 32 0"
  "pyslice b_zk 0 32 = s_rec dot_raw 0x10 5 0 0" "pyslice b_zk 32 64 = s_rec dotdot_raw 0x10 0 0 0"
  "pyslice b_zk 64 96 = s_rec n_kernel 0x20 6 2 0" "pyslice b_zk 96 128 = s_rec n_initrd 0x20 7 3 0"
  "pyslice b_zk 128 160 = replicate 32 0"
  by (simp_all add: b_root_def b_efi_def b_boot_def b_zk_def slice_simps s_names bs_names)

lemma b_clusters:
  "pyslice boot_image 17408 17920 = b_efi" "pyslice boot_image 17920 18432 = b_boot"
  "pyslice boot_image 18432 18944 = [7] @ replicate 511 0" "pyslice boot_image 18944 19456 = b_zk"
  "pyslice boot_image 19456 19968 = [8, 9] @ replicate 510 0" "pyslice boot_image 19968 20480 = [1, 2, 3] @ replicate 509 0"
  unfolding boot_image_def b_data_def by (simp_all only: append_assoc slice_simps b_lengths s_lengths length_append
      length_replicate list.size) (simp_all add: slice_simps pyslice_def)

text \<open>Every cluster of the volume is a chain of its own.\<close>

lemma b_chain: "c \<in> {2, 3, 4, 5, 6, 7} \<Longrightarrow> cl c = None \<Longrightarrow> chain b_geom c p cl = Inr ([c], claim [c] p cl)"
  by (auto simp: chain_iff [OF b_geom_ok] usable_def data_cluster_def boot_fat b_fat_reads)
    (simp_all add: b_geom_def)

lemma b_offsets:
  "cluster_offset b_geom 2 = Inr 17408" "cluster_offset b_geom 3 = Inr 17920" "cluster_offset b_geom 4 = Inr 18432"
  "cluster_offset b_geom 5 = Inr 18944" "cluster_offset b_geom 6 = Inr 19456" "cluster_offset b_geom 7 = Inr 19968"
  by (simp_all add: cluster_offset_def b_geom_def)

lemma b_geom_fields: "g_data b_geom = boot_image" "g_cluster_bytes b_geom = 512"
  by (simp_all add: b_geom_def)

definition put_dir :: "pystr \<Rightarrow> pystr \<Rightarrow> nat \<Rightarrow> nat \<Rightarrow> vstate \<Rightarrow> vstate" where
  "put_dir path raw off c st = st\<lparr>v_claimed := claim [c] path (v_claimed st), v_paths := insert path (v_paths st),
     v_entries := v_entries st @ [\<lparr>e_path = path, e_raw_name83 = raw, e_offset = off, e_cluster = c, e_size = 0,
       e_type = Directory, e_clusters = [c], e_sha256 = None\<rparr>]\<rparr>"

definition put_file :: "(bytes \<Rightarrow> pystr) \<Rightarrow> pystr \<Rightarrow> pystr \<Rightarrow> nat \<Rightarrow> nat \<Rightarrow> bytes \<Rightarrow> vstate \<Rightarrow> vstate" where
  "put_file sha path raw off c content st = st\<lparr>v_claimed := claim [c] path (v_claimed st), v_paths := insert path (v_paths st),
     v_entries := v_entries st @ [\<lparr>e_path = path, e_raw_name83 = raw, e_offset = off, e_cluster = c, e_size = length content,
       e_type = File, e_clusters = [c], e_sha256 = Some (sha content)\<rparr>],
     v_files := (v_files st)(path \<mapsto> content)\<rparr>"

definition b_ctx :: "bytes \<Rightarrow> string \<Rightarrow> nat \<Rightarrow> nat \<Rightarrow> nat \<Rightarrow> nat \<Rightarrow> dirctx" where
  "b_ctx buf dir cl par off depth = \<lparr>d_buf = buf, d_directory = py dir, d_cluster = cl, d_parent = par, d_base_offset = off,
     d_depth = depth, d_offsets = Some [off]\<rparr>"

definition st1 :: vstate where "st1 = put_dir (py ''/EFI'') (py ''EFI        '') 16896 2 init_vstate"
definition st2 :: vstate where "st2 = put_dir (py ''/EFI/BOOT'') (py ''BOOT       '') 17472 3 st1"
definition st3 :: "(bytes \<Rightarrow> pystr) \<Rightarrow> vstate" where
  "st3 sha = put_file sha (py ''/EFI/BOOT/BOOTX64.EFI'') (py ''BOOTX64 EFI'') 17984 4 loader_bytes st2"
definition st4 :: "(bytes \<Rightarrow> pystr) \<Rightarrow> vstate" where
  "st4 sha = put_dir (py ''/ZK'') (py ''ZK         '') 16928 5 (st3 sha)"
definition st5 :: "(bytes \<Rightarrow> pystr) \<Rightarrow> vstate" where
  "st5 sha = put_file sha (py ''/ZK/KERNEL.ELF'') (py ''KERNEL  ELF'') 19008 6 kernel_bytes (st4 sha)"
definition boot_state :: "(bytes \<Rightarrow> pystr) \<Rightarrow> vstate" where
  "boot_state sha = put_file sha (py ''/ZK/INITRD.BIN'') (py ''INITRD  BIN'') 19040 7 initramfs_bytes (st5 sha)"

lemmas st_defs = st1_def st2_def st3_def st4_def st5_def boot_state_def put_dir_def put_file_def init_vstate_def
  loader_bytes_def kernel_bytes_def initramfs_bytes_def claim_def

lemma b_root_ctx: "d_buf (root_ctx b_geom) = b_root" "d_directory (root_ctx b_geom) = py ''/''"
  "d_cluster (root_ctx b_geom) = 0" "d_base_offset (root_ctx b_geom) = 16896" "d_depth (root_ctx b_geom) = 0"
  "d_offsets (root_ctx b_geom) = None"
  by (simp_all add: root_ctx_def b_geom_def boot_slices)

lemma b_ctx_simps [simp]: "d_buf (b_ctx buf dir cl par off depth) = buf" "d_directory (b_ctx buf dir cl par off depth) = py dir"
  "d_cluster (b_ctx buf dir cl par off depth) = cl" "d_parent (b_ctx buf dir cl par off depth) = par"
  "d_depth (b_ctx buf dir cl par off depth) = depth" "d_base_offset (b_ctx buf dir cl par off depth) = off"
  "d_offsets (b_ctx buf dir cl par off depth) = Some [off]"
  by (simp_all add: b_ctx_def)

text \<open>One directory record, one file record and the two dot records.\<close>

definition fresh :: "vstate \<Rightarrow> pystr \<Rightarrow> nat \<Rightarrow> bool" where
  "fresh st path c \<longleftrightarrow> path \<notin> v_paths st \<and> card (insert path (v_paths st)) \<le> 4096 \<and> v_claimed st c = None"

lemmas b_scan_defs = scan_entry_def scan_named_def scan_dot_def entry_chain_def Let_def s_rec_reads first_of_def b_geom_fields

lemma scan_b_dir:
  assumes "pyslice (d_buf ctx) off (off + 32) = s_rec nm 0x10 (word_of_nat c) 0 0" "length nm = 11"
    "unat (hd nm) \<noteq> 0 \<and> unat (hd nm) \<noteq> 0xE5" "short_name nm = Inr name" "decode_ascii nm = Inr raw"
    "name \<notin> names" "name \<noteq> py ''.''" "name \<noteq> py ''..''" "fresh st (d_directory ctx @ name) c"
    "c \<in> {2, 3, 4, 5, 6, 7}" "cluster_offset b_geom c = Inr pos" "absolute_offset b_geom ctx off = Inr a"
  shows "scan_entry sha b_geom ctx off names dots st = Inr (Descend (insert name names)
     \<lparr>d_buf = pyslice boot_image pos (pos + 512), d_directory = (d_directory ctx @ name) @ py ''/'', d_cluster = c,
      d_parent = d_cluster ctx, d_base_offset = pos, d_depth = Suc (d_depth ctx), d_offsets = Some [pos]\<rparr>
     (put_dir (d_directory ctx @ name) raw a c st))"
proof -
  have "unat (word_of_nat c :: 8 word) = c" using assms(10) by auto
  with assms show ?thesis
    unfolding b_scan_defs(1-5) b_scan_defs(6-13) fresh_def
    by (simp add: b_scan_defs b_chain put_dir_def)
qed

lemma scan_b_file:
  assumes "pyslice (d_buf ctx) off (off + 32) = s_rec nm 0x20 (word_of_nat c) (word_of_nat n) 0" "length nm = 11"
    "unat (hd nm) \<noteq> 0 \<and> unat (hd nm) \<noteq> 0xE5" "short_name nm = Inr name" "decode_ascii nm = Inr raw"
    "name \<notin> names" "name \<noteq> py ''.''" "name \<noteq> py ''..''" "fresh st (d_directory ctx @ name) c"
    "c \<in> {2, 3, 4, 5, 6, 7}" "cluster_offset b_geom c = Inr pos" "absolute_offset b_geom ctx off = Inr a"
    "content = take n (pyslice boot_image pos (pos + 512))" "n \<in> {1, 2, 3}" "length content = n"
  shows "scan_entry sha b_geom ctx off names dots st =
    Inr (Next (insert name names) dots (put_file sha (d_directory ctx @ name) raw a c content st))"
proof -
  have w: "unat (word_of_nat c :: 8 word) = c" "unat (word_of_nat n :: 8 word) = n" using assms(10,14) by auto
  have n: "(n + 512 - Suc 0) div 512 = Suc 0" using assms(14) by auto
  show ?thesis
    using assms w n by (auto simp add: b_scan_defs b_chain put_file_def fresh_def)
qed

lemma scan_b_dots:
  assumes "pyslice (d_buf ctx) off (off + 32) = s_rec raw 0x10 (word_of_nat c) 0 0" "d_directory ctx \<noteq> py ''/''"
    "raw = dot_raw \<and> name = py ''.'' \<and> c = d_cluster ctx \<or> raw = dotdot_raw \<and> name = py ''..'' \<and> c = d_parent ctx"
    "name \<notin> names" "c \<le> 7"
  shows "scan_entry sha b_geom ctx off names dots st = Inr (Next (insert name names) (insert name dots) st)"
proof -
  have c: "unat (word_of_nat c :: 8 word) = c" using assms(5) by (simp add: unat_of_nat)
  from assms(3) show ?thesis
    using assms(1,2,4) c by (elim disjE) (simp_all add: b_scan_defs s_names)
qed

lemma scan_b_stop:
  "pyslice (d_buf ctx) off (off + 32) = replicate 32 0 \<Longrightarrow> scan_entry sha b_geom ctx off names dots st = Inr Stop"
  by (simp add: scan_entry_def byte_at_def)

definition c_efi :: dirctx where "c_efi = b_ctx b_efi ''/EFI/'' 2 0 17408 1"
definition c_boot :: dirctx where "c_boot = b_ctx b_boot ''/EFI/BOOT/'' 3 2 17920 2"
definition c_zk :: dirctx where "c_zk = b_ctx b_zk ''/ZK/'' 5 0 18944 1"

lemma b_absolute:
  "absolute_offset b_geom (root_ctx b_geom) 0 = Inr 16896" "absolute_offset b_geom (root_ctx b_geom) 32 = Inr 16928"
  "absolute_offset b_geom c_efi 64 = Inr 17472" "absolute_offset b_geom c_boot 64 = Inr 17984"
  "absolute_offset b_geom c_zk 64 = Inr 19008" "absolute_offset b_geom c_zk 96 = Inr 19040"
  by (simp_all add: absolute_offset_def b_root_ctx b_geom_fields c_efi_def c_boot_def c_zk_def)

lemma b_fresh:
  "fresh init_vstate (py ''/EFI'') 2" "fresh st1 (py ''/EFI/BOOT'') 3" "fresh st2 (py ''/EFI/BOOT/BOOTX64.EFI'') 4"
  "fresh (st3 sha) (py ''/ZK'') 5" "fresh (st4 sha) (py ''/ZK/KERNEL.ELF'') 6" "fresh (st5 sha) (py ''/ZK/INITRD.BIN'') 7"
  by (simp_all add: fresh_def st_defs card_insert_if)

lemma scan_root_entries:
  "scan_entry sha b_geom (root_ctx b_geom) 0 {} {} init_vstate = Inr (Descend {py ''EFI''} c_efi st1)"
  "scan_entry sha b_geom (root_ctx b_geom) 32 {py ''EFI''} {} (st3 sha) =
     Inr (Descend {py ''ZK'', py ''EFI''} c_zk (st4 sha))"
  "scan_entry sha b_geom (root_ctx b_geom) 64 names dots st = Inr Stop"
proof -
  show "scan_entry sha b_geom (root_ctx b_geom) 64 names dots st = Inr Stop"
    by (rule scan_b_stop) (simp add: b_root_ctx b_entries)
  have "c_efi = \<lparr>d_buf = pyslice boot_image 17408 (17408 + 512), d_directory = (py ''/'' @ py ''EFI'') @ py ''/'', d_cluster = 2,
      d_parent = 0, d_base_offset = 17408, d_depth = Suc 0, d_offsets = Some [17408]\<rparr>"
    by (simp add: c_efi_def b_ctx_def b_clusters)
  then show "scan_entry sha b_geom (root_ctx b_geom) 0 {} {} init_vstate = Inr (Descend {py ''EFI''} c_efi st1)"
    using scan_b_dir [where ctx = "root_ctx b_geom" and off = 0 and nm = n_efi and c = 2 and name = "py ''EFI''" and
        raw = "py ''EFI        ''" and names = "{}" and st = init_vstate and pos = 17408 and a = 16896 and sha = sha and dots = "{}"]
      b_fresh(1)
    by (simp add: b_root_ctx b_entries bs_names b_absolute b_offsets st1_def)
  have "c_zk = \<lparr>d_buf = pyslice boot_image 18944 (18944 + 512), d_directory = (py ''/'' @ py ''ZK'') @ py ''/'', d_cluster = 5,
      d_parent = 0, d_base_offset = 18944, d_depth = Suc 0, d_offsets = Some [18944]\<rparr>"
    by (simp add: c_zk_def b_ctx_def b_clusters)
  then show "scan_entry sha b_geom (root_ctx b_geom) 32 {py ''EFI''} {} (st3 sha) =
     Inr (Descend {py ''ZK'', py ''EFI''} c_zk (st4 sha))"
    using scan_b_dir [where ctx = "root_ctx b_geom" and off = 32 and nm = n_zk and c = 5 and name = "py ''ZK''" and
        raw = "py ''ZK         ''" and names = "{py ''EFI''}" and st = "st3 sha" and pos = 18944 and a = 16928 and sha = sha and dots = "{}"]
      b_fresh(4) [of sha]
    by (simp add: b_root_ctx b_entries s_names b_absolute b_offsets st4_def)
qed

lemma scan_efi_entries:
  "scan_entry sha b_geom c_efi 0 {} {} st = Inr (Next {py ''.''} {py ''.''} st)"
  "scan_entry sha b_geom c_efi 32 {py ''.''} {py ''.''} st = Inr (Next {py ''..'', py ''.''} {py ''..'', py ''.''} st)"
  "scan_entry sha b_geom c_efi 64 {py ''..'', py ''.''} dots st1 =
     Inr (Descend {py ''BOOT'', py ''..'', py ''.''} c_boot st2)"
  "scan_entry sha b_geom c_efi 96 names dots st = Inr Stop"
  subgoal by (rule scan_b_dots [where c = 2 and raw = dot_raw]) (simp_all add: c_efi_def b_entries)
  subgoal by (rule scan_b_dots [where c = 0 and raw = dotdot_raw]) (simp_all add: c_efi_def b_entries)
  subgoal
  proof -
    have "c_boot = \<lparr>d_buf = pyslice boot_image 17920 (17920 + 512), d_directory = (py ''/EFI/'' @ py ''BOOT'') @ py ''/'', d_cluster = 3,
        d_parent = 2, d_base_offset = 17920, d_depth = Suc 1, d_offsets = Some [17920]\<rparr>"
      by (simp add: c_boot_def b_ctx_def b_clusters)
    then show ?thesis
      using scan_b_dir [where ctx = c_efi and off = 64 and nm = n_boot and c = 3 and name = "py ''BOOT''" and
          raw = "py ''BOOT       ''" and names = "{py ''..'', py ''.''}" and st = st1 and pos = 17920 and a = 17472 and sha = sha and dots = dots]
        b_fresh(2) b_absolute(3)
      by (simp add: c_efi_def b_entries bs_names b_offsets st2_def)
  qed
  subgoal by (rule scan_b_stop) (simp add: c_efi_def b_entries)
  done

lemma scan_boot_entries:
  "scan_entry sha b_geom c_boot 0 {} {} st = Inr (Next {py ''.''} {py ''.''} st)"
  "scan_entry sha b_geom c_boot 32 {py ''.''} {py ''.''} st = Inr (Next {py ''..'', py ''.''} {py ''..'', py ''.''} st)"
  "scan_entry sha b_geom c_boot 64 {py ''..'', py ''.''} dots st2 =
     Inr (Next {py ''BOOTX64.EFI'', py ''..'', py ''.''} dots (st3 sha))"
  "scan_entry sha b_geom c_boot 96 names dots st = Inr Stop"
  subgoal by (rule scan_b_dots [where c = 3 and raw = dot_raw]) (simp_all add: c_boot_def b_entries)
  subgoal by (rule scan_b_dots [where c = 2 and raw = dotdot_raw]) (simp_all add: c_boot_def b_entries)
  subgoal
    using scan_b_file [where ctx = c_boot and off = 64 and nm = n_bootx64 and c = 4 and name = "py ''BOOTX64.EFI''" and
        raw = "py ''BOOTX64 EFI''" and names = "{py ''..'', py ''.''}" and st = st2 and pos = 18432 and a = 17984 and n = 1
        and content = loader_bytes and sha = sha and dots = dots] b_fresh(3) b_absolute(4)
    by (simp add: c_boot_def b_entries bs_names b_offsets b_clusters loader_bytes_def st3_def)
  subgoal by (rule scan_b_stop) (simp add: c_boot_def b_entries)
  done

lemma scan_zk_entries:
  "scan_entry sha b_geom c_zk 0 {} {} st = Inr (Next {py ''.''} {py ''.''} st)"
  "scan_entry sha b_geom c_zk 32 {py ''.''} {py ''.''} st = Inr (Next {py ''..'', py ''.''} {py ''..'', py ''.''} st)"
  "scan_entry sha b_geom c_zk 64 {py ''..'', py ''.''} dots (st4 sha) =
     Inr (Next {py ''KERNEL.ELF'', py ''..'', py ''.''} dots (st5 sha))"
  "scan_entry sha b_geom c_zk 96 {py ''KERNEL.ELF'', py ''..'', py ''.''} dots (st5 sha) =
     Inr (Next {py ''INITRD.BIN'', py ''KERNEL.ELF'', py ''..'', py ''.''} dots (boot_state sha))"
  "scan_entry sha b_geom c_zk 128 names dots st = Inr Stop"
  subgoal by (rule scan_b_dots [where c = 5 and raw = dot_raw]) (simp_all add: c_zk_def b_entries)
  subgoal by (rule scan_b_dots [where c = 0 and raw = dotdot_raw]) (simp_all add: c_zk_def b_entries)
  subgoal
    using scan_b_file [where ctx = c_zk and off = 64 and nm = n_kernel and c = 6 and name = "py ''KERNEL.ELF''" and
        raw = "py ''KERNEL  ELF''" and names = "{py ''..'', py ''.''}" and st = "st4 sha" and pos = 19456 and a = 19008 and n = 2
        and content = kernel_bytes and sha = sha and dots = dots] b_fresh(5) [of sha] b_absolute(5)
    by (simp add: c_zk_def b_entries bs_names b_offsets b_clusters kernel_bytes_def st5_def)
  subgoal
    using scan_b_file [where ctx = c_zk and off = 96 and nm = n_initrd and c = 7 and name = "py ''INITRD.BIN''" and
        raw = "py ''INITRD  BIN''" and names = "{py ''KERNEL.ELF'', py ''..'', py ''.''}" and st = "st5 sha" and pos = 19968 and
        a = 19040 and n = 3 and content = initramfs_bytes and sha = sha and dots = dots] b_fresh(6) [of sha] b_absolute(6)
    by (simp add: c_zk_def b_entries bs_names b_offsets b_clusters initramfs_bytes_def boot_state_def numeral_3_eq_3)
  subgoal by (rule scan_b_stop) (simp add: c_zk_def b_entries)
  done

lemma c_views:
  "length (d_buf c_efi) = 512" "length (d_buf c_boot) = 512" "length (d_buf c_zk) = 512" "length (d_buf (root_ctx b_geom)) = 512"
  "d_directory c_efi = py ''/EFI/''" "d_directory c_boot = py ''/EFI/BOOT/''" "d_directory c_zk = py ''/ZK/''"
  "d_depth c_efi = 1" "d_depth c_boot = 2" "d_depth c_zk = 1"
  by (simp_all add: c_efi_def c_boot_def c_zk_def b_root_ctx)

lemma b_walks:
  "walk sha b_geom c_boot st2 = Inr (st3 sha)"
  "walk sha b_geom c_efi st1 = Inr (st3 sha)"
  "walk sha b_geom c_zk (st4 sha) = Inr (boot_state sha)"
  "walk sha b_geom (root_ctx b_geom) init_vstate = Inr (boot_state sha)"
proof -
  have "walk_loop sha b_geom c_boot 0 {} {} st2 = Inr ({py ''..'', py ''.''}, st3 sha)"
    by (simp add: walk_loop_unfold [of sha b_geom c_boot] scan_boot_entries [simplified list.map] c_views)
  then show b: "walk sha b_geom c_boot st2 = Inr (st3 sha)"
    by (simp add: walk_def finish_walk_def c_views insert_commute)
  have "walk_loop sha b_geom c_efi 0 {} {} st1 = Inr ({py ''..'', py ''.''}, st3 sha)"
    by (simp add: walk_loop_unfold [of sha b_geom c_efi] scan_efi_entries [simplified list.map] b c_views)
  then show e: "walk sha b_geom c_efi st1 = Inr (st3 sha)"
    by (simp add: walk_def finish_walk_def c_views insert_commute)
  have "walk_loop sha b_geom c_zk 0 {} {} (st4 sha) = Inr ({py ''..'', py ''.''}, boot_state sha)"
    by (simp add: walk_loop_unfold [of sha b_geom c_zk] scan_zk_entries [simplified list.map] c_views)
  then show z: "walk sha b_geom c_zk (st4 sha) = Inr (boot_state sha)"
    by (simp add: walk_def finish_walk_def c_views insert_commute)
  have "walk_loop sha b_geom (root_ctx b_geom) 0 {} {} init_vstate = Inr ({}, boot_state sha)"
    by (simp add: walk_loop_unfold [of sha b_geom "root_ctx b_geom"] scan_root_entries [simplified list.map] e z c_views)
  then show "walk sha b_geom (root_ctx b_geom) init_vstate = Inr (boot_state sha)"
    by (simp add: walk_def finish_walk_def b_root_ctx)
qed

lemma boot_image_opens: "fat16_open sha boot_image = Inr (b_geom, boot_state sha)"
proof -
  have "check_reachable b_geom (v_claimed (boot_state sha)) [2..<4087] = Inr ()"
    unfolding check_reachable_iff
  proof
    fix c :: nat assume "c \<in> set [2..<4087]"
    then have c: "2 \<le> c" "c < 4087" by (simp_all only: set_upt atLeastLessThan_iff)
    show "\<exists>v. fat b_geom c = Inr v \<and> (v \<noteq> 0 \<longrightarrow> v_claimed (boot_state sha) c \<noteq> None)"
    proof (cases "8 \<le> c")
      case True
      with c show ?thesis by (simp add: boot_fat b_fat_free)
    next
      case False
      with c have "c = 2 \<or> c = 3 \<or> c = 4 \<or> c = 5 \<or> c = 6 \<or> c = 7" by auto
      then show ?thesis by (auto simp: boot_fat b_fat_reads st_defs)
    qed
  qed
  moreover have "g_cluster_count b_geom + 2 = 4087" by (simp add: b_geom_def)
  ultimately show ?thesis
    by (simp only: fat16_open_def boot_geometry b_walks ebind_simps)
qed

lemma boot_files:
  "v_files (boot_state sha) (py ''/EFI/BOOT/BOOTX64.EFI'') = Some loader_bytes"
  "v_files (boot_state sha) (py ''/ZK/KERNEL.ELF'') = Some kernel_bytes"
  "v_files (boot_state sha) (py ''/ZK/INITRD.BIN'') = Some initramfs_bytes"
  by (simp_all add: st_defs)

end
