(* ===== verification/Qualify_Sample.thy ===== *)
theory Qualify_Sample
  imports QualifyVM_Spec Esp_Sample VM_Witness
begin

text \<open>
  A concrete host on which the qualifiers run to their end: paths are joined to their last component,
  the snapshot holds the boot image of \<open>Esp_Sample\<close>, docker answers as for the pinned image, the guest
  exits with a given code and leaves a given serial transcript. The properties of the qualifiers and of
  the probe are instantiated on it.
\<close>

section \<open>Text helpers\<close>

definition unspaced :: "pystr \<Rightarrow> bool" where "unspaced s \<longleftrightarrow> list_all (\<lambda>c. \<not> is_space c) s"

definition graphic :: "pychar \<Rightarrow> bool" where "graphic c \<longleftrightarrow> 33 \<le> code_of c \<and> code_of c \<le> 126"

lemma graphic_plain: "graphic c \<Longrightarrow> \<not> is_space c \<and> \<not> line_break c \<and> is_ascii c"
  by (auto simp: graphic_def is_space_def line_break_def is_ascii_def Let_def)

lemma graphic_unspaced: "list_all graphic s \<Longrightarrow> unspaced s"
  using graphic_plain by (auto simp: unspaced_def list_all_iff)

lemma strip_unspaced: "unspaced s \<Longrightarrow> strip s = s"
proof -
  assume u: "unspaced s"
  have d: "dropWhile is_space xs = xs" if "list_all (\<lambda>c. \<not> is_space c) xs" for xs
    using that by (cases xs) auto
  from u d [of s] d [of "rev s"] show ?thesis by (simp add: unspaced_def strip_def rstrip_by_def list_all_iff)
qed

lemma split_spaces_word: "unspaced s \<Longrightarrow> s \<noteq> [] \<Longrightarrow> split_spaces s = [s]"
proof (induction s)
  case (Cons c s)
  then show ?case by (cases s) (auto simp: unspaced_def)
qed simp

lemma split_spaces_word_space:
  "unspaced s \<Longrightarrow> s \<noteq> [] \<Longrightarrow> is_space d \<Longrightarrow> split_spaces (s @ d # t) = s # split_spaces t"
proof (induction s)
  case (Cons c s)
  then show ?case by (cases s) (auto simp: unspaced_def)
qed simp

section \<open>The world\<close>

definition s_cid :: pystr where "s_cid = replicate 64 (Ch CHR ''a'')"
definition s_firmware :: pystr where
  "s_firmware = (PINNED_OVMF_CODE_SHA256 @ SP # SP # OVMF_CODE) @ LF # (PINNED_OVMF_VARS_SHA256 @ SP # SP # RUN_VARS) @ LF # []"

definition s_read_text :: "pystr \<Rightarrow> pystr \<Rightarrow> pystr" where
  "s_read_text serial path =
    (if path = py ''container.cid'' then s_cid
     else if path = py ''firmware-sha256.txt'' then s_firmware
     else if path = py ''serial.log'' then serial else [])"

definition s_read_bytes :: "pystr \<Rightarrow> bytes" where
  "s_read_bytes path =
    (if path = ESP_NAME then boot_image else if path = LOADER_NAME then loader_bytes
     else if path = KERNEL_NAME then kernel_bytes else if path = INITRAMFS_NAME then initramfs_bytes else [])"

definition s_docker :: "int \<Rightarrow> command \<Rightarrow> process" where
  "s_docker code cmd =
    (if cmd = image_cmd PINNED_IMAGE_REF then \<lparr>returncode = 0, stdout = PINNED_IMAGE_ID, stderr = []\<rparr>
     else \<lparr>returncode = (if cmd = start_cmd s_cid then code else 0), stdout = [], stderr = []\<rparr>)"

definition s_world :: "int \<Rightarrow> pystr \<Rightarrow> world" where
  "s_world code serial = \<lparr>
     w_docker = (\<lambda>tr cmd env n. Inr (s_docker code cmd)),
     w_tool = (\<lambda>tr cmd. Inr \<lparr>returncode = 0, stdout = [], stderr = []\<rparr>),
     w_mkdir = (\<lambda>tr p. None), w_copy = (\<lambda>tr p p'. None), w_write = (\<lambda>tr p t. None),
     w_exists = (\<lambda>tr p. Inr (p \<noteq> py ''firmware-missing.txt'')), w_is_file = (\<lambda>tr p. Inr True),
     w_is_dir = (\<lambda>tr p. Inr True),
     w_read_text = (\<lambda>tr p. Inr (s_read_text serial p)), w_read_bytes = (\<lambda>tr p. Inr (s_read_bytes p)),
     w_iterdir = (\<lambda>tr p. Inr [ESP_NAME, KERNEL_NAME]), w_stat_size = (\<lambda>tr p. Inr 1),
     w_resolve = Inr, w_is_absolute = (\<lambda>p. True), w_cwd = Inr [], w_nt = False, w_drive = (\<lambda>p. []),
     w_join = (\<lambda>p p'. p'), w_parent = (\<lambda>p. p), w_sha = (\<lambda>b. py ''digest''), w_environ = Map.empty,
     w_uuid = py ''0'', w_run_stamp = py ''1'', w_inspect_json = (\<lambda>s. Inr NotOneRecord),
     w_state_json = (\<lambda>s. Inr (StateDict (Some code))), w_lower = (\<lambda>s. s), w_utf8 = (\<lambda>b. []), w_repr = (\<lambda>s. s),
     w_str = (\<lambda>e. []), w_limit_text = (\<lambda>e. []), w_dumps_binding = (\<lambda>b. [])\<rparr>"

lemma s_world_simps [simp]:
  "w_docker (s_world code serial) tr cmd env n = Inr (s_docker code cmd)"
  "w_tool (s_world code serial) tr cmd = Inr \<lparr>returncode = 0, stdout = [], stderr = []\<rparr>"
  "w_mkdir (s_world code serial) tr p = None" "w_copy (s_world code serial) tr p p' = None"
  "w_write (s_world code serial) tr p t = None" "w_exists (s_world code serial) tr p = Inr (p \<noteq> py ''firmware-missing.txt'')"
  "w_is_file (s_world code serial) tr p = Inr True" "w_read_text (s_world code serial) tr p = Inr (s_read_text serial p)"
  "w_read_bytes (s_world code serial) tr p = Inr (s_read_bytes p)"
  "w_iterdir (s_world code serial) tr p = Inr [ESP_NAME, KERNEL_NAME]" "w_stat_size (s_world code serial) tr p = Inr 1"
  "w_resolve (s_world code serial) p = Inr p" "w_is_absolute (s_world code serial) p" "\<not> w_nt (s_world code serial)"
  "w_join (s_world code serial) p p' = p'" "w_sha (s_world code serial) b = py ''digest''"
  "w_state_json (s_world code serial) s = Inr (StateDict (Some code))" "w_repr (s_world code serial) s = s"
  by (simp_all add: s_world_def)

lemma s_world_lower: "w_lower (s_world code serial) = (\<lambda>s. s)"
  by (simp add: s_world_def)

definition s_qargs :: qargs where
  "s_qargs = \<lparr>q_esp_image = [], q_loader = [], q_kernel = [], q_initramfs = [], q_imginfo = [],
     q_initramfs_path = py ''/ZK/INITRD.BIN'', q_qemu_image = PINNED_IMAGE_REF, q_qemu_image_id = PINNED_IMAGE_ID,
     q_qemu_accel = TCG, q_timeout = VInt 90, q_evidence_parent = py ''/e'', q_docker_host = None,
     q_docker_config = None\<rparr>"

lemma s_names_distinct:
  "py ''container.cid'' \<noteq> py ''firmware-missing.txt''" "py ''firmware-sha256.txt'' \<noteq> py ''firmware-missing.txt''"
  "py ''serial.log'' \<noteq> py ''firmware-missing.txt''" "ESP_NAME \<noteq> py ''firmware-missing.txt''"
  "s_read_text serial (py ''container.cid'') = s_cid" "s_read_text serial (py ''firmware-sha256.txt'') = s_firmware"
  "s_read_text serial (py ''serial.log'') = serial"
  by (simp_all add: ESP_NAME_def s_read_text_def)

lemma s_bytes:
  "s_read_bytes ESP_NAME = boot_image" "s_read_bytes LOADER_NAME = loader_bytes"
  "s_read_bytes KERNEL_NAME = kernel_bytes" "s_read_bytes INITRAMFS_NAME = initramfs_bytes"
  by (simp_all add: s_read_bytes_def ESP_NAME_def LOADER_NAME_def KERNEL_NAME_def INITRAMFS_NAME_def)

lemma s_ids:
  "valid_cid s_cid" "strip s_cid = s_cid" "strip PINNED_IMAGE_ID = PINNED_IMAGE_ID"
  "starts_with PINNED_IMAGE_ID SHA_PREFIX" "valid_cid (drop 7 PINNED_IMAGE_ID)"
proof -
  show "valid_cid s_cid" by (simp add: valid_cid_def s_cid_def hexdigits_def)
  show "strip s_cid = s_cid" by (intro strip_unspaced graphic_unspaced) (simp add: graphic_def s_cid_def list_all_iff)
  show "strip PINNED_IMAGE_ID = PINNED_IMAGE_ID" by (intro strip_unspaced graphic_unspaced) (simp add: graphic_def PINNED_IMAGE_ID_def)
  show "starts_with PINNED_IMAGE_ID SHA_PREFIX" "valid_cid (drop 7 PINNED_IMAGE_ID)"
    by (simp_all add: starts_with_def SHA_PREFIX_def PINNED_IMAGE_ID_def valid_cid_def hexdigits_def)
qed

lemma s_firmware_hashes:
  "parse_firmware_hashes w s_firmware OVMF_CODE = Some PINNED_OVMF_CODE_SHA256"
  "parse_firmware_hashes w s_firmware RUN_VARS = Some PINNED_OVMF_VARS_SHA256"
proof -
  have g: "list_all graphic PINNED_OVMF_CODE_SHA256" "list_all graphic PINNED_OVMF_VARS_SHA256" "list_all graphic OVMF_CODE"
    "list_all graphic RUN_VARS"
    by (simp_all add: graphic_def PINNED_OVMF_CODE_SHA256_def PINNED_OVMF_VARS_SHA256_def OVMF_CODE_def RUN_VARS_def)
  note u = g [THEN graphic_unspaced]
  have ne: "PINNED_OVMF_CODE_SHA256 \<noteq> []" "PINNED_OVMF_VARS_SHA256 \<noteq> []" "OVMF_CODE \<noteq> []" "RUN_VARS \<noteq> []" "OVMF_CODE \<noteq> RUN_VARS"
    by (simp_all add: PINNED_OVMF_CODE_SHA256_def PINNED_OVMF_VARS_SHA256_def OVMF_CODE_def RUN_VARS_def)
  have low: "str_lower l PINNED_OVMF_CODE_SHA256 = PINNED_OVMF_CODE_SHA256"
    "str_lower l PINNED_OVMF_VARS_SHA256 = PINNED_OVMF_VARS_SHA256" for l
  proof -
    have "list_all is_ascii PINNED_OVMF_CODE_SHA256" "list_all is_ascii PINNED_OVMF_VARS_SHA256"
      using g graphic_plain by (auto simp: list_all_iff)
    moreover have "map lower_char PINNED_OVMF_CODE_SHA256 = PINNED_OVMF_CODE_SHA256"
      "map lower_char PINNED_OVMF_VARS_SHA256 = PINNED_OVMF_VARS_SHA256"
      by (simp_all add: PINNED_OVMF_CODE_SHA256_def PINNED_OVMF_VARS_SHA256_def lower_char_def)
    ultimately show "str_lower l PINNED_OVMF_CODE_SHA256 = PINNED_OVMF_CODE_SHA256"
      "str_lower l PINNED_OVMF_VARS_SHA256 = PINNED_OVMF_VARS_SHA256" by (simp_all add: str_lower_def)
  qed
  have stars: "dropWhile (\<lambda>c. c = Ch CHR ''*'') OVMF_CODE = OVMF_CODE" "dropWhile (\<lambda>c. c = Ch CHR ''*'') RUN_VARS = RUN_VARS"
    by (simp_all add: OVMF_CODE_def RUN_VARS_def)
  have brk: "\<forall>c\<in>set (PINNED_OVMF_CODE_SHA256 @ SP # SP # OVMF_CODE). \<not> line_break c"
    "\<forall>c\<in>set (PINNED_OVMF_VARS_SHA256 @ SP # SP # RUN_VARS). \<not> line_break c"
    using g graphic_plain by (auto simp: list_all_iff line_break_def)
  have sp: "is_space SP" by (simp add: is_space_def)
  have words: "split_spaces (PINNED_OVMF_CODE_SHA256 @ SP # SP # OVMF_CODE) = [PINNED_OVMF_CODE_SHA256, OVMF_CODE]"
    "split_spaces (PINNED_OVMF_VARS_SHA256 @ SP # SP # RUN_VARS) = [PINNED_OVMF_VARS_SHA256, RUN_VARS]"
    using u ne sp by (simp_all add: split_spaces_word_space split_spaces_word)
  have lines: "splitlines s_firmware = [PINNED_OVMF_CODE_SHA256 @ SP # SP # OVMF_CODE, PINNED_OVMF_VARS_SHA256 @ SP # SP # RUN_VARS]"
    unfolding s_firmware_def splitlines_line [OF brk(1)] splitlines_line [OF brk(2)] by simp
  have "parse_firmware_hashes w s_firmware =
      [OVMF_CODE \<mapsto> PINNED_OVMF_CODE_SHA256, RUN_VARS \<mapsto> PINNED_OVMF_VARS_SHA256]"
    unfolding parse_firmware_hashes_def lines by (simp add: hash_line_def words low stars)
  then show "parse_firmware_hashes w s_firmware OVMF_CODE = Some PINNED_OVMF_CODE_SHA256"
    "parse_firmware_hashes w s_firmware RUN_VARS = Some PINNED_OVMF_VARS_SHA256"
    using ne(5) by simp_all
qed

lemma s_commands:
  "image_cmd PINNED_IMAGE_REF \<noteq> create_cmd w b i c" "start_cmd s_cid \<noteq> image_cmd PINNED_IMAGE_REF"
  "create_cmd w b i c \<noteq> start_cmd s_cid" "state_cmd c \<noteq> image_cmd PINNED_IMAGE_REF" "state_cmd c \<noteq> start_cmd s_cid"
  "rm_cmd c \<noteq> image_cmd PINNED_IMAGE_REF" "rm_cmd c \<noteq> start_cmd s_cid"
  by (simp_all add: image_cmd_def create_cmd_def create_args_def start_cmd_def state_cmd_def rm_cmd_def)

section \<open>The probe on the sample world\<close>

definition s_args :: boot_args where
  "s_args = boot_args_of (s_world 0 []) s_qargs [] None"

lemma s_args_fields:
  "b_timeout s_args = VInt 90" "b_image_ref s_args = PINNED_IMAGE_REF" "b_image_id s_args = PINNED_IMAGE_ID"
  "b_accel s_args = TCG" "b_docker_config s_args = None" "b_docker_host s_args = None"
  by (simp_all add: s_args_def boot_args_of_def s_qargs_def)

lemma s_args_of: "boot_args_of (s_world code serial) s_qargs run None = s_args"
  by (simp add: s_args_def boot_args_of_def inputs_dir_def output_dir_def)

lemma s_guest_command: "\<exists>cmd. guest_command w (b_timeout s_args) (b_accel s_args) = Inr cmd"
  by (simp add: guest_command_def s_args_fields require_tcg_def require_timeout_def require_range_def Let_def)

definition s_cmd :: pystr where
  "s_cmd = projr (guest_command (s_world 0 []) (b_timeout s_args) (b_accel s_args))"

lemma s_cmd: "guest_command (s_world code serial) (VInt 90) TCG = Inr s_cmd"
proof -
  have "guest_command (s_world code serial) (VInt 90) TCG = guest_command (s_world 0 []) (VInt 90) TCG"
    by (simp add: guest_command_def require_tcg_def require_timeout_def require_range_def)
  with s_guest_command [of "s_world 0 []"] show ?thesis by (auto simp: s_cmd_def s_args_fields)
qed

definition s_hashes :: "pystr \<Rightarrow> pystr option" where
  "s_hashes = parse_firmware_hashes (s_world 0 []) s_firmware"

lemma s_hashes: "parse_firmware_hashes (s_world code serial) s_firmware = s_hashes"
proof -
  have "hash_line (s_world code serial) = hash_line (s_world 0 [])"
    by (intro ext) (unfold hash_line_def s_world_lower, rule refl)
  then show ?thesis by (simp add: s_hashes_def parse_firmware_hashes_def)
qed

lemmas run_defs = bnd_def andthen_def catch_def finally_do_def ret_def raise_def lift_def upd_def log_error_def asking_def
  look_def perform_def refused_def set_cid_def set_create_attempted_def exists_path_def read_text_def digest_def
  write_text_def docker_def s_args_fields

lemma s_resolve:
  "resolve_pinned_image (s_world code serial) s_args s =
     (Inr PINNED_IMAGE_ID, s\<lparr>p_trace := p_trace s @ [Docker (image_cmd PINNED_IMAGE_REF)]\<rparr>)"
  by (simp add: resolve_pinned_image_def run_defs s_docker_def image_of_def s_ids)

lemma s_create:
  "create_container (s_world code serial) s_args PINNED_IMAGE_ID s_cmd s =
     (Inr s_cid, s\<lparr>p_trace := p_trace s @ [Docker (create_cmd (s_world code serial) s_args PINNED_IMAGE_ID s_cmd)],
        p_cid := Some s_cid, p_create_attempted := True\<rparr>)"
  using s_commands(1,3)
  by (simp add: create_container_def read_cidfile_def cidfile_path_def run_defs s_docker_def s_ids s_names_distinct
      del: list.map)

lemma s_attach:
  "attach (s_world code serial) s_args s_cid n s =
     (Inr \<lparr>returncode = code, stdout = [], stderr = []\<rparr>,
      s\<lparr>p_trace := p_trace s @ [Docker (start_cmd s_cid), WriteText (py ''container-stdout.log'') [],
           WriteText (py ''container-stderr.log'') []],
        p_report := (p_report s)\<lparr>k_attach_attempted := True, k_docker_start_exit_code := Some code\<rparr>\<rparr>)"
  using s_commands(2)
  by (simp add: attach_def write_logs_def run_defs s_docker_def decode_def del: list.map)

lemma s_check_firmware:
  "check_firmware (s_world code serial) s_args s =
     (Inr (), s\<lparr>p_report := (p_report s)\<lparr>k_firmware_sha256 := Some s_hashes\<rparr>\<rparr>)"
  using s_firmware_hashes [of "s_world 0 []"]
  by (simp add: check_firmware_def run_defs s_names_distinct s_hashes s_hashes_def [symmetric] Let_def del: list.map)

lemma s_check_state:
  "check_state (s_world code serial) s_args s_cid \<lparr>returncode = code, stdout = [], stderr = []\<rparr> s =
     (Inr (), s\<lparr>p_trace := p_trace s @ [Docker (state_cmd s_cid)],
        p_report := (p_report s)\<lparr>k_container_state := Some (StateDict (Some code)),
          k_errors := k_errors (p_report s) @ (if code = 33 then [] else [EXIT33])\<rparr>\<rparr>)"
  using s_commands(4,5) by (simp add: check_state_def run_defs s_docker_def)

lemma s_remove:
  "p_cid s = Some s_cid \<Longrightarrow> remove_step (s_world code serial) s_args s =
     (Inr (), s\<lparr>p_trace := p_trace s @ [Docker (rm_cmd s_cid)],
        p_report := (p_report s)\<lparr>k_owned_container_id := Some s_cid, k_cleanup := Some (s_cid, 0)\<rparr>\<rparr>)"
  using s_commands(6,7) by (simp add: remove_step_def run_defs s_docker_def)

lemma s_serial:
  "k_attach_attempted (p_report s) \<Longrightarrow> serial_step (s_world code serial) s_args s =
     (Inr (), s\<lparr>p_report := (p_report s)\<lparr>k_serial_sha256 := Some (py ''digest''),
        k_transcript := Some (parse_serial serial),
        k_kernel_entry_observed := Some (kernel_entry_observed (parse_serial serial)),
        k_errors := k_errors (p_report s) @ transcript_errors (parse_serial serial)\<rparr>\<rparr>)"
  by (simp add: serial_step_def collect_serial_def serial_path_def run_defs s_names_distinct Let_def del: list.map)

lemma s_esp:
  "given (k_inputs (p_report s)) ESP_NAME = Some (n, py ''digest'') \<Longrightarrow> esp_step (s_world code serial) s_args s =
     (Inr (), s\<lparr>p_report := (p_report s)\<lparr>k_esp_unchanged := Some True\<rparr>\<rparr>)"
  by (simp add: esp_step_def esp_path_def run_defs s_names_distinct Let_def del: list.map)

text \<open>A probe run on the sample world returns, and adds the errors the guest's exit and transcript cause.\<close>

definition s_after_boot :: "int \<Rightarrow> pystr \<Rightarrow> 'm boot_report_scheme \<Rightarrow> 'm boot_report_scheme" where
  "s_after_boot code serial r = r\<lparr>
     k_creation_identity := Some (container_name (s_world 0 []), OWNER_LABEL, py ''0''),
     k_expected_markers := MARKERS, k_linux_replacement_qualified := False, k_scope := SCOPE, k_qemu_accel := Some TCG,
     k_docker_host := None, k_verifier_image := Some PINNED_IMAGE_ID, k_verifier_image_ref := Some PINNED_IMAGE_REF,
     k_guest_command := Some s_cmd, k_owned_container_id := Some s_cid, k_launched := True, k_attach_attempted := True,
     k_docker_start_exit_code := Some code, k_firmware_sha256 := Some s_hashes,
     k_container_state := Some (StateDict (Some code)), k_cleanup := Some (s_cid, 0),
     k_serial_sha256 := Some (py ''digest''), k_transcript := Some (parse_serial serial),
     k_kernel_entry_observed := Some (kernel_entry_observed (parse_serial serial)),
     k_errors := k_errors r @ (if code = 33 then [] else [EXIT33]) @ transcript_errors (parse_serial serial),
     k_esp_unchanged := Some True\<rparr>"

lemma s_run_boot:
  assumes "given (k_inputs (p_report s)) ESP_NAME = Some (n, py ''digest'')"
  shows "\<exists>s'. run_boot (s_world code serial) s_args s = (Inr (), s') \<and> p_report s' = s_after_boot code serial (p_report s) \<and>
    length (dockers (p_trace s')) = length (dockers (p_trace s)) + 5"
proof -
  let ?w = "s_world code serial"
  obtain i where i: "boot_init ?w s_args s = (Inr (), i)" "p_cid i = None" "p_trace i = p_trace s"
    "p_report i = (p_report s)\<lparr>k_creation_identity := Some (container_name (s_world 0 []), OWNER_LABEL, py ''0''),
       k_expected_markers := MARKERS,
       k_kernel_entry_observed := (case k_kernel_entry_observed (p_report s) of None \<Rightarrow> Some False | Some k \<Rightarrow> Some k),
       k_linux_replacement_qualified := False, k_scope := SCOPE, k_qemu_accel := Some TCG, k_docker_host := None\<rparr>"
    by (simp add: boot_init_def run_defs container_name_def s_world_def)
  obtain u where u: "boot_body ?w s_args i = (Inr (), u)" "p_cid u = Some s_cid" "length (dockers (p_trace u)) = length (dockers (p_trace s)) + 4"
    "p_report u = (p_report i)\<lparr>k_verifier_image := Some PINNED_IMAGE_ID, k_verifier_image_ref := Some PINNED_IMAGE_REF,
       k_guest_command := Some s_cmd, k_owned_container_id := Some s_cid, k_launched := True, k_attach_attempted := True,
       k_docker_start_exit_code := Some code, k_firmware_sha256 := Some s_hashes,
       k_container_state := Some (StateDict (Some code)),
       k_errors := k_errors (p_report i) @ (if code = 33 then [] else [EXIT33])\<rparr>"
    unfolding boot_body_def
    by (simp add: bnd_def andthen_def lift_def upd_def s_args_fields require_tcg_def require_timeout_def require_range_def
        s_resolve s_cmd s_create s_attach s_check_firmware s_check_state i(3) dockers_def)
  have inp: "k_inputs (p_report u) = k_inputs (p_report s)" by (simp add: u(4) i(4))
  have rec: "recover_step ?w s_args u = (Inr (), u)" using u(2) by (simp add: recover_step_def run_defs)
  obtain x where x: "boot_cleanup ?w s_args u = (Inr (), x)" "length (dockers (p_trace x)) = length (dockers (p_trace u)) + 1"
    "p_report x = (p_report u)\<lparr>k_owned_container_id := Some s_cid, k_cleanup := Some (s_cid, 0),
        k_serial_sha256 := Some (py ''digest''), k_transcript := Some (parse_serial serial),
        k_kernel_entry_observed := Some (kernel_entry_observed (parse_serial serial)),
        k_errors := k_errors (p_report u) @ transcript_errors (parse_serial serial),
        k_esp_unchanged := Some True, k_linux_replacement_qualified := False\<rparr>"
    unfolding boot_cleanup_def using assms
    by (simp add: bnd_def andthen_def rec s_remove u(2) s_serial u(4) s_esp i(4) upd_def dockers_def)
  show ?thesis
    by (intro exI [of _ x])
       (simp add: run_boot_def andthen_def bnd_def finally_do_def catch_def i(1) u(1) x u(3,4) i(4) s_after_boot_def)
qed

section \<open>The qualifiers on the sample world\<close>

definition s_artifacts :: "pystr \<Rightarrow> (nat \<times> pystr) option" where
  "s_artifacts = [ESP_NAME \<mapsto> (1, py ''digest''), KERNEL_NAME \<mapsto> (1, py ''digest'')]"

lemma s_artifacts:
  "s_artifacts ESP_NAME = Some (1, py ''digest'')" "s_artifacts KERNEL_NAME = Some (1, py ''digest'')"
proof -
  have "ESP_NAME \<noteq> KERNEL_NAME" by (simp add: ESP_NAME_def KERNEL_NAME_def)
  then show "s_artifacts ESP_NAME = Some (1, py ''digest'')" "s_artifacts KERNEL_NAME = Some (1, py ''digest'')"
    by (simp_all add: s_artifacts_def)
qed

lemma s_snapshot:
  "\<exists>t. snapshot_inputs (s_world code serial) q run s = (Inr s_artifacts, t) \<and> p_report t = p_report s"
  by (simp add: snapshot_inputs_def make_dir_def copy_artifact_def run_defs inventory_def artifact_def s_artifacts_def Let_def)

lemma s_imginfo:
  "\<exists>t. run_imginfo (s_world code serial) i k p s = (Inr [], t) \<and> p_report t = p_report s"
  by (simp add: run_imginfo_def run_defs strip_def rstrip_by_def)

lemma s_canonical:
  "canonical_path LOADER_PATH = Inr (py ''/EFI/BOOT/BOOTX64.EFI'')" "canonical_path KERNEL_PATH = Inr (py ''/ZK/KERNEL.ELF'')"
  "canonical_path (py ''/ZK/INITRD.BIN'') = Inr (py ''/ZK/INITRD.BIN'')"
  by code_simp+

lemma s_binding: "\<exists>binding. bind_esp (s_world code serial) s_qargs run tr = Inr binding \<and> r_status binding = Pass"
proof -
  let ?w = "s_world code serial"
  let ?ex = "expected_artifacts ?w [] (py ''/ZK/INITRD.BIN'')"
  have h: "h_read (esp_host ?w tr) p = Inr (s_read_bytes p)" "h_resolve (esp_host ?w tr) p = Inr p" for p
    by (simp_all add: esp_host_def)
  have "\<exists>r. verify (esp_host ?w tr) ESP_NAME ?ex = Inr r"
    by (rule verify_total) (simp_all add: h)
  then obtain rep volume where r: "verify (esp_host ?w tr) ESP_NAME ?ex = Inr (rep, volume)"
    by (metis surj_pair)
  have len: "length (s_read_bytes p) \<le> MAX_IMAGE" for p
    by (simp add: s_read_bytes_def MAX_IMAGE_def loader_bytes_def kernel_bytes_def initramfs_bytes_def)
  have b: "bound (esp_host ?w tr) (boot_state sha) (path, name) logical"
    if "canonical_path path = Inr logical" "v_files (boot_state sha) logical = Some (s_read_bytes name)" for sha path name logical
    using that len by (simp add: bound_def read_bounded_Inr h)
  let ?st = "boot_state (h_sha (esp_host ?w tr))"
  have b3: "bound (esp_host ?w tr) ?st (LOADER_PATH, LOADER_NAME) (py ''/EFI/BOOT/BOOTX64.EFI'')"
    "bound (esp_host ?w tr) ?st (KERNEL_PATH, KERNEL_NAME) (py ''/ZK/KERNEL.ELF'')"
    "bound (esp_host ?w tr) ?st (py ''/ZK/INITRD.BIN'', INITRAMFS_NAME) (py ''/ZK/INITRD.BIN'')"
    by (rule b [OF s_canonical(1)], simp only: boot_files s_bytes, rule b [OF s_canonical(2)], simp only: boot_files s_bytes,
        rule b [OF s_canonical(3)], simp only: boot_files s_bytes)
  have "list_all2 (bound (esp_host ?w tr) ?st) ?ex [py ''/EFI/BOOT/BOOTX64.EFI'', py ''/ZK/KERNEL.ELF'', py ''/ZK/INITRD.BIN'']"
    unfolding expected_artifacts_def list_all2_Cons s_world_simps by (intro conjI b3) simp
  moreover have "distinct [py ''/EFI/BOOT/BOOTX64.EFI'', py ''/ZK/KERNEL.ELF'', py ''/ZK/INITRD.BIN'']" by simp
  moreover have "read_bounded (esp_host ?w tr) ESP_NAME = Inr boot_image"
    unfolding read_bounded_Inr h using len [of ESP_NAME] by (simp add: s_bytes)
  ultimately have "r_status rep = Pass"
    unfolding verify_Pass [OF r] using boot_image_opens by blast
  then show ?thesis
    using r s_canonical(3) by (simp add: bind_esp_def s_qargs_def expected_artifacts_def)
qed

lemma s_bind_and_boot:
  "\<exists>binding s'. bind_and_boot (s_world code serial) s_qargs run s = (Inr (), s') \<and> r_status binding = Pass \<and>
     p_report s' = s_after_boot code serial ((p_report s)\<lparr>k_inputs := Some s_artifacts, k_imginfo := Some ([], []),
       k_esp_binding := Some binding\<rparr>) \<and> dockers (p_trace s') \<noteq> dockers (p_trace s)"
proof -
  let ?w = "s_world code serial"
  obtain t1 where t1: "snapshot_inputs ?w s_qargs run s = (Inr s_artifacts, t1)" "p_report t1 = p_report s"
    using s_snapshot by blast
  let ?r1 = "(p_report s)\<lparr>k_inputs := Some s_artifacts\<rparr>"
  let ?t1 = "t1\<lparr>p_report := ?r1\<rparr>"
  obtain t2 where t2: "run_imginfo ?w (q_imginfo s_qargs) (py ''pe'') LOADER_NAME ?t1 = (Inr [], t2)"
    "p_report t2 = ?r1" using s_imginfo [of code serial "q_imginfo s_qargs" "py ''pe''" LOADER_NAME ?t1] by auto
  obtain t3 where t3: "run_imginfo ?w (q_imginfo s_qargs) (py ''elf'') KERNEL_NAME t2 = (Inr [], t3)"
    "p_report t3 = ?r1" using s_imginfo [of code serial "q_imginfo s_qargs" "py ''elf''" KERNEL_NAME t2] t2(2) by auto
  let ?t3 = "t3\<lparr>p_report := ?r1\<lparr>k_imginfo := Some ([], [])\<rparr>\<rparr>"
  obtain binding where b: "bind_esp ?w s_qargs run (p_trace ?t3) = Inr binding" "r_status binding = Pass"
    using s_binding by blast
  obtain t4 where t4: "check_binding ?w s_qargs run ?t3 = (Inr (), t4)"
    "p_report t4 = (p_report ?t3)\<lparr>k_esp_binding := Some binding\<rparr>"
    using b by (simp add: check_binding_def run_defs)
  have "given (k_inputs (p_report t4)) ESP_NAME = Some (1, py ''digest'')"
    unfolding t4(2) by (simp add: given_def s_artifacts)
  from s_run_boot [OF this] obtain s' where s': "run_boot ?w s_args t4 = (Inr (), s')"
    "p_report s' = s_after_boot code serial (p_report t4)" "length (dockers (p_trace s')) = length (dockers (p_trace t4)) + 5"
    by blast
  have "dockers (p_trace t4) = dockers (p_trace s)"
    using quietD [OF quiet_qualify_actions(5) t1(1)] quietD [OF quiet_qualify_actions(4) t2(1)]
      quietD [OF quiet_qualify_actions(4) t3(1)] quietD [OF quiet_qualify_actions(6) t4(1)] by (simp add: same_control_def)
  with s'(3) have launched: "dockers (p_trace s') \<noteq> dockers (p_trace s)" by auto
  have cfg: "resolve_docker_config ?w (q_docker_config s_qargs) s = (Inr None, s)"
    by (simp add: resolve_docker_config_def s_qargs_def ret_def)
  show ?thesis
    by (intro exI [of _ binding] exI [of _ s'])
       (simp add: bind_and_boot_def bnd_def andthen_def upd_def cfg t1 t2(1) t3(1) t4(1) s_args_of s'(1,2) launched b(2) t4(2) t3(2) t2(2)
          del: list.map)
qed

definition s_start :: "unit qualify_report_ext pst" where
  "s_start = \<lparr>p_trace = [], p_report = initial_report (s_world 33 []) [], p_cid = None, p_create_attempted = False\<rparr>"

lemma s_output: "require_d_output (s_world code serial) p = Inr p"
  by (simp add: require_d_output_def)

lemma s_launch:
  assumes "chk (VInt 90) = Inr n"
  shows "\<exists>binding s'. try_launch chk (s_world code serial) s_qargs run s = (Inr (), s') \<and> r_status binding = Pass \<and>
     p_report s' = s_after_boot code serial ((p_report s)\<lparr>k_inputs := Some s_artifacts, k_imginfo := Some ([], []),
       k_esp_binding := Some binding\<rparr>) \<and> dockers (p_trace s') \<noteq> dockers (p_trace s)"
proof -
  have "require_tcg (s_world code serial) (q_qemu_accel s_qargs) = Inr ()"
    by (simp add: require_tcg_def s_qargs_def)
  moreover have "chk (q_timeout s_qargs) = Inr n" using assms by (simp add: s_qargs_def)
  ultimately show ?thesis
    using s_bind_and_boot [of code serial run s] by (auto simp: try_launch_def catch_def bnd_def lift_def)
qed

lemma s_qualify:
  assumes "transcript_errors (parse_serial serial) = []"
  shows "\<exists>sm s'. qualify (s_world 33 serial) dumps s_qargs s = (Inr (0, sm), s') \<and>
    dockers (p_trace s') \<noteq> dockers (p_trace s)"
proof -
  let ?w = "s_world 33 serial"
  let ?run = "run_dir ?w (q_evidence_parent s_qargs)"
  have md: "make_dir ?w p t = (Inr (), t\<lparr>p_trace := p_trace t @ [MakeDir p]\<rparr>)" for p and t :: "unit qualify_report_ext pst"
    by (simp add: make_dir_def run_defs)
  have "require_timeout (VInt 90) = Inr 90" by (simp add: require_timeout_def require_range_def)
  from s_launch [where chk = require_timeout and code = 33 and serial = serial and run = ?run and
      s = "s\<lparr>p_trace := p_trace s @ [MakeDir (q_evidence_parent s_qargs), MakeDir ?run],
      p_report := initial_report ?w ?run\<rparr>", OF this]
  obtain binding u where u: "qualify_try ?w s_qargs ?run (s\<lparr>p_trace := p_trace s @ [MakeDir (q_evidence_parent s_qargs), MakeDir ?run],
      p_report := initial_report ?w ?run\<rparr>) = (Inr (), u)"
    "p_report u = s_after_boot 33 serial ((initial_report ?w ?run)\<lparr>k_inputs := Some s_artifacts, k_imginfo := Some ([], []),
       k_esp_binding := Some binding\<rparr>)" "dockers (p_trace u) \<noteq> dockers (p_trace s)"
    by (auto simp: qualify_try_def dockers_def)
  have "k_errors (p_report u) = []" "k_status (p_report u) = Verdict_fail"
    using assms by (simp_all add: u(2) s_after_boot_def initial_report_def)
  then show ?thesis
    by (simp add: qualify_def s_output Let_def andthen_def bnd_def md upd_def u(1,3) decide_def write_evidence_def
        write_text_def perform_def refused_def asking_def exit_code_def dockers_def [of "[WriteText _ _]"])
qed

theorem qualify_exit_code_witness:
  "\<exists>sm s'. qualify (s_world 33 (as_text positive_lines)) (\<lambda>_. []) s_qargs s_start = (Inr (0, sm), s') \<and>
     s_status sm = Verdict_pass \<and> s_errors sm = []"
proof -
  obtain sm s' where q: "qualify (s_world 33 (as_text positive_lines)) (\<lambda>_. []) s_qargs s_start = (Inr (0, sm), s')"
    using s_qualify [OF positive_sample_base] by blast
  from qualify_exit_code [OF q] have "s_status sm = Verdict_pass" "s_errors sm = []" by blast+
  with q show ?thesis by blast
qed


theorem qualify_launch_gate_witness:
  "\<exists>cs s'. bound_launch (s_world 33 (as_text positive_lines)) s_qargs
     (run_dir (s_world 33 (as_text positive_lines)) (py ''/e'')) (p_report (s' :: unit qualify_report_ext pst)) cs"
proof -
  obtain sm s' where q: "qualify (s_world 33 (as_text positive_lines)) (\<lambda>_. []) s_qargs s_start = (Inr (0, sm), s')"
    "dockers (p_trace s') \<noteq> dockers (p_trace s_start)"
    using s_qualify [OF positive_sample_base] by blast
  from qualify_launch_gate [OF q] show ?thesis by (auto simp: s_output s_qargs_def)
qed

end
