(* ===== verification/QualifyVM_Sample.thy ===== *)
theory QualifyVM_Sample
  imports Qualify_Sample
begin

text \<open>
  The VM qualifier and the probe on the sample world: a positive run that passes, and a skip-switch run
  whose expected negative outcome is observed.
\<close>

section \<open>The probe\<close>

definition s_report :: qualify_report where
  "s_report = (initial_report (s_world 33 []) [])\<lparr>k_inputs := Some s_artifacts\<rparr>"

definition s_probe :: "unit qualify_report_ext pst" where
  "s_probe = s_start\<lparr>p_report := s_report\<rparr>"

lemma s_probe_inputs: "given (k_inputs (p_report s_probe)) ESP_NAME = Some (1, py ''digest'')"
  by (simp add: s_probe_def s_report_def given_def s_artifacts)

theorem run_boot_clean_evidence_witness:
  "\<exists>s'. boot_evidence (s_world 33 (as_text positive_lines)) s_args (p_trace s') (p_report (s' :: unit qualify_report_ext pst)) \<and>
     k_esp_unchanged (p_report s') = Some True"
proof -
  obtain s' where run: "run_boot (s_world 33 (as_text positive_lines)) s_args s_probe = (Inr (), s')"
    "p_report s' = s_after_boot 33 (as_text positive_lines) (p_report s_probe)"
    using s_run_boot [OF s_probe_inputs] by blast
  have "k_errors (p_report s') = k_errors (p_report s_probe)"
    by (simp add: run(2) s_after_boot_def positive_sample_base)
  from run_boot_clean_evidence [OF run(1) this, of 1 "py ''digest''"] s_probe_inputs show ?thesis
    by (auto simp: s_names_distinct simp del: list.map)
qed

text \<open>A host without docker: the run is unavailable.\<close>

definition no_docker :: world where
  "no_docker = (s_world 33 [])\<lparr>w_docker := \<lambda>tr cmd env n. Inl (FileNotFoundError [])\<rparr>"

theorem run_boot_errors_witness:
  "\<exists>s' m. run_boot no_docker s_args s_probe = (Inl (Unavailable m), s') \<and>
     described (Unavailable m) \<in> set (k_errors (p_report s'))"
proof -
  obtain r s' where run: "run_boot no_docker s_args s_probe = (r, s')" by fastforce
  have body: "boot_body no_docker s_args s = (Inl (Unavailable (py ''Docker CLI unavailable'')),
      s\<lparr>p_trace := p_trace s @ [Docker (image_cmd PINNED_IMAGE_REF)]\<rparr>)" for s :: "unit qualify_report_ext pst"
    by (simp add: boot_body_def run_defs require_tcg_def require_timeout_def require_range_def resolve_pinned_image_def
        no_docker_def image_exc_def)
  from run have "\<exists>m. r = Inl (Unavailable m)"
  proof (rule run_boot_phases)
    fix i t u :: "unit qualify_report_ext pst" and q q' c
    assume phases: "boot_body no_docker s_args i = (q, t)" "handled q t q' u" "boot_cleanup no_docker s_args u = (c, s')"
      "r = (case c of Inl e \<Rightarrow> Inl e | Inr _ \<Rightarrow> q')" "after_body no_docker s_args s_probe u"
    then have "c = Inr ()" using boot_cleanup_step [OF phases(3)] by (auto simp: after_body_def exists_raises_def no_docker_def)
    with phases show ?thesis by (auto simp: body handled_def)
  qed
  moreover have "w_exists no_docker tr p \<noteq> Inl e" for tr p e by (simp add: no_docker_def)
  ultimately show ?thesis using run_boot_errors [OF run] run by auto
qed

section \<open>VM runs\<close>

definition s_vm_start :: "unit vm_evidence_ext qualify_report_ext pst" where
  "s_vm_start = \<lparr>p_trace = [], p_report = vm_initial_report POSITIVE [], p_cid = None, p_create_attempted = False\<rparr>"


definition s_vm_run :: "pystr \<Rightarrow> pystr" where
  "s_vm_run serial = vm_run_dir (s_world 33 serial) (py ''/e'')"

definition s_vm_booted :: "int \<Rightarrow> pystr \<Rightarrow> pystr \<Rightarrow> esp_report \<Rightarrow> vm_evidence" where
  "s_vm_booted code serial mode binding = s_after_boot code serial
     ((vm_initial_report mode (vm_run_dir (s_world code serial) (py ''/e'')))
        \<lparr>k_inputs := Some s_artifacts, k_imginfo := Some ([], []), k_esp_binding := Some binding\<rparr>)"

lemma s_vm_apply:
  assumes "parse_vm_serial (\<lambda>s. s) serial mode = Inr parsed"
  shows "apply_vm_transcript (s_world code serial) output mode s =
    (andthen (upd (store_transcript parsed))
      (andthen (judge_negative serial mode parsed)
        (upd (\<lambda>r. r\<lparr>k_vm_qualified := (mode = POSITIVE \<and> vm_errors parsed = [] \<and> vm_complete parsed \<and>
                 k_errors r = [])\<rparr>)))) s"
proof -
  have r: "w_repr (s_world code serial) = (\<lambda>s. s)" by (simp add: s_world_def)
  show ?thesis
    unfolding apply_vm_transcript_def Let_def r
    by (simp add: bnd_def exists_path_def read_text_def look_def lift_def assms s_names_distinct del: list.map)
qed

lemma s_vm_qualify:
  assumes "vm_evidence_step (s_world code serial) mode (vm_run_dir (s_world code serial) (py ''/e'')) = step"
    "\<And>binding u. p_report u = s_vm_booted code serial mode binding \<Longrightarrow> r_status binding = Pass \<Longrightarrow>
       \<exists>v. step u = (Inr (), v) \<and> dockers (p_trace v) = dockers (p_trace u) \<and> P (p_report v)"
  shows "\<exists>sm s' r. qualify_vm (s_world code serial) dumps s_qargs mode s_vm_start = (Inr (exit_code (k_status (vm_decided mode r)), sm), s') \<and>
    P r \<and> p_report s' = vm_decided mode r \<and> sm = vm_summarise (s_world code serial) mode (vm_run_dir (s_world code serial) (py ''/e'')) (p_report s') \<and>
    dockers (p_trace s') \<noteq> []"
proof -
  let ?w = "s_world code serial"
  let ?run = "vm_run_dir ?w (py ''/e'')"
  let ?t = "\<lparr>p_trace = [MakeDir (py ''/e''), MakeDir ?run], p_report = vm_initial_report mode ?run,
      p_cid = None, p_create_attempted = False\<rparr>"
  have md: "make_dir ?w p t = (Inr (), t\<lparr>p_trace := p_trace t @ [MakeDir p]\<rparr>)" for p and t :: "unit vm_evidence_ext qualify_report_ext pst"
    by (simp add: make_dir_def run_defs)
  have "require_vm_timeout (VInt 90) = Inr 90" by (simp add: require_vm_timeout_def require_range_def)
  from s_launch [where chk = require_vm_timeout and code = code and serial = serial and run = ?run and s = ?t, OF this]
  obtain binding u where u: "vm_try ?w s_qargs ?run ?t = (Inr (), u)" "r_status binding = Pass"
    "p_report u = s_vm_booted code serial mode binding" "dockers (p_trace u) \<noteq> []"
    by (auto simp: vm_try_def s_vm_booted_def dockers_def)
  from assms(2) [OF u(3,2)] obtain v where v: "step u = (Inr (), v)" "dockers (p_trace v) = dockers (p_trace u)" "P (p_report v)" by blast
  have ev: "q_evidence_parent s_qargs = py ''/e''" by (simp add: s_qargs_def)
  have flags: "vm_decided mode r\<lparr>k_linux_replacement_qualified := False, k_cpl3_execution_qualified := False,
      k_user_supervisor_isolation_qualified := False\<rparr> = vm_decided mode r" for r :: vm_evidence
    by (simp add: vm_decided_def Let_def)
  obtain s' where s': "qualify_vm ?w dumps s_qargs mode s_vm_start =
      (Inr (exit_code (k_status (vm_decided mode (p_report v))), vm_summarise ?w mode ?run (p_report s')), s')"
    "p_report s' = vm_decided mode (p_report v)" "dockers (p_trace s') = dockers (p_trace v)"
    using u(1) v(1)
    by (simp add: qualify_vm_def ev s_output Let_def andthen_def bnd_def md upd_def s_vm_start_def assms(1) flags
        vm_write_evidence_def write_text_def perform_def refused_def asking_def dockers_def del: list.map)
  show ?thesis
    using s' v(2,3) u(4) by (intro exI [of _ "vm_summarise ?w mode ?run (p_report s')"] exI [of _ s'] exI [of _ "p_report v"]) auto
qed

lemma s_vm_booted_fields:
  "k_inputs (s_vm_booted code serial mode binding) = Some s_artifacts" "k_attach_attempted (s_vm_booted code serial mode binding)"
  "k_errors (s_vm_booted code serial mode binding) = (if code = 33 then [] else [EXIT33]) @ transcript_errors (parse_serial serial)"
  "k_status (s_vm_booted code serial mode binding) = Verdict_fail" "k_launched (s_vm_booted code serial mode binding)"
  by (simp_all add: s_vm_booted_def s_after_boot_def vm_initial_report_def)

lemma s_vm_step:
  assumes "p_report u = s_vm_booted code serial mode binding" "parse_vm_serial (\<lambda>s. s) serial mode = Inr parsed"
  shows "vm_evidence_step (s_world code serial) mode run u =
    catch (andthen (upd (store_transcript parsed))
      (andthen (judge_negative serial mode parsed)
        (upd (\<lambda>r. r\<lparr>k_vm_qualified := (mode = POSITIVE \<and> vm_errors parsed = [] \<and> vm_complete parsed \<and>
                 k_errors r = [])\<rparr>))))
      (\<lambda>e. andthen (log_error (py ''VM transcript failed: '' @ described e)) (ret ())) u"
  using assms
  by (simp add: vm_evidence_step_def bnd_def asking_def ret_def s_vm_booted_fields catch_def s_vm_apply)

lemma s_vm_positive:
  "\<exists>sm s'. qualify_vm (s_world 33 (as_text positive_lines)) dumps s_qargs POSITIVE s_vm_start = (Inr (0, sm), s') \<and>
     dockers (p_trace s') \<noteq> []"
proof -
  let ?s = "as_text positive_lines"
  obtain parsed where p: "parse_vm_serial (\<lambda>s. s) ?s POSITIVE = Inr parsed" "vm_errors parsed = []"
    using positive_sample_accepted by blast
  then have c: "vm_complete parsed" using positive_accepted by blast
  let ?P = "\<lambda>r :: vm_evidence. k_status r = Verdict_fail \<and> k_errors r = [] \<and> k_vm_qualified r"
  have step: "\<exists>v. vm_evidence_step (s_world 33 ?s) POSITIVE (vm_run_dir (s_world 33 ?s) (py ''/e'')) u = (Inr (), v) \<and>
      dockers (p_trace v) = dockers (p_trace u) \<and> ?P (p_report v)"
    if u: "p_report u = s_vm_booted 33 ?s POSITIVE binding" and "r_status binding = Pass" for binding and u :: "unit vm_evidence_ext qualify_report_ext pst"
    unfolding s_vm_step [OF u p(1)]
    by (simp add: catch_def andthen_def bnd_def judge_negative_def upd_def u s_vm_booted_fields positive_sample_base p(2) c)
  have "\<exists>sm s' r. qualify_vm (s_world 33 ?s) dumps s_qargs POSITIVE s_vm_start =
      (Inr (exit_code (k_status (vm_decided POSITIVE r)), sm), s') \<and> ?P r \<and> p_report s' = vm_decided POSITIVE r \<and>
      sm = vm_summarise (s_world 33 ?s) POSITIVE (vm_run_dir (s_world 33 ?s) (py ''/e'')) (p_report s') \<and>
      dockers (p_trace s') \<noteq> []"
    by (rule s_vm_qualify [OF refl]) (rule step)
  then obtain sm s' and r :: vm_evidence where q: "qualify_vm (s_world 33 ?s) dumps s_qargs POSITIVE s_vm_start =
      (Inr (exit_code (k_status (vm_decided POSITIVE r)), sm), s')" "?P r" "dockers (p_trace s') \<noteq> []" by blast
  from q(2) have "exit_code (k_status (vm_decided POSITIVE r)) = 0" by (simp add: vm_decided_def Let_def exit_code_def)
  with q(1,3) show ?thesis by auto
qed

theorem qualify_vm_verdict_witness:
  "\<exists>sm s'. qualify_vm (s_world 33 (as_text positive_lines)) (\<lambda>_. []) s_qargs POSITIVE s_vm_start = (Inr (0, sm), s') \<and>
     s_vm_qualified sm \<and> s_errors sm = []"
proof -
  obtain sm s' where q: "qualify_vm (s_world 33 (as_text positive_lines)) (\<lambda>_. []) s_qargs POSITIVE s_vm_start = (Inr (0, sm), s')"
    using s_vm_positive by blast
  from qualify_vm_verdict [OF q] have "s_vm_qualified sm" "s_errors sm = []"
    by blast+
  with q show ?thesis by blast
qed

theorem qualify_vm_pass_evidence_witness:
  "\<exists>s' tr. pass_evidence (s_world 33 (as_text positive_lines)) s_qargs
     (vm_run_dir (s_world 33 (as_text positive_lines)) (py ''/e'')) tr (p_report (s' :: unit vm_evidence_ext qualify_report_ext pst))"
proof -
  obtain sm s' where q: "qualify_vm (s_world 33 (as_text positive_lines)) (\<lambda>_. []) s_qargs POSITIVE s_vm_start = (Inr (0, sm), s')"
    using s_vm_positive by blast
  from qualify_vm_pass_evidence [OF q] show ?thesis by (auto simp: s_output s_qargs_def)
qed

theorem qualify_vm_launch_gate_witness:
  "\<exists>cs s'. bound_launch (s_world 33 (as_text positive_lines)) s_qargs
     (vm_run_dir (s_world 33 (as_text positive_lines)) (py ''/e'')) (p_report (s' :: unit vm_evidence_ext qualify_report_ext pst)) cs"
proof -
  obtain sm s' where q: "qualify_vm (s_world 33 (as_text positive_lines)) (\<lambda>_. []) s_qargs POSITIVE s_vm_start = (Inr (0, sm), s')"
    "dockers (p_trace s') \<noteq> []"
    using s_vm_positive by blast
  have "dockers (p_trace s') \<noteq> dockers (p_trace s_vm_start)" using q(2) by (simp add: s_vm_start_def)
  from qualify_vm_launch_gate [OF q(1) this] show ?thesis by (auto simp: s_output s_qargs_def)
qed

section \<open>A skip-switch run\<close>

lemma contains_append: "contains n t \<Longrightarrow> contains n (s @ t)"
  by (induction s) (cases t; auto)+

lemma starts_with_line:
  "LF \<notin> set n \<Longrightarrow> starts_with (l @ LF # t) n \<longleftrightarrow> starts_with l n"
proof (induction n arbitrary: l)
  case (Cons c n)
  then show ?case by (cases l) (auto simp: starts_with_simps)
qed (simp add: starts_with_def)

lemma contains_line:
  assumes "LF \<notin> set n" "n \<noteq> []"
  shows "contains n (l @ LF # t) \<longleftrightarrow> contains n l \<or> contains n t"
proof (induction l)
  case Nil
  have "\<not> starts_with (LF # t) n" using assms by (cases n) (auto simp: starts_with_simps)
  with assms show ?case by simp
next
  case (Cons c l)
  have "starts_with (c # l @ LF # t) n = starts_with (c # l) n"
    using starts_with_line [OF assms(1), of "c # l" t] by simp
  with Cons show ?case by simp
qed

lemma contains_text:
  assumes "LF \<notin> set n" "n \<noteq> []"
  shows "contains n (as_text ls) \<longleftrightarrow> list_ex (contains n) ls"
  by (induction ls) (simp_all add: as_text_def contains_line [OF assms] assms)

lemma contains_eval [rx_eval]: "contains n (c # s) = (starts_with (c # s) n \<or> contains n s)" "contains (d # n) [] = False"
  by simp_all

lemma skip_switch_text:
  "contains (py ''ZKN: exit code=17'') (as_text skip_switch_lines)"
  "\<not> contains (py ''ZKN: vm-complete'') (as_text skip_switch_lines)"
  "\<not> contains (py ''ZKN: done'') (as_text skip_switch_lines)"
proof -
  show "contains (py ''ZKN: exit code=17'') (as_text skip_switch_lines)"
    by (subst contains_text) (simp_all add: skip_switch_lines_def EXIT_VM_def starts_with_def)
  have "list_all (\<lambda>l. \<not> contains (py ''ZKN: vm-complete'') l) skip_switch_lines"
    by (simp add: lines_defs l_start_def l_fixture_def l_stage_def sha1_def t_defs l_skip_fail_def EXIT_VM_def MARKERS_def rx_eval
        del: contains.simps)
  then show "\<not> contains (py ''ZKN: vm-complete'') (as_text skip_switch_lines)"
    by (subst contains_text) (simp_all add: list_ex_iff list_all_iff del: contains.simps)
  have "list_all (\<lambda>l. \<not> contains (py ''ZKN: done'') l) skip_switch_lines"
    by (simp add: lines_defs l_start_def l_fixture_def l_stage_def sha1_def t_defs l_skip_fail_def EXIT_VM_def MARKERS_def rx_eval
        del: contains.simps)
  then show "\<not> contains (py ''ZKN: done'') (as_text skip_switch_lines)"
    by (subst contains_text) (simp_all add: list_ex_iff list_all_iff del: contains.simps)
qed

definition skip_prefix :: "pystr list" where
  "skip_prefix = n6_lines @ [l_start ''skip-switch''] @ construct_lines CHR ''1'' sha1 @
     [l_stage CHR ''1'' ''switch'' t_skipped, l_skip_fail]"

lemma ev_run_stages: "k \<le> 18 \<Longrightarrow> ev_run (0, 0) (map Stage [0..<k]) = Some (k, 0)"
proof (induction k)
  case (Suc k)
  then show ?case by (simp add: ev_run_append advance_def)
qed simp

lemma skip_prefix_parsed:
  "t_errors (parse_lines skip_prefix) = []" "t_cursor (parse_lines skip_prefix) = 16" "t_exits (parse_lines skip_prefix) = []"
proof -
  have "map Stage [0..<16] = map Stage [0,1,2,3,4,5,6,7,8,9,10,11,12,13,14,15]"
    by (simp add: upt_rec)
  then have "List.map_filter classify skip_prefix = map Stage [0..<16]"
    by (simp add: skip_prefix_def lines_defs classify_sample)
  then have "ev_run (0, 0) (List.map_filter classify skip_prefix) = Some (16, 0)"
    using ev_run_stages [of 16] by simp
  then show "t_errors (parse_lines skip_prefix) = []" "t_cursor (parse_lines skip_prefix) = 16"
    "t_exits (parse_lines skip_prefix) = []"
    by (auto simp: parse_lines_run split: if_splits)
qed

lemma skip_switch_base:
  "\<exists>n line. transcript_errors (parse_serial (as_text skip_switch_lines)) =
     [at_line ''Contradictory or malformed native exit'' n line, py ''Native exit precedes completion at line '' @ show_nat n,
      py ''Required native stages missing or out of order'']"
proof -
  have sp: "splitlines (as_text skip_switch_lines) = skip_prefix @ [EXIT_VM]"
    unfolding splits_sample by (simp add: skip_switch_lines_def skip_prefix_def)
  have ex: "re_match FAILURE EXIT_VM = None" "starts_with EXIT_VM EXIT_PREFIX" "EXIT_VM \<noteq> EXIT_OK"
    by (simp_all add: rx_eval EXIT_OK_def EXIT_VM_def EXIT_PREFIX_def)
  have idx: "stage_index MARKERS EXIT_VM = None" by (rule exit_no_stage [OF ex(2)])
  let ?st = "parse_step (parse_lines skip_prefix) (Suc (length skip_prefix), EXIT_VM)"
  have "t_errors ?st = [at_line ''Contradictory or malformed native exit'' (Suc (length skip_prefix)) EXIT_VM,
      py ''Native exit precedes completion at line '' @ show_nat (Suc (length skip_prefix))]"
    by (simp add: parse_step_def note_failure_def note_exit_def note_stage_def ex idx skip_prefix_parsed Let_def)
  moreover have "t_cursor ?st = 16" "length (t_exits ?st) = 1"
    by (simp_all add: parse_step_simps idx skip_prefix_parsed ex)
  moreover have "parse_serial (as_text skip_switch_lines) = parse_serial (as_text skip_switch_lines)" by simp
  ultimately show ?thesis
    by (intro exI [of _ "Suc (length skip_prefix)"] exI [of _ EXIT_VM])
       (simp add: parse_serial_def Let_def parse_lines_def [symmetric] sp del: list.map)
qed

lemma starts_with_at_line: "starts_with (at_line what n line) (py what)"
  by (simp add: at_line_def)

lemma skip_switch_errors_allowed:
  "\<forall>err\<in>set ([EXIT33] @ transcript_errors (parse_serial (as_text skip_switch_lines))). allowed_negative_error err"
proof -
  obtain n line where e: "transcript_errors (parse_serial (as_text skip_switch_lines)) =
     [at_line ''Contradictory or malformed native exit'' n line, py ''Native exit precedes completion at line '' @ show_nat n,
      py ''Required native stages missing or out of order'']"
    using skip_switch_base by blast
  have "allowed_negative_error EXIT33" by (simp add: allowed_negative_error_def)
  moreover have "allowed_negative_error (at_line ''Contradictory or malformed native exit'' n line)"
    using starts_with_at_line [of "''Contradictory or malformed native exit''" n line] by (simp only: allowed_negative_error_def simp_thms)
  moreover have "starts_with (py ''Native exit precedes completion at line '' @ show_nat n) (py ''Native exit precedes completion'')"
    by (simp add: starts_with_def)
  then have "allowed_negative_error (py ''Native exit precedes completion at line '' @ show_nat n)"
    by (simp only: allowed_negative_error_def simp_thms)
  moreover have "allowed_negative_error (py ''Required native stages missing or out of order'')"
    by (simp only: allowed_negative_error_def simp_thms)
  ultimately show ?thesis unfolding e by simp
qed

lemma skip_switch_parsed:
  "\<exists>parsed. parse_vm_serial (\<lambda>s. s) (as_text skip_switch_lines) SKIP_SWITCH = Inr parsed \<and> vm_errors parsed = [] \<and>
     negative_transcript_ok (as_text skip_switch_lines) SKIP_SWITCH parsed"
proof -
  obtain parsed where p: "parse_vm_serial (\<lambda>s. s) (as_text skip_switch_lines) SKIP_SWITCH = Inr parsed" "vm_errors parsed = []"
    using skip_switch_accepted by blast
  have "vm_fail parsed = Some (1, py ''switch'', py ''cr3-readback'')" "\<not> vm_complete parsed"
    using p(1) by (auto simp: parse_vm_serial_def splits_sample skip_switch_scanned Let_def MODES_def exc_simps
        skip_switch_scan_def split: if_splits)
  with p skip_switch_text show ?thesis
    by (intro exI [of _ parsed]) (simp add: negative_transcript_ok_def del: contains.simps)
qed

lemma s_vm_transport:
  assumes "r_status binding = Pass"
    "\<forall>err\<in>set ([EXIT33] @ transcript_errors (parse_serial serial)). allowed_negative_error err"
    "vm_errors parsed = []"
  shows "expected_negative_transport_ok (store_transcript parsed (s_vm_booted 47 serial mode binding)) = Inr True"
proof -
  have cid: "owned_container_id_ok (Some s_cid)"
    by (simp add: owned_container_id_ok_def s_cid_def hexdigits_def)
  have "s_hashes OVMF_CODE = Some PINNED_OVMF_CODE_SHA256" "s_hashes RUN_VARS = Some PINNED_OVMF_VARS_SHA256"
    unfolding s_hashes_def by (rule s_firmware_hashes)+
  with assms cid show ?thesis
    by (simp add: expected_negative_transport_ok_def container_exit_def exc_simps GUEST_FAIL_EXIT_def after_exit_ok_def
        store_transcript_def Let_def s_vm_booted_def s_after_boot_def vm_initial_report_def kernel_digest_ok_def given_def
        s_artifacts del: list.map)
qed

lemma s_vm_skip_switch:
  "\<exists>sm s'. qualify_vm (s_world 47 (as_text skip_switch_lines)) dumps s_qargs SKIP_SWITCH s_vm_start = (Inr (1, sm), s') \<and>
     s_expected_negative_observed sm"
proof -
  let ?s = "as_text skip_switch_lines"
  obtain parsed where p: "parse_vm_serial (\<lambda>s. s) ?s SKIP_SWITCH = Inr parsed" "vm_errors parsed = []"
    "negative_transcript_ok ?s SKIP_SWITCH parsed"
    using skip_switch_parsed by blast
  let ?P = "\<lambda>r :: vm_evidence. k_status r = Verdict_fail \<and> k_expected_negative_observed r"
  have neg: "SKIP_SWITCH \<noteq> POSITIVE" by (simp add: MODES_def)
  have step: "\<exists>v. vm_evidence_step (s_world 47 ?s) SKIP_SWITCH (vm_run_dir (s_world 47 ?s) (py ''/e'')) u = (Inr (), v) \<and>
      dockers (p_trace v) = dockers (p_trace u) \<and> ?P (p_report v)"
    if u: "p_report u = s_vm_booted 47 ?s SKIP_SWITCH binding" and b: "r_status binding = Pass"
    for binding and u :: "unit vm_evidence_ext qualify_report_ext pst"
  proof -
    have ok: "expected_negative_transport_ok (store_transcript parsed (p_report u)) = Inr True"
      unfolding u by (rule s_vm_transport [OF b skip_switch_errors_allowed p(2)])
    have st: "k_status (p_report u) = Verdict_fail" by (simp add: u s_vm_booted_fields)
    show ?thesis
      unfolding s_vm_step [OF u p(1)]
      by (simp add: catch_def andthen_def bnd_def judge_negative_def upd_def neg p(3) asking_def lift_def ok ret_def st
          del: One_nat_def)
  qed
  have "\<exists>sm s' r. qualify_vm (s_world 47 ?s) dumps s_qargs SKIP_SWITCH s_vm_start =
      (Inr (exit_code (k_status (vm_decided SKIP_SWITCH r)), sm), s') \<and> ?P r \<and> p_report s' = vm_decided SKIP_SWITCH r \<and>
      sm = vm_summarise (s_world 47 ?s) SKIP_SWITCH (vm_run_dir (s_world 47 ?s) (py ''/e'')) (p_report s') \<and>
      dockers (p_trace s') \<noteq> []"
    by (rule s_vm_qualify [OF refl]) (rule step)
  then obtain sm s' and r :: vm_evidence where q: "qualify_vm (s_world 47 ?s) dumps s_qargs SKIP_SWITCH s_vm_start =
      (Inr (exit_code (k_status (vm_decided SKIP_SWITCH r)), sm), s')" "?P r" "p_report s' = vm_decided SKIP_SWITCH r"
    "sm = vm_summarise (s_world 47 ?s) SKIP_SWITCH (vm_run_dir (s_world 47 ?s) (py ''/e'')) (p_report s')" by blast
  from q(2) have "exit_code (k_status (vm_decided SKIP_SWITCH r)) = 1" "k_expected_negative_observed (vm_decided SKIP_SWITCH r)"
    by (simp_all add: vm_decided_def Let_def exit_code_def neg del: One_nat_def)
  with q(1,3,4) show ?thesis by (simp add: vm_summarise_def)
qed

theorem qualify_vm_negative_evidence_witness:
  "\<exists>sm s'. qualify_vm (s_world 47 (as_text skip_switch_lines)) (\<lambda>_. []) s_qargs SKIP_SWITCH s_vm_start = (Inr (1, sm), s') \<and>
     (\<exists>serial parsed. negative_evidence SKIP_SWITCH serial parsed (p_report s')) \<and>
     k_container_state (p_report s') = Some (StateDict (Some 47))"
proof -
  obtain sm s' where q: "qualify_vm (s_world 47 (as_text skip_switch_lines)) (\<lambda>_. []) s_qargs SKIP_SWITCH s_vm_start = (Inr (1, sm), s')"
    "s_expected_negative_observed sm"
    using s_vm_skip_switch by blast
  from qualify_vm_negative_evidence [OF q] obtain serial parsed where n: "negative_evidence SKIP_SWITCH serial parsed (p_report s')"
    by blast
  then have "k_container_state (p_report s') = Some (StateDict (Some 47))" by (simp add: negative_evidence_def)
  with q(1) n show ?thesis by blast
qed

end
