(* ===== verification/SchemaJson.thy ===== *)
theory SchemaJson
  imports Complex_Main PyText
begin

text \<open>
  The values of \<open>scripts/sandbox-schema-validate.py\<close>: what \<open>json.loads\<close> and \<open>yaml.safe_load\<close> return for
  the documents of the lane, with Python's equality, attribute and index errors on them, the exceptions of
  the script, and the UTF-8 encoding of a \<open>str\<close>. Not represented are non-finite floats, YAML dates and
  dictionary keys that are not strings.
\<close>

section \<open>Values\<close>

text \<open>A dictionary is the list of its items in insertion order. A finite float is its rational value.\<close>

datatype json =
    JNull
  | JBool bool
  | JInt int
  | JFloat rat
  | JStr pystr
  | JList "json list"
  | JDict "(pystr \<times> json) list"

fun number_of :: "json \<Rightarrow> rat option" where
  "number_of (JBool b) = Some (if b then 1 else 0)"
| "number_of (JInt n) = Some (of_int n)"
| "number_of (JFloat q) = Some q"
| "number_of _ = None"

text \<open>Python's \<open>==\<close>: numbers by value whatever their type, dictionaries without regard to order.\<close>

fun py_eq :: "json \<Rightarrow> json \<Rightarrow> bool" where
  "py_eq JNull y = (y = JNull)"
| "py_eq (JStr s) y = (y = JStr s)"
| "py_eq (JList xs) y = (case y of JList ys \<Rightarrow> list_all2 py_eq xs ys | _ \<Rightarrow> False)"
| "py_eq (JDict xs) y =
    (case y of
       JDict ys \<Rightarrow> length xs = length ys \<and>
         list_all (\<lambda>(k, v). case map_of ys k of None \<Rightarrow> False | Some v' \<Rightarrow> py_eq v v') xs
     | _ \<Rightarrow> False)"
| "py_eq x y = (number_of x = number_of y)"

fun is_dict :: "json \<Rightarrow> bool" where
  "is_dict (JDict d) = True"
| "is_dict _ = False"

section \<open>Exceptions\<close>

text \<open>The calls of \<open>fail\<close>, one constructor for each message; the interpolated values are left out.\<close>

datatype failure =
    MissingDependency | WrongPin pystr
  | SchemaCheckFailed
  | RepeatMixed | RepeatNotObject | RepeatUnknownKeys | RepeatUnitOrCount | RepeatSuffix
  | NoFileOrValue
  | BadExpectSchema | BadExpectSemantic | MissingExpect
  | MissingPattern pystr | NoTrueEnd pystr | DollarEnd pystr
  | SecurityNotMutualTLS | MissingMutualTLS | LocalOsIdentityScheme | ApiKeyScheme pystr | IdentityHeader pystr
  | LocalIdentityNamed | MissingTransport pystr | NotPublic pystr pystr | AnonymousSandboxes
  | BoundsMismatch pystr pystr
  | RequestIdNotOpaque | CwdNullable | NullableProp pystr | NullableFlag pystr
  | CwdPattern | StdinPattern | ArgvPattern
  | NoSemanticValidator
  | NotInfrastructure pystr | InfraSucceeded pystr | DecoderConverted | DecoderSucceeded
  | StandaloneInfra | OpenapiInfra | SemanticInfra

text \<open>
  \<open>LaneFail\<close> is the \<open>SystemExit(1)\<close> of \<open>fail\<close>, which no \<open>except Exception\<close> catches. \<open>PyErr\<close> is any other
  exception, by the name of its class.
\<close>

datatype lane_exc =
    SemanticErr pystr
  | EncodeErr
  | BinasciiErr
  | PyErr pystr
  | LaneFail failure

definition ATTRIBUTE_ERROR :: lane_exc where "ATTRIBUTE_ERROR = PyErr (py ''AttributeError'')"
definition KEY_ERROR :: lane_exc where "KEY_ERROR = PyErr (py ''KeyError'')"
definition TYPE_ERROR :: lane_exc where "TYPE_ERROR = PyErr (py ''TypeError'')"
definition RECURSION_ERROR :: lane_exc where "RECURSION_ERROR = PyErr (py ''RecursionError'')"
definition RUNTIME_ERROR :: lane_exc where "RUNTIME_ERROR = PyErr (py ''RuntimeError'')"

text \<open>\<open>x.get(key)\<close>, \<open>x.get(key, {})\<close>, \<open>x[key]\<close>, \<open>x.items()\<close>, \<open>key in x\<close> and \<open>for y in x\<close>.\<close>

definition jget_or :: "json \<Rightarrow> json \<Rightarrow> pystr \<Rightarrow> lane_exc + json" where
  "jget_or dflt x key =
    (case x of
       JDict d \<Rightarrow> Inr (case map_of d key of Some v \<Rightarrow> v | None \<Rightarrow> dflt)
     | _ \<Rightarrow> Inl ATTRIBUTE_ERROR)"

abbreviation jget :: "json \<Rightarrow> pystr \<Rightarrow> lane_exc + json" where "jget \<equiv> jget_or JNull"

definition jitem :: "json \<Rightarrow> pystr \<Rightarrow> lane_exc + json" where
  "jitem x key =
    (case x of
       JDict d \<Rightarrow> (case map_of d key of Some v \<Rightarrow> Inr v | None \<Rightarrow> Inl KEY_ERROR)
     | _ \<Rightarrow> Inl TYPE_ERROR)"

definition jitems :: "json \<Rightarrow> lane_exc + (pystr \<times> json) list" where
  "jitems x = (case x of JDict d \<Rightarrow> Inr d | _ \<Rightarrow> Inl ATTRIBUTE_ERROR)"

definition jin :: "pystr \<Rightarrow> json \<Rightarrow> lane_exc + bool" where
  "jin key x =
    (case x of
       JDict d \<Rightarrow> Inr (key \<in> fst ` set d)
     | JList xs \<Rightarrow> Inr (JStr key \<in> set xs)
     | JStr s \<Rightarrow> Inr (contains key s)
     | _ \<Rightarrow> Inl TYPE_ERROR)"

definition jiter :: "json \<Rightarrow> lane_exc + json list" where
  "jiter x =
    (case x of
       JList xs \<Rightarrow> Inr xs
     | JDict d \<Rightarrow> Inr (map (\<lambda>(k, v). JStr k) d)
     | JStr s \<Rightarrow> Inr (map (\<lambda>c. JStr [c]) s)
     | _ \<Rightarrow> Inl TYPE_ERROR)"

lemma json_access [exc_simps]:
  "jget_or d x k = Inr v \<longleftrightarrow> (\<exists>d'. x = JDict d' \<and> v = (case map_of d' k of Some v \<Rightarrow> v | None \<Rightarrow> d))"
  "jitem x k = Inr v \<longleftrightarrow> (\<exists>d'. x = JDict d' \<and> map_of d' k = Some v)"
  "jitems x = Inr d' \<longleftrightarrow> x = JDict d'"
  by (auto simp: jget_or_def jitem_def jitems_def split: json.splits option.splits)

section \<open>Loops\<close>

text \<open>A \<open>for\<close> loop whose body only checks.\<close>

fun eall :: "('a \<Rightarrow> 'e + unit) \<Rightarrow> 'a list \<Rightarrow> 'e + unit" where
  "eall f [] = Inr ()"
| "eall f (x # xs) = ebind (f x) (\<lambda>_. eall f xs)"

lemma eall_Inr [exc_simps]: "eall f xs = Inr u \<longleftrightarrow> (\<forall>x\<in>set xs. f x = Inr ())"
  by (induction xs) (auto simp: exc_simps)

lemma raises_only_eall [raises]: "(\<And>x. x \<in> set xs \<Longrightarrow> raises_only P (f x)) \<Longrightarrow> raises_only P (eall f xs)"
  by (induction xs) (auto intro!: raises)

lemma raises_only_emap [raises]: "(\<And>x. x \<in> set xs \<Longrightarrow> raises_only P (f x)) \<Longrightarrow> raises_only P (emap f xs)"
  by (induction xs) (auto intro!: raises)

lemma emap_cong [fundef_cong]:
  "xs = ys \<Longrightarrow> (\<And>x. x \<in> set ys \<Longrightarrow> f x = g x) \<Longrightarrow> emap f xs = emap g ys"
  by (induction xs arbitrary: ys) auto

lemma size_value [termination_simp]:
  "(k, v) \<in> set d \<Longrightarrow> size v < Suc (size_list (\<lambda>x. Suc (size (snd x))) d)"
  by (induction d) auto

lemma size_element [termination_simp]: "x \<in> set xs \<Longrightarrow> size x < Suc (size_list size xs)"
  by (induction xs) auto

section \<open>UTF-8\<close>

definition is_surrogate :: "pychar \<Rightarrow> bool" where
  "is_surrogate c \<longleftrightarrow> 0xD800 \<le> code_of c \<and> code_of c \<le> 0xDFFF"

definition utf8_char :: "pychar \<Rightarrow> nat list" where
  "utf8_char c =
    (let n = code_of c in
     if n < 0x80 then [n]
     else if n < 0x800 then [0xC0 + n div 64, 0x80 + n mod 64]
     else if n < 0x10000 then [0xE0 + n div 4096, 0x80 + n div 64 mod 64, 0x80 + n mod 64]
     else [0xF0 + n div 262144, 0x80 + n div 4096 mod 64, 0x80 + n div 64 mod 64, 0x80 + n mod 64])"

definition utf8_of :: "pystr \<Rightarrow> nat list" where "utf8_of s = concat (map utf8_char s)"

text \<open>\<open>s.encode("utf-8")\<close>: a lone surrogate raises \<open>UnicodeEncodeError\<close>.\<close>

definition utf8_encode :: "pystr \<Rightarrow> lane_exc + nat list" where
  "utf8_encode s = ensure (\<not> list_ex is_surrogate s) EncodeErr (Inr (utf8_of s))"

lemma utf8_char_ascii: "code_of c < 128 \<Longrightarrow> utf8_char c = [code_of c]"
  by (simp add: utf8_char_def)

lemma utf8_char_wide: "\<not> code_of c < 128 \<Longrightarrow> b \<in> set (utf8_char c) \<Longrightarrow> 128 \<le> b"
  by (auto simp: utf8_char_def Let_def split: if_splits)

lemma utf8_char_ne [simp]: "utf8_char c \<noteq> []"
  by (simp add: utf8_char_def Let_def)

lemma utf8_of_simps [simp]: "utf8_of [] = []" "utf8_of (c # s) = utf8_char c @ utf8_of s" "utf8_of s = [] \<longleftrightarrow> s = []"
  by (simp_all add: utf8_of_def)

lemma surrogate_wide: "is_surrogate c \<Longrightarrow> \<not> code_of c < 128"
  by (simp add: is_surrogate_def)

text \<open>ASCII bytes stand for themselves.\<close>

lemma ascii_byte_in:
  assumes "code_of a < 128"
  shows "code_of a \<in> set (utf8_of s) \<longleftrightarrow> a \<in> set s"
proof (induction s)
  case (Cons c s)
  have "code_of a \<in> set (utf8_char c) \<longleftrightarrow> a = c"
  proof
    assume c: "code_of a \<in> set (utf8_char c)"
    then have "code_of c < 128" using assms utf8_char_wide [of c "code_of a"] by linarith
    with c show "a = c" using code_of_inj by (auto simp: utf8_char_ascii)
  qed (use assms in \<open>simp add: utf8_char_ascii\<close>)
  with Cons show ?case by simp
qed simp

lemma list_all_bytes:
  assumes "\<And>b. P b \<Longrightarrow> b < 128"
  shows "list_all P (utf8_of s) \<longleftrightarrow> list_all (\<lambda>c. P (code_of c)) s"
proof (induction s)
  case (Cons c s)
  show ?case
  proof (cases "code_of c < 128")
    case False
    then have "\<exists>b. b \<in> set (utf8_char c) \<and> 128 \<le> b"
      using utf8_char_wide [OF False] by (metis last_in_set utf8_char_ne)
    then obtain b where "b \<in> set (utf8_char c)" "\<not> P b" using assms by (metis not_less)
    then have "\<not> list_all P (utf8_char c)" by (auto simp: list_all_iff)
    moreover have "\<not> P (code_of c)" using False assms by blast
    ultimately show ?thesis by simp
  qed (use Cons in \<open>simp add: utf8_char_ascii\<close>)
qed simp

lemma utf8_of_ascii: "list_all (\<lambda>c. code_of c < 128) s \<Longrightarrow> utf8_of s = map code_of s"
  by (induction s) (auto simp: utf8_char_ascii)

lemma ascii_no_surrogate: "list_all (\<lambda>c. code_of c < 128) s \<Longrightarrow> \<not> list_ex is_surrogate s"
  using surrogate_wide by (fastforce simp: list_all_iff list_ex_iff)

lemma utf8_of_eq_ascii:
  assumes "list_all (\<lambda>c. code_of c < 128) q"
  shows "utf8_of p = map code_of q \<longleftrightarrow> p = q"
proof
  assume e: "utf8_of p = map code_of q"
  have "list_all (\<lambda>b. b < 128) (utf8_of p)" using assms by (simp add: e list_all_iff)
  then have "list_all (\<lambda>c. code_of c < 128) p" by (subst (asm) list_all_bytes) auto
  then have "map code_of p = map code_of q" using e by (simp add: utf8_of_ascii)
  then show "p = q" by (rule map_injective) (auto intro: injI code_of_inj)
qed (use assms in \<open>simp add: utf8_of_ascii\<close>)

text \<open>Splitting at an ASCII separator commutes with the encoding.\<close>

lemma split_prefix: "c \<notin> set p \<Longrightarrow> split_on c (p @ xs) = (case split_on c xs of [] \<Rightarrow> [p] | q # qs \<Rightarrow> (p @ q) # qs)"
  by (induction p) (auto split: list.splits)

lemma split_bytes:
  assumes "code_of sep < 128"
  shows "split_on (code_of sep) (utf8_of s) = map utf8_of (split_on sep s)"
proof (induction s)
  case (Cons c s)
  show ?case
  proof (cases "c = sep")
    case False
    then have "code_of sep \<notin> set (utf8_char c)"
      using assms ascii_byte_in [of sep "[c]"] by auto
    from split_prefix [OF this] Cons False show ?thesis by (auto split: list.splits)
  qed (use Cons assms in \<open>simp add: utf8_char_ascii\<close>)
qed simp

end
