(* ===== verification/SchemaSemantic.thy ===== *)
theory SchemaSemantic
  imports SchemaJson
begin

text \<open>
  The semantic stage of \<open>scripts/sandbox-schema-validate.py\<close>: the predicates on identifiers, digests,
  guest paths, environment names and base64 text, and the validators of the request kinds. The decoder
  \<open>base64.b64decode\<close>, which the script replaces to test itself, is an argument; \<open>b64decode\<close> is the strict
  decoder of the standard library.
\<close>

definition MAX_STRING_BYTES :: nat where "MAX_STRING_BYTES = 4096"
definition MAX_PATH_BYTES :: nat where "MAX_PATH_BYTES = 4096"
definition MAX_ID_BYTES :: nat where "MAX_ID_BYTES = 128"
definition MAX_ARGV :: nat where "MAX_ARGV = 64"
definition MAX_ENV :: nat where "MAX_ENV = 64"
definition U64_MAX :: nat where "U64_MAX = 18446744073709551615"

definition utf8_bytes :: "pystr \<Rightarrow> lane_exc + nat" where
  "utf8_bytes s = ebind (utf8_encode s) (\<lambda>raw. Inr (length raw))"

section \<open>Decimal numbers\<close>

definition DECIMAL :: lane_exc where "DECIMAL = SemanticErr (py ''decimal'')"

definition decimal_step :: "nat \<Rightarrow> pychar \<Rightarrow> lane_exc + nat" where
  "decimal_step value ch =
    ensure (\<not> (ch < Ch CHR ''0'' \<or> ch > Ch CHR ''9'')) DECIMAL
    (let value' = value * 10 + (code_of ch - 48) in
     ensure (\<not> value' > U64_MAX) (SemanticErr (py ''decimal overflow'')) (Inr value'))"

definition parse_decimal_u64 :: "json \<Rightarrow> lane_exc + nat" where
  "parse_decimal_u64 v =
    (case v of
       JStr s \<Rightarrow>
         ensure (s \<noteq> [] \<and> length s \<le> 20) DECIMAL
         (if hd s = Ch CHR ''0'' then ensure (length s = 1) DECIMAL (Inr 0)
          else efold decimal_step 0 s)
     | _ \<Rightarrow> Inl DECIMAL)"

section \<open>Identifiers\<close>

definition opaque_byte :: "nat \<Rightarrow> bool" where
  "opaque_byte c \<longleftrightarrow>
     65 \<le> c \<and> c \<le> 90 \<or> 97 \<le> c \<and> c \<le> 122 \<or> 48 \<le> c \<and> c \<le> 57 \<or> c \<in> {46, 95, 45, 58}"

fun opaque_loop :: "bool \<Rightarrow> nat list \<Rightarrow> bool" where
  "opaque_loop all_digits [] = (\<not> all_digits)"
| "opaque_loop all_digits (c # cs) =
     (if \<not> opaque_byte c then False
      else opaque_loop (if c < 48 \<or> c > 57 then False else all_digits) cs)"

definition is_opaque_id :: "json \<Rightarrow> lane_exc + bool" where
  "is_opaque_id v =
    (case v of
       JStr s \<Rightarrow> ebind (utf8_encode s) (\<lambda>raw.
         Inr (if raw = [] \<or> length raw > MAX_ID_BYTES then False else opaque_loop True raw))
     | _ \<Rightarrow> Inr False)"

definition is_image_digest :: "json \<Rightarrow> bool" where
  "is_image_digest v =
    (case v of
       JStr s \<Rightarrow>
         (let prefix = py ''sha256:''; hexpart = drop (length prefix) s in
          if \<not> starts_with s prefix then False
          else if length hexpart \<noteq> 64 then False
          else list_all (\<lambda>c. 48 \<le> code_of c \<and> code_of c \<le> 57 \<or> 97 \<le> code_of c \<and> code_of c \<le> 102) hexpart)
     | _ \<Rightarrow> False)"

text \<open>\<open>raw.index(0x2F, start)\<close>.\<close>

definition slash_from :: "nat list \<Rightarrow> nat \<Rightarrow> nat option" where
  "slash_from raw start =
    (if 0x2F \<in> set (drop start raw)
     then Some (start + length (takeWhile (\<lambda>b. b \<noteq> 0x2F) (drop start raw))) else None)"

lemma slash_from_bounds: "slash_from raw start = Some i \<Longrightarrow> start \<le> i \<and> i < length raw"
proof -
  assume a: "slash_from raw start = Some i"
  let ?t = "takeWhile (\<lambda>b. b \<noteq> 0x2F) (drop start raw)"
  have "?t \<noteq> drop start raw" using a by (auto simp: slash_from_def takeWhile_eq_all_conv split: if_splits)
  then have "length ?t < length (drop start raw)"
    by (metis length_takeWhile_le le_neq_implies_less takeWhile_eq_take take_all_iff le_refl)
  with a show ?thesis by (auto simp: slash_from_def split: if_splits)
qed

function path_loop :: "nat list \<Rightarrow> nat \<Rightarrow> bool" where
  "path_loop raw start =
    (if \<not> start \<le> length raw then True
     else
       (let slash = (case slash_from raw start of Some i \<Rightarrow> i | None \<Rightarrow> length raw);
            seg = pyslice raw start slash in
        if seg = [] \<and> slash \<noteq> length raw then False
        else if seg \<in> {[46], [46, 46]} then False
        else if slash = length raw then True
        else path_loop raw (slash + 1)))"
  by pat_completeness auto
termination
  by (relation "measure (\<lambda>(raw, start). Suc (length raw) - start)")
     (auto split: option.splits dest!: slash_from_bounds)

declare path_loop.simps [simp del]

definition is_guest_path :: "json \<Rightarrow> lane_exc + bool" where
  "is_guest_path v =
    (case v of
       JStr s \<Rightarrow> ebind (utf8_encode s) (\<lambda>raw. Inr (
         if raw = [] \<or> length raw > MAX_PATH_BYTES then False
         else if hd raw \<noteq> 0x2F then False
         else if 0 \<in> set raw \<or> 0x5C \<in> set raw then False
         else if 2 \<le> length raw \<and> raw ! 1 = 0x2F then False
         else path_loop raw 1))
     | _ \<Rightarrow> Inr False)"

definition env_start :: "nat \<Rightarrow> bool" where
  "env_start c \<longleftrightarrow> 65 \<le> c \<and> c \<le> 90 \<or> 97 \<le> c \<and> c \<le> 122 \<or> c = 95"

definition is_env_name :: "json \<Rightarrow> lane_exc + bool" where
  "is_env_name v =
    (case v of
       JStr s \<Rightarrow>
         if s = [] then Inr False
         else ebind (utf8_encode s) (\<lambda>raw. Inr (
           env_start (hd raw) \<and> list_all (\<lambda>c. env_start c \<or> 48 \<le> c \<and> c \<le> 57) (tl raw)))
     | _ \<Rightarrow> Inr False)"

section \<open>Base64\<close>

definition base64_char :: "pychar \<Rightarrow> bool" where
  "base64_char c \<longleftrightarrow>
     Ch CHR ''A'' \<le> c \<and> c \<le> Ch CHR ''Z'' \<or> Ch CHR ''a'' \<le> c \<and> c \<le> Ch CHR ''z'' \<or>
     Ch CHR ''0'' \<le> c \<and> c \<le> Ch CHR ''9'' \<or> c \<in> set (py ''+/'')"

abbreviation PAD :: pychar where "PAD \<equiv> Ch CHR ''=''"

fun base64_loop :: "nat \<Rightarrow> pystr \<Rightarrow> bool" where
  "base64_loop pad [] = True"
| "base64_loop pad (c # cs) =
     (if c = PAD then (if pad + 1 > 2 then False else base64_loop (pad + 1) cs)
      else if pad \<noteq> 0 then False
      else if \<not> base64_char c then False
      else base64_loop pad cs)"

definition is_standard_base64 :: "json \<Rightarrow> bool" where
  "is_standard_base64 v =
    (case v of
       JStr s \<Rightarrow> if s = [] then True else if length s mod 4 \<noteq> 0 then False else base64_loop 0 s
     | _ \<Rightarrow> False)"

text \<open>
  \<open>base64.b64decode(s, validate=True)\<close> decodes with \<open>binascii.a2b_base64(s, strict_mode=True)\<close>: six bits a
  character, \<open>quad\<close> the position in the group of four, \<open>left\<close> the bits carried over. A padding that
  completes a group ends the data.
\<close>

definition sextet :: "pychar \<Rightarrow> nat option" where
  "sextet c =
    (let n = code_of c in
     if 65 \<le> n \<and> n \<le> 90 then Some (n - 65)
     else if 97 \<le> n \<and> n \<le> 122 then Some (n - 71)
     else if 48 \<le> n \<and> n \<le> 57 then Some (n + 4)
     else if n = 43 then Some 62
     else if n = 47 then Some 63
     else None)"

fun a2b_loop :: "nat \<Rightarrow> nat \<Rightarrow> nat \<Rightarrow> pystr \<Rightarrow> lane_exc + bytes" where
  "a2b_loop quad left pads [] = ensure (quad = 0) BinasciiErr (Inr [])"
| "a2b_loop quad left pads (c # cs) =
     (if c = PAD then
        ensure (quad \<noteq> 0) BinasciiErr
        (if 2 \<le> quad \<and> 4 \<le> quad + (pads + 1) then ensure (cs = []) BinasciiErr (Inr [])
         else a2b_loop quad left (pads + 1) cs)
      else
        (case sextet c of
           None \<Rightarrow> Inl BinasciiErr
         | Some v \<Rightarrow>
             ensure (pads = 0) BinasciiErr
             (if quad = 0 then a2b_loop 1 v 0 cs
              else if quad = 1 then
                ebind (a2b_loop 2 (v mod 16) 0 cs) (\<lambda>bs. Inr (of_nat (left * 4 + v div 16) # bs))
              else if quad = 2 then
                ebind (a2b_loop 3 (v mod 4) 0 cs) (\<lambda>bs. Inr (of_nat (left * 16 + v div 4) # bs))
              else
                ebind (a2b_loop 0 0 0 cs) (\<lambda>bs. Inr (of_nat (left * 64 + v) # bs)))))"

definition b64decode :: "pystr \<Rightarrow> lane_exc + bytes" where
  "b64decode s = ensure (list_all is_ascii s) (PyErr (py ''ValueError'')) (a2b_loop 0 0 0 s)"

type_synonym decoder = "pystr \<Rightarrow> lane_exc + bytes"

definition decoded_stdin_len :: "decoder \<Rightarrow> json \<Rightarrow> lane_exc + nat" where
  "decoded_stdin_len decode64 v =
    ensure (is_standard_base64 v) (SemanticErr (py ''invalid base64''))
    (case v of
       JStr s \<Rightarrow>
         if s = [] then Inr 0
         else
           (case decode64 s of
              Inl e \<Rightarrow> Inl (if e = BinasciiErr then SemanticErr (py ''base64 decode'') else e)
            | Inr raw \<Rightarrow>
                ensure (\<not> length raw > MAX_STRING_BYTES) (SemanticErr (py ''decoded stdin too large''))
                (Inr (length raw)))
     | _ \<Rightarrow> Inl (SemanticErr (py ''invalid base64'')))"

section \<open>The validators\<close>

text \<open>\<open>if not c: raise SemanticError(what)\<close> for a condition that can raise itself.\<close>

definition demand :: "lane_exc + bool \<Rightarrow> string \<Rightarrow> lane_exc + unit" where
  "demand c what = ebind c (\<lambda>b. ensure b (SemanticErr (py what)) (Inr ()))"

abbreviation NUL :: pychar where "NUL \<equiv> Ch CHR 0x00"

definition semantic_decimal :: "json \<Rightarrow> lane_exc + unit" where
  "semantic_decimal v = ebind (parse_decimal_u64 v) (\<lambda>_. Inr ())"

definition semantic_generation :: "json \<Rightarrow> lane_exc + unit" where
  "semantic_generation v =
    ebind (parse_decimal_u64 v) (\<lambda>n. ensure (\<not> n < 1) (SemanticErr (py ''generation'')) (Inr ()))"

definition semantic_opaque :: "json \<Rightarrow> lane_exc + unit" where
  "semantic_opaque v = demand (is_opaque_id v) ''opaque-id''"

definition check_arg :: "json \<Rightarrow> lane_exc + unit" where
  "check_arg arg =
    (case arg of
       JStr s \<Rightarrow>
         ensure (s \<noteq> [] \<and> NUL \<notin> set s) (SemanticErr (py ''argv item''))
         (ebind (utf8_bytes s) (\<lambda>n. ensure (\<not> n > MAX_STRING_BYTES) (SemanticErr (py ''argv utf-8 bytes'')) (Inr ())))
     | _ \<Rightarrow> Inl (SemanticErr (py ''argv item'')))"

definition check_argv :: "json \<Rightarrow> lane_exc + unit" where
  "check_argv argv =
    (case argv of
       JList args \<Rightarrow>
         ensure (args \<noteq> [] \<and> length args \<le> MAX_ARGV) (SemanticErr (py ''argv'')) (eall check_arg args)
     | _ \<Rightarrow> Inl (SemanticErr (py ''argv'')))"

text \<open>\<open>cwd\<close> is a string where its bytes are counted.\<close>

definition check_cwd :: "json \<Rightarrow> lane_exc + unit" where
  "check_cwd cwd =
    ebind (demand (is_guest_path cwd) ''cwd'') (\<lambda>_.
    case cwd of
      JStr s \<Rightarrow> ebind (utf8_bytes s) (\<lambda>n. ensure (\<not> n > MAX_PATH_BYTES) (SemanticErr (py ''cwd utf-8 bytes'')) (Inr ()))
    | _ \<Rightarrow> Inl ATTRIBUTE_ERROR)"

definition check_env_item :: "pystr \<times> json \<Rightarrow> lane_exc + unit" where
  "check_env_item = (\<lambda>(key, value).
    ebind (demand (is_env_name (JStr key)) ''env name'') (\<lambda>_.
    case value of
      JStr s \<Rightarrow>
        ensure (NUL \<notin> set s) (SemanticErr (py ''env value''))
        (ebind (utf8_bytes key) (\<lambda>k.
         if k > MAX_STRING_BYTES then Inl (SemanticErr (py ''env utf-8 bytes''))
         else ebind (utf8_bytes s) (\<lambda>n.
           ensure (\<not> n > MAX_STRING_BYTES) (SemanticErr (py ''env utf-8 bytes'')) (Inr ()))))
    | _ \<Rightarrow> Inl (SemanticErr (py ''env value''))))"

definition check_env :: "json \<Rightarrow> lane_exc + unit" where
  "check_env env =
    (case env of
       JDict items \<Rightarrow>
         ensure (\<not> length items > MAX_ENV) (SemanticErr (py ''env size'')) (eall check_env_item items)
     | _ \<Rightarrow> Inl (SemanticErr (py ''env'')))"

text \<open>\<open>if key in instance: check(instance[key])\<close> and \<open>instance.get(key)\<close>.\<close>

definition when_given :: "(pystr \<times> json) list \<Rightarrow> string \<Rightarrow> (json \<Rightarrow> lane_exc + unit) \<Rightarrow> lane_exc + unit" where
  "when_given d key check = (case map_of d (py key) of None \<Rightarrow> Inr () | Some v \<Rightarrow> check v)"

definition field :: "(pystr \<times> json) list \<Rightarrow> string \<Rightarrow> json" where
  "field d key = (case map_of d (py key) of None \<Rightarrow> JNull | Some v \<Rightarrow> v)"

definition semantic_execution_create :: "decoder \<Rightarrow> json \<Rightarrow> lane_exc + unit" where
  "semantic_execution_create decode64 v =
    (case v of
       JDict d \<Rightarrow>
         ebind (semantic_generation (field d ''generation'')) (\<lambda>_.
         ebind (check_argv (field d ''argv'')) (\<lambda>_.
         ebind (when_given d ''cwd'' check_cwd) (\<lambda>_.
         ebind (when_given d ''timeout_ms'' semantic_decimal) (\<lambda>_.
         ebind (when_given d ''env'' check_env) (\<lambda>_.
         when_given d ''stdin_base64'' (\<lambda>b. ebind (decoded_stdin_len decode64 b) (\<lambda>_. Inr ())))))))
     | _ \<Rightarrow> Inl (SemanticErr (py ''object'')))"

definition check_limits :: "json \<Rightarrow> lane_exc + unit" where
  "check_limits limits =
    (case limits of
       JNull \<Rightarrow> Inr ()
     | JDict items \<Rightarrow> eall (\<lambda>(_, value). if value \<noteq> JNull then semantic_decimal value else Inr ()) items
     | _ \<Rightarrow> Inl (SemanticErr (py ''limits'')))"

definition check_rootfs :: "json \<Rightarrow> lane_exc + unit" where
  "check_rootfs rootfs =
    (case rootfs of
       JDict d \<Rightarrow>
         (let vol = field d ''volume'' in
          if vol \<noteq> JNull then demand (is_opaque_id vol) ''rootfs.volume'' else Inr ())
     | _ \<Rightarrow> Inr ())"

definition semantic_sandbox_create :: "json \<Rightarrow> lane_exc + unit" where
  "semantic_sandbox_create v =
    (case v of
       JDict d \<Rightarrow>
         (case field d ''image'' of
            JDict pinned \<Rightarrow>
              ebind (demand (is_opaque_id (field pinned ''id'')) ''image.id'') (\<lambda>_.
              ebind (demand (Inr (is_image_digest (field pinned ''digest''))) ''image.digest'') (\<lambda>_.
              ebind (check_limits (field d ''limits'')) (\<lambda>_.
              when_given d ''rootfs'' check_rootfs)))
          | _ \<Rightarrow> Inl (SemanticErr (py ''image'')))
     | _ \<Rightarrow> Inl (SemanticErr (py ''object'')))"

definition check_message :: "json \<Rightarrow> lane_exc + unit" where
  "check_message message =
    (case message of
       JStr s \<Rightarrow>
         ensure (s \<noteq> []) (SemanticErr (py ''message''))
         (ebind (utf8_bytes s) (\<lambda>n. ensure (\<not> n > MAX_STRING_BYTES) (SemanticErr (py ''message'')) (Inr ())))
     | _ \<Rightarrow> Inl (SemanticErr (py ''message'')))"

definition semantic_error_canonical :: "json \<Rightarrow> lane_exc + unit" where
  "semantic_error_canonical v =
    (case v of
       JDict d \<Rightarrow>
         ebind (demand (is_opaque_id (field d ''request_id'')) ''request_id'') (\<lambda>_.
         check_message (field d ''message''))
     | _ \<Rightarrow> Inl (SemanticErr (py ''object'')))"

definition semantic_passthrough :: "json \<Rightarrow> lane_exc + unit" where
  "semantic_passthrough v = Inr ()"

definition SEMANTIC_VALIDATORS :: "decoder \<Rightarrow> (pystr \<times> (json \<Rightarrow> lane_exc + unit)) list" where
  "SEMANTIC_VALIDATORS decode64 = [
     (py ''decimal-u64'', semantic_decimal),
     (py ''generation'', semantic_generation),
     (py ''opaque-id'', semantic_opaque),
     (py ''execution-create'', semantic_execution_create decode64),
     (py ''sandbox-create'', semantic_sandbox_create),
     (py ''error-canonical'', semantic_error_canonical),
     (py ''error-diagnostic'', semantic_passthrough),
     (py ''capabilities-diagnostic'', semantic_passthrough)]"

definition semantic_is_valid :: "decoder \<Rightarrow> pystr \<Rightarrow> json \<Rightarrow> lane_exc + bool" where
  "semantic_is_valid decode64 schema_key v =
    (case map_of (SEMANTIC_VALIDATORS decode64) schema_key of
       None \<Rightarrow> Inl (LaneFail NoSemanticValidator)
     | Some validator \<Rightarrow>
         (case validator v of
            Inr _ \<Rightarrow> Inr True
          | Inl (SemanticErr m) \<Rightarrow> Inr False
          | Inl e \<Rightarrow> Inl e))"

text \<open>The self-test: a decoder that raises \<open>RuntimeError\<close> must not look like an invalid instance.\<close>

definition boom :: decoder where "boom s = Inl RUNTIME_ERROR"

definition assert_decoder_infrastructure_fault :: "lane_exc + unit" where
  "assert_decoder_infrastructure_fault =
    (case decoded_stdin_len boom (JStr (py ''Zg=='')) of
       Inr _ \<Rightarrow> Inl (LaneFail DecoderSucceeded)
     | Inl (SemanticErr m) \<Rightarrow> Inl (LaneFail DecoderConverted)
     | Inl e \<Rightarrow> if e = RUNTIME_ERROR then Inr () else Inl e)"

end
