(* ===== verification/SchemaLane.thy ===== *)
theory SchemaLane
  imports SchemaSemantic Host
begin

text \<open>
  The lane of \<open>scripts/sandbox-schema-validate.py\<close>: the pins, the static checks of the schemas and of the
  OpenAPI document, the resolution of its references, the corpus encoding, and the verdict over the corpus.
  The packages \<open>jsonschema\<close> and \<open>yaml\<close>, the files, and \<open>base64.b64decode\<close> are the fields of \<open>lane\<close>.
\<close>

section \<open>The outside\<close>

text \<open>
  What \<open>validate\<close> or \<open>check_schema\<close> of \<open>jsonschema\<close> does: it returns, it raises \<open>ValidationError\<close>, or it
  raises \<open>SchemaError\<close> or another \<open>Exception\<close>, given by the name of its class.
\<close>

datatype validation = Accepted | ValidationError | InfraError pystr

text \<open>
  A store maps file names and schema identifiers to schemas. The field \<open>l_schema_files\<close> lists the names that
  \<open>schema_dir.glob\<close> yields in the order in which \<open>sorted\<close> puts them, each with what loading it gives.
\<close>

type_synonym store = "(json \<times> json) list"

record lane =
  l_versions :: "(pystr \<times> pystr) option"
  l_schema_files :: "(pystr \<times> (lane_exc + json)) list"
  l_check_schema :: "json \<Rightarrow> validation"
  l_validate :: "json \<Rightarrow> store \<Rightarrow> json \<Rightarrow> validation"
  l_openapi_text :: "lane_exc + pystr"
  l_safe_load :: "pystr \<Rightarrow> lane_exc + json"
  l_corpus :: "lane_exc + json"
  l_fixture :: "json \<Rightarrow> lane_exc + json"
  l_decode64 :: decoder
  l_lower :: "pystr \<Rightarrow> pystr"
  l_recursion :: nat

section \<open>Pins and store\<close>

definition REQUIRED_JSONSCHEMA :: pystr where "REQUIRED_JSONSCHEMA = py ''4.17.3''"
definition REQUIRED_YAML :: pystr where "REQUIRED_YAML = py ''6.0.2''"

definition fail :: "failure \<Rightarrow> lane_exc + 'a" where "fail f = Inl (LaneFail f)"

definition check_pins :: "lane \<Rightarrow> lane_exc + unit" where
  "check_pins l =
    (case l_versions l of
       None \<Rightarrow> fail MissingDependency
     | Some (jsonschema, yaml) \<Rightarrow>
         if jsonschema \<noteq> REQUIRED_JSONSCHEMA then fail (WrongPin (py ''jsonschema''))
         else if yaml \<noteq> REQUIRED_YAML then fail (WrongPin (py ''yaml''))
         else Inr ())"

text \<open>\<open>store[key] = data\<close>: an equal key keeps its place, and a list or dictionary is no key.\<close>

fun store_set :: "json \<Rightarrow> json \<Rightarrow> store \<Rightarrow> store" where
  "store_set key data [] = [(key, data)]"
| "store_set key data ((k, d) # st) = (if py_eq k key then (k, data) # st else (k, d) # store_set key data st)"

definition truthy :: "json \<Rightarrow> bool" where
  "truthy x = (case x of
     JNull \<Rightarrow> False | JBool b \<Rightarrow> b | JInt n \<Rightarrow> n \<noteq> 0 | JFloat q \<Rightarrow> q \<noteq> 0 | JStr s \<Rightarrow> s \<noteq> [] | JList xs \<Rightarrow> xs \<noteq> [] | JDict d \<Rightarrow> d \<noteq> [])"

definition hashable :: "json \<Rightarrow> bool" where
  "hashable x = (case x of JList xs \<Rightarrow> False | JDict d \<Rightarrow> False | _ \<Rightarrow> True)"

definition add_schema :: "store \<Rightarrow> pystr \<times> (lane_exc + json) \<Rightarrow> lane_exc + store" where
  "add_schema st = (\<lambda>(name, loaded).
    ebind loaded (\<lambda>data.
    let st = store_set (JStr name) data st in
    ebind (jget data (py ''$id'')) (\<lambda>ident.
    if truthy ident then ensure (hashable ident) TYPE_ERROR (Inr (store_set ident data st)) else Inr st)))"

definition load_store :: "lane \<Rightarrow> lane_exc + store" where
  "load_store l = efold add_schema [] (l_schema_files l)"

definition store_item :: "store \<Rightarrow> string \<Rightarrow> lane_exc + json" where
  "store_item st key = (case map_of st (JStr (py key)) of Some v \<Rightarrow> Inr v | None \<Rightarrow> Inl KEY_ERROR)"

section \<open>Schema validation\<close>

definition check_schema :: "lane \<Rightarrow> json \<Rightarrow> lane_exc + unit" where
  "check_schema l schema = (if l_check_schema l schema = Accepted then Inr () else fail SchemaCheckFailed)"

definition instance_is_valid :: "lane \<Rightarrow> json \<Rightarrow> store \<Rightarrow> json \<Rightarrow> lane_exc + bool" where
  "instance_is_valid l schema st v =
    (case l_validate l schema st v of
       Accepted \<Rightarrow> Inr True
     | ValidationError \<Rightarrow> Inr False
     | InfraError name \<Rightarrow> Inl (PyErr name))"

text \<open>
  \<open>try: m except Exception: fail(f)\<close>. Formatting the message reads \<open>case["id"]\<close>, so a case without an
  identifier raises \<open>KeyError\<close> instead.
\<close>

definition fail_case :: "(pystr \<times> json) list \<Rightarrow> failure \<Rightarrow> lane_exc + 'a" where
  "fail_case d f = (case map_of d (py ''id'') of None \<Rightarrow> Inl KEY_ERROR | Some _ \<Rightarrow> fail f)"

definition guarded :: "(pystr \<times> json) list \<Rightarrow> failure \<Rightarrow> lane_exc + 'a \<Rightarrow> lane_exc + 'a" where
  "guarded d f m = (case m of Inr x \<Rightarrow> Inr x | Inl (LaneFail g) \<Rightarrow> fail g | Inl e \<Rightarrow> fail_case d f)"

section \<open>The corpus encoding\<close>

definition REPEAT :: pystr where "REPEAT = py ''$repeat''"

definition expand_spec :: "json \<Rightarrow> lane_exc + json" where
  "expand_spec spec =
    (case spec of
       JDict d \<Rightarrow>
         if \<not> fst ` set d \<subseteq> {py ''unit'', py ''count'', py ''suffix''} then fail RepeatUnknownKeys
         else
           (case (field d ''unit'', field d ''count'') of
              (JStr unit, JInt count) \<Rightarrow>
                if count < 0 then fail RepeatUnitOrCount
                else
                  (case (case map_of d (py ''suffix'') of None \<Rightarrow> JStr [] | Some x \<Rightarrow> x) of
                     JStr suffix \<Rightarrow> Inr (JStr (concat (replicate (nat count) unit) @ suffix))
                   | _ \<Rightarrow> fail RepeatSuffix)
            | _ \<Rightarrow> fail RepeatUnitOrCount)
     | _ \<Rightarrow> fail RepeatNotObject)"

fun expand_repeats :: "json \<Rightarrow> lane_exc + json" where
  "expand_repeats (JDict d) =
    (case map_of d REPEAT of
       Some spec \<Rightarrow> if \<not> fst ` set d \<subseteq> {REPEAT} then fail RepeatMixed else expand_spec spec
     | None \<Rightarrow> ebind (emap (\<lambda>(k, v). ebind (expand_repeats v) (\<lambda>v'. Inr (k, v'))) d) (\<lambda>d'. Inr (JDict d')))"
| "expand_repeats (JList xs) = ebind (emap expand_repeats xs) (\<lambda>ys. Inr (JList ys))"
| "expand_repeats v = Inr v"

definition load_case_value :: "lane \<Rightarrow> (pystr \<times> json) list \<Rightarrow> lane_exc + json" where
  "load_case_value l c =
    (case map_of c (py ''file'') of
       Some name \<Rightarrow> ebind (l_fixture l name) expand_repeats
     | None \<Rightarrow>
         (case map_of c (py ''value'') of
            Some v \<Rightarrow> expand_repeats v
          | None \<Rightarrow> fail NoFileOrValue))"

definition ACCEPT :: json where "ACCEPT = JStr (py ''accept'')"
definition REJECT :: json where "REJECT = JStr (py ''reject'')"
definition NOT_APPLICABLE :: json where "NOT_APPLICABLE = JStr (py ''not_applicable'')"

definition explicit_stages :: "(pystr \<times> json) list \<Rightarrow> lane_exc + (json \<times> json) option" where
  "explicit_stages c =
    (if py ''expect_schema'' \<notin> fst ` set c \<and> py ''expect_semantic'' \<notin> fst ` set c then Inr None
     else
       (let schema_exp = field c ''expect_schema''; semantic_exp = field c ''expect_semantic'' in
        if schema_exp \<notin> {ACCEPT, REJECT} then fail BadExpectSchema
        else if semantic_exp \<notin> {ACCEPT, REJECT, NOT_APPLICABLE} then fail BadExpectSemantic
        else Inr (Some (schema_exp, semantic_exp))))"

section \<open>Checks of the documents\<close>

definition TRUE_END :: pystr where
  "TRUE_END = py ''(?!['' @ [Ch CHR 0x5C] @ py ''s'' @ [Ch CHR 0x5C] @ py ''S])''"

definition assert_true_end_pattern :: "json \<Rightarrow> string \<Rightarrow> lane_exc + unit" where
  "assert_true_end_pattern schema name =
    ebind (jget schema (py ''pattern'')) (\<lambda>pat.
    case pat of
      JStr s \<Rightarrow>
        ensure (contains TRUE_END s) (LaneFail (NoTrueEnd (py name)))
        (ensure (\<not> (s \<noteq> [] \<and> last s = Ch CHR ''$'')) (LaneFail (DollarEnd (py name))) (Inr ()))
    | _ \<Rightarrow> fail (MissingPattern (py name)))"

definition TRANSPORT_KEYS :: "pystr list" where
  "TRANSPORT_KEYS = [
     py ''x-local-ipc-identity'', py ''x-local-ipc-peer-pid'', py ''x-local-ipc-peer-uid'',
     py ''x-local-ipc-peer-gid'', py ''x-local-ipc-peer-sid'', py ''x-local-ipc-audit-token'']"

definition PUBLIC_PATHS :: "pystr list" where
  "PUBLIC_PATHS = [py ''/healthz'', py ''/readyz'', py ''/v1/capabilities'']"

text \<open>\<open>spec.get(key, {})\<close>.\<close>

abbreviation jget_dict :: "json \<Rightarrow> string \<Rightarrow> lane_exc + json" where
  "jget_dict x key \<equiv> jget_or (JDict []) x (py key)"

definition check_scheme :: "lane \<Rightarrow> pystr \<times> json \<Rightarrow> lane_exc + unit" where
  "check_scheme l = (\<lambda>(name, scheme).
    ebind (jget scheme (py ''type'')) (\<lambda>ty.
    ensure (ty \<noteq> JStr (py ''apiKey'')) (LaneFail (ApiKeyScheme name))
    (ebind (jget scheme (py ''in'')) (\<lambda>place.
     ensure (\<not> (place = JStr (py ''header'') \<and> contains (py ''identity'') (str_lower (l_lower l) name)))
       (LaneFail (IdentityHeader name)) (Inr ())))))"

definition check_public :: "pystr \<Rightarrow> pystr \<times> json \<Rightarrow> lane_exc + unit" where
  "check_public path = (\<lambda>(verb, operation).
    if verb \<in> {py ''get'', py ''head''} then
      ebind (jget operation (py ''security'')) (\<lambda>sec.
      ensure (py_eq sec (JList [])) (LaneFail (NotPublic verb path)) (Inr ()))
    else Inr ())"

definition check_diagnostics :: "json \<Rightarrow> pystr \<Rightarrow> lane_exc + unit" where
  "check_diagnostics spec path =
    ebind (jget_dict spec ''paths'') (\<lambda>paths.
    ebind (jget_or (JDict []) paths path) (\<lambda>ops.
    ebind (jitems ops) (\<lambda>items.
    eall (check_public path) items)))"

definition check_anonymous :: "json \<Rightarrow> lane_exc + unit" where
  "check_anonymous spec =
    ebind (jget_dict spec ''paths'') (\<lambda>paths.
    ebind (jget_dict paths ''/v1/sandboxes'') (\<lambda>sandboxes.
    ebind (jget_dict sandboxes ''post'') (\<lambda>post.
    ebind (jin (py ''security'') post) (\<lambda>given.
    if given then
      ebind (jitem post (py ''security'')) (\<lambda>sec.
      ensure (\<not> py_eq sec (JList [])) (LaneFail AnonymousSandboxes) (Inr ()))
    else Inr ()))))"

definition assert_openapi_security :: "lane \<Rightarrow> json \<Rightarrow> pystr \<Rightarrow> lane_exc + unit" where
  "assert_openapi_security l spec text =
    ebind (jget spec (py ''security'')) (\<lambda>sec.
    ensure (py_eq sec (JList [JDict [(py ''MutualTLS'', JList [])]])) (LaneFail SecurityNotMutualTLS)
   (ebind (jget_dict spec ''components'') (\<lambda>components.
    ebind (jget_dict components ''securitySchemes'') (\<lambda>schemes.
    ebind (jin (py ''MutualTLS'') schemes) (\<lambda>has_tls.
    ensure has_tls (LaneFail MissingMutualTLS)
   (ebind (jin (py ''LocalOsIdentity'') schemes) (\<lambda>has_local.
    ensure (\<not> has_local) (LaneFail LocalOsIdentityScheme)
   (ebind (jitems schemes) (\<lambda>items.
    ebind (eall (check_scheme l) items) (\<lambda>_.
    ensure (\<not> contains (py ''X-Sandbox-Local-Identity'') text) (LaneFail LocalIdentityNamed)
   (ebind (eall (\<lambda>key. ebind (jin key spec) (\<lambda>b. ensure b (LaneFail (MissingTransport key)) (Inr ()))) TRANSPORT_KEYS) (\<lambda>_.
    ebind (eall (check_diagnostics spec) PUBLIC_PATHS) (\<lambda>_.
    check_anonymous spec)))))))))))))"

definition BOUND_FIELDS :: "pystr list" where
  "BOUND_FIELDS = [py ''type'', py ''pattern'', py ''maxLength'', py ''minLength'']"

definition assert_shared_bounds :: "json \<Rightarrow> json \<Rightarrow> string \<Rightarrow> lane_exc + unit" where
  "assert_shared_bounds standalone openapi_schema name =
    eall (\<lambda>fld.
      ebind (jget standalone fld) (\<lambda>left.
      ebind (jget openapi_schema fld) (\<lambda>right.
      ensure (py_eq left right) (LaneFail (BoundsMismatch (py name) fld)) (Inr ())))) BOUND_FIELDS"

section \<open>References\<close>

definition COMPONENT_PREFIX :: pystr where "COMPONENT_PREFIX = py ''#/components/schemas/''"

text \<open>\<open>ref.rsplit("/", 1)[-1]\<close>.\<close>

definition after_last_slash :: "pystr \<Rightarrow> pystr" where
  "after_last_slash s = last (split_on (Ch CHR ''/'') s)"

definition component_ref :: "json \<Rightarrow> pystr option" where
  "component_ref x =
    (case x of
       JDict d \<Rightarrow>
         (case map_of d (py ''$ref'') of
            Some (JStr r) \<Rightarrow> if starts_with r COMPONENT_PREFIX then Some (after_last_slash r) else None
          | _ \<Rightarrow> None)
     | _ \<Rightarrow> None)"

text \<open>\<open>out[key] = f(schema[key])\<close>, if the key is there.\<close>

definition dict_put :: "(pystr \<times> json) list \<Rightarrow> pystr \<Rightarrow> json \<Rightarrow> (pystr \<times> json) list" where
  "dict_put d key v = map (\<lambda>(k, x). if k = key then (k, v) else (k, x)) d"

definition rewrite :: "string \<Rightarrow> (json \<Rightarrow> lane_exc + json) \<Rightarrow> (pystr \<times> json) list \<Rightarrow> (pystr \<times> json) list \<Rightarrow>
    lane_exc + (pystr \<times> json) list" where
  "rewrite key f schema out =
    (case map_of schema (py key) of
       None \<Rightarrow> Inr out
     | Some v \<Rightarrow> ebind (f v) (\<lambda>v'. Inr (dict_put out (py key) v')))"

definition in_dict :: "(json \<Rightarrow> lane_exc + json) \<Rightarrow> json \<Rightarrow> lane_exc + json" where
  "in_dict f v = (if is_dict v then f v else Inr v)"

definition in_members :: "(json \<Rightarrow> lane_exc + json) \<Rightarrow> json \<Rightarrow> lane_exc + json" where
  "in_members f v =
    ebind (jitems v) (\<lambda>items.
    ebind (emap (\<lambda>(k, x). ebind (in_dict f x) (\<lambda>y. Inr (k, y))) items) (\<lambda>items'.
    Inr (JDict items')))"

definition in_elements :: "(json \<Rightarrow> lane_exc + json) \<Rightarrow> json \<Rightarrow> lane_exc + json" where
  "in_elements f v = ebind (jiter v) (\<lambda>xs. ebind (emap (in_dict f) xs) (\<lambda>ys. Inr (JList ys)))"

text \<open>
  The recursion follows references, so it is bounded by the interpreter's recursion limit, the first
  argument, beyond which it raises \<open>RecursionError\<close>.
\<close>

definition resolve_step :: "(json \<Rightarrow> lane_exc + json) \<Rightarrow> json \<Rightarrow> json \<Rightarrow> lane_exc + json" where
  "resolve_step resolve schemas schema =
    (case schema of
       JDict d \<Rightarrow>
         (case component_ref schema of
            Some name \<Rightarrow> ebind (jitem schemas name) resolve
          | None \<Rightarrow>
              ebind (rewrite ''properties'' (in_members resolve) d d) (\<lambda>out.
              ebind (rewrite ''additionalProperties'' (in_dict resolve) d out) (\<lambda>out.
              ebind (rewrite ''propertyNames'' (in_dict resolve) d out) (\<lambda>out.
              ebind (rewrite ''items'' (in_dict resolve) d out) (\<lambda>out.
              ebind (rewrite ''allOf'' (in_elements resolve) d out) (\<lambda>out.
              Inr (JDict out)))))))
     | _ \<Rightarrow> Inl ATTRIBUTE_ERROR)"

primrec resolve_openapi :: "nat \<Rightarrow> json \<Rightarrow> json \<Rightarrow> lane_exc + json" where
  "resolve_openapi 0 schemas = (\<lambda>schema. Inl RECURSION_ERROR)"
| "resolve_openapi (Suc depth) schemas = resolve_step (resolve_openapi depth schemas) schemas"

section \<open>Self-tests of the lane\<close>

text \<open>\<open>expect_infra\<close>: the call must raise something other than \<open>ValidationError\<close>.\<close>

definition expect_infra :: "string \<Rightarrow> validation \<Rightarrow> lane_exc + unit" where
  "expect_infra name result =
    (case result of
       InfraError e \<Rightarrow> Inr ()
     | ValidationError \<Rightarrow> fail (NotInfrastructure (py name))
     | Accepted \<Rightarrow> fail (InfraSucceeded (py name)))"

definition INVALID_SCHEMA :: json where
  "INVALID_SCHEMA = JDict [(py ''type'', JStr (py ''not-a-json-type''))]"
definition BROKEN_REF :: json where
  "BROKEN_REF = JDict [(py ''$ref'', JStr (py ''https://zig-sandbox.local/schemas/does-not-exist.json''))]"

definition assert_infrastructure_failures :: "lane \<Rightarrow> store \<Rightarrow> lane_exc + unit" where
  "assert_infrastructure_failures l st =
    ebind (expect_infra ''harness-invalid-schema-keyword'' (l_check_schema l INVALID_SCHEMA)) (\<lambda>_.
    ebind (expect_infra ''harness-broken-ref'' (l_validate l BROKEN_REF st (JDict [(py ''x'', JInt 1)]))) (\<lambda>_.
    assert_decoder_infrastructure_fault))"

section \<open>The corpus\<close>

definition SCHEMA_IDS :: "(pystr \<times> string) list" where
  "SCHEMA_IDS = [
     (py ''decimal-u64'', ''decimal-u64.json''), (py ''generation'', ''generation.json''),
     (py ''opaque-id'', ''opaque-id.json''), (py ''error-canonical'', ''error-canonical.json''),
     (py ''error-diagnostic'', ''error-diagnostic.json''), (py ''sandbox-create'', ''sandbox-create.json''),
     (py ''execution-create'', ''execution-create.json''),
     (py ''capabilities-diagnostic'', ''capabilities-diagnostic.json'')]"

definition OPENAPI_SCHEMA_NAMES :: "(pystr \<times> string) list" where
  "OPENAPI_SCHEMA_NAMES = [
     (py ''decimal-u64'', ''DecimalU64''), (py ''generation'', ''Generation''), (py ''opaque-id'', ''OpaqueId''),
     (py ''error-canonical'', ''CanonicalError''), (py ''error-diagnostic'', ''DiagnosticError''),
     (py ''sandbox-create'', ''SandboxCreate''), (py ''execution-create'', ''ExecutionCreate'')]"

text \<open>The verdict on a case from the outcomes of its stages.\<close>

definition judge_staged :: "bool \<Rightarrow> bool option \<Rightarrow> bool \<Rightarrow> json \<Rightarrow> json \<Rightarrow> bool" where
  "judge_staged standalone_ok openapi_ok semantic_ok expect_schema expect_semantic =
    (let openapi_agrees = (case openapi_ok of None \<Rightarrow> True | Some b \<Rightarrow> b = standalone_ok);
         combined_accept = (standalone_ok \<and> openapi_agrees) \<and> semantic_ok;
         schema_pass = (if expect_schema = ACCEPT then standalone_ok else \<not> standalone_ok);
         schema_pass = (case openapi_ok of None \<Rightarrow> schema_pass
           | Some b \<Rightarrow> schema_pass \<and> (if expect_schema = ACCEPT then b else \<not> b));
         semantic_pass = (if expect_semantic = NOT_APPLICABLE then True
           else if expect_semantic = ACCEPT then semantic_ok else \<not> semantic_ok);
         ok = (schema_pass \<and> semantic_pass \<and> openapi_agrees)
     in if expect_schema = ACCEPT \<and> expect_semantic = ACCEPT then ok \<and> combined_accept
        else if expect_schema = ACCEPT \<and> expect_semantic = REJECT then ok \<and> \<not> combined_accept
        else if expect_schema = REJECT then ok \<and> \<not> combined_accept
        else ok)"

definition judge_combined :: "bool \<Rightarrow> bool option \<Rightarrow> bool \<Rightarrow> json \<Rightarrow> bool" where
  "judge_combined standalone_ok openapi_ok semantic_ok expect =
    (let openapi_agrees = (case openapi_ok of None \<Rightarrow> True | Some b \<Rightarrow> b = standalone_ok);
         combined_accept = (standalone_ok \<and> openapi_agrees) \<and> semantic_ok
     in if expect = ACCEPT then combined_accept else \<not> combined_accept \<and> openapi_agrees)"

definition openapi_stage :: "lane \<Rightarrow> store \<Rightarrow> json \<Rightarrow> (pystr \<times> json) list \<Rightarrow> pystr \<Rightarrow> json \<Rightarrow> lane_exc + bool option" where
  "openapi_stage l st schemas d key v =
    (case map_of OPENAPI_SCHEMA_NAMES key of
       None \<Rightarrow> Inr None
     | Some name \<Rightarrow>
         ebind (jitem schemas (py name)) (\<lambda>openapi_schema.
         ebind (resolve_openapi (l_recursion l) schemas openapi_schema) (\<lambda>inlined.
         ebind (check_schema l inlined) (\<lambda>_.
         ebind (guarded d OpenapiInfra (instance_is_valid l inlined st v)) (\<lambda>b.
         Inr (Some b))))))"

text \<open>\<open>SCHEMA_IDS[schema_key]\<close>.\<close>

definition schema_id :: "json \<Rightarrow> lane_exc + pystr \<times> string" where
  "schema_id schema_key =
    (case schema_key of
       JStr k \<Rightarrow> (case map_of SCHEMA_IDS k of Some file_name \<Rightarrow> Inr (k, file_name) | None \<Rightarrow> Inl KEY_ERROR)
     | _ \<Rightarrow> Inl (if hashable schema_key then KEY_ERROR else TYPE_ERROR))"

definition judge_case :: "(pystr \<times> json) list \<Rightarrow> bool \<Rightarrow> bool option \<Rightarrow> bool \<Rightarrow> lane_exc + bool" where
  "judge_case d standalone_ok openapi_ok semantic_ok =
    ebind (explicit_stages d) (\<lambda>stages.
    case stages of
      Some (expect_schema, expect_semantic) \<Rightarrow>
        Inr (judge_staged standalone_ok openapi_ok semantic_ok expect_schema expect_semantic)
    | None \<Rightarrow>
        (let expect = field d ''expect'' in
         if expect \<notin> {ACCEPT, REJECT} then fail_case d MissingExpect
         else Inr (judge_combined standalone_ok openapi_ok semantic_ok expect)))"

definition run_case :: "lane \<Rightarrow> store \<Rightarrow> json \<Rightarrow> json \<Rightarrow> lane_exc + bool" where
  "run_case l st schemas c =
    ebind (jitem c (py ''schema'')) (\<lambda>schema_key.
    ebind (schema_id schema_key) (\<lambda>(key, file_name).
    ebind (store_item st file_name) (\<lambda>standalone.
    ebind (jitems c) (\<lambda>d.
    ebind (load_case_value l d) (\<lambda>v.
    ebind (guarded d StandaloneInfra (instance_is_valid l standalone st v)) (\<lambda>standalone_ok.
    ebind (openapi_stage l st schemas d key v) (\<lambda>openapi_ok.
    ebind (guarded d SemanticInfra (semantic_is_valid (l_decode64 l) key v)) (\<lambda>semantic_ok.
    judge_case d standalone_ok openapi_ok semantic_ok))))))))"

text \<open>\<open>passed\<close> and \<open>failed\<close>. Either way the line printed names \<open>case["id"]\<close>.\<close>

definition count_case :: "lane \<Rightarrow> store \<Rightarrow> json \<Rightarrow> nat \<times> nat \<Rightarrow> json \<Rightarrow> lane_exc + nat \<times> nat" where
  "count_case l st schemas = (\<lambda>(passed, failed) c.
    ebind (run_case l st schemas c) (\<lambda>ok.
    ebind (jitem c (py ''id'')) (\<lambda>_.
    Inr (if \<not> ok then (passed, failed + 1) else (passed + 1, failed)))))"

section \<open>The lane\<close>

text \<open>Member access along a path of keys, \<open>x[a][b]...\<close>.\<close>

definition at_path :: "json \<Rightarrow> string list \<Rightarrow> lane_exc + json" where
  "at_path x keys = efold (\<lambda>v key. jitem v (py key)) x keys"

definition JSON_SUFFIX :: pystr where "JSON_SUFFIX = py ''.json''"

definition check_store :: "lane \<Rightarrow> store \<Rightarrow> lane_exc + unit" where
  "check_store l st =
    eall (\<lambda>(key, schema).
      case key of
        JStr name \<Rightarrow> if starts_with (rev name) (rev JSON_SUFFIX) then check_schema l schema else Inr ()
      | _ \<Rightarrow> Inr ()) st"

definition check_bounds :: "store \<Rightarrow> json \<Rightarrow> lane_exc + unit" where
  "check_bounds st schemas =
    eall (\<lambda>(file_name, name).
      ebind (store_item st file_name) (\<lambda>standalone.
      ebind (jitem schemas (py name)) (\<lambda>openapi_schema.
      assert_shared_bounds standalone openapi_schema name)))
      [(''decimal-u64.json'', ''DecimalU64''), (''generation.json'', ''Generation''), (''opaque-id.json'', ''OpaqueId'')]"

definition check_patterns :: "store \<Rightarrow> json \<Rightarrow> lane_exc + unit" where
  "check_patterns st schemas =
    ebind (eall (\<lambda>(file_name, name).
             ebind (store_item st file_name) (\<lambda>schema. assert_true_end_pattern schema name))
             [(''decimal-u64.json'', ''DecimalU64''), (''generation.json'', ''Generation''), (''opaque-id.json'', ''OpaqueId'')]) (\<lambda>_.
    ebind (store_item st ''sandbox-create.json'') (\<lambda>sandbox.
    ebind (at_path sandbox [''properties'', ''image'', ''properties'', ''digest'']) (\<lambda>digest_schema.
    ebind (assert_true_end_pattern digest_schema ''ImageDigest'') (\<lambda>_.
    ebind (at_path schemas [''ImagePin'', ''properties'', ''digest'']) (\<lambda>pin.
    assert_true_end_pattern pin ''OpenAPI ImagePin.digest'')))))"

definition check_request_id :: "store \<Rightarrow> json \<Rightarrow> lane_exc + unit" where
  "check_request_id st schemas =
    ebind (at_path schemas [''CanonicalError'', ''properties'', ''request_id'']) (\<lambda>req.
    if \<not> py_eq req (JDict [(py ''$ref'', JStr (py ''#/components/schemas/OpaqueId''))]) then
      ebind (jget req (py ''pattern'')) (\<lambda>left.
      ebind (store_item st ''opaque-id.json'') (\<lambda>opaque.
      ebind (jitem opaque (py ''pattern'')) (\<lambda>right.
      ensure (py_eq left right) (LaneFail RequestIdNotOpaque) (Inr ()))))
    else Inr ())"

text \<open>A type that is the string \<open>string\<close> does not contain \<open>null\<close>.\<close>

definition check_cwd_type :: "json \<Rightarrow> lane_exc + unit" where
  "check_cwd_type schemas =
    ebind (at_path schemas [''ExecutionCreate'', ''properties'', ''cwd'']) (\<lambda>cwd_schema.
    ebind (jget cwd_schema (py ''type'')) (\<lambda>ty.
    ensure (ty = JStr (py ''string'')) (LaneFail CwdNullable) (Inr ())))"

definition check_nullable :: "json \<Rightarrow> string \<Rightarrow> lane_exc + unit" where
  "check_nullable schemas prop =
    ebind (at_path schemas [''ExecutionCreate'', ''properties'', prop]) (\<lambda>node.
    ebind (jget node (py ''type'')) (\<lambda>types.
    ensure (case types of JList xs \<Rightarrow> JStr (py ''null'') \<notin> set xs | _ \<Rightarrow> True) (LaneFail (NullableProp (py prop)))
   (ebind (jget node (py ''nullable'')) (\<lambda>flag.
    ensure (flag \<noteq> JBool True) (LaneFail (NullableFlag (py prop))) (Inr ())))))"

definition same_pattern :: "json \<Rightarrow> json \<Rightarrow> string list \<Rightarrow> failure \<Rightarrow> lane_exc + unit" where
  "same_pattern standalone openapi keys f =
    ebind (at_path standalone keys) (\<lambda>x. ebind (jget x (py ''pattern'')) (\<lambda>left.
    ebind (at_path openapi keys) (\<lambda>y. ebind (jget y (py ''pattern'')) (\<lambda>right.
    ensure (py_eq left right) (LaneFail f) (Inr ())))))"

definition check_execution :: "store \<Rightarrow> json \<Rightarrow> lane_exc + unit" where
  "check_execution st schemas =
    ebind (check_cwd_type schemas) (\<lambda>_.
    ebind (eall (check_nullable schemas) [''cwd'', ''timeout_ms'', ''stdin_base64'', ''env'']) (\<lambda>_.
    ebind (store_item st ''execution-create.json'') (\<lambda>standalone.
    ebind (jitem standalone (py ''properties'')) (\<lambda>standalone_exec.
    ebind (at_path schemas [''ExecutionCreate'', ''properties'']) (\<lambda>openapi_exec.
    ebind (same_pattern standalone_exec openapi_exec [''cwd''] CwdPattern) (\<lambda>_.
    ebind (same_pattern standalone_exec openapi_exec [''stdin_base64''] StdinPattern) (\<lambda>_.
    same_pattern standalone_exec openapi_exec [''argv'', ''items''] ArgvPattern)))))))"

definition run_corpus :: "lane \<Rightarrow> store \<Rightarrow> json \<Rightarrow> lane_exc + nat \<times> nat" where
  "run_corpus l st schemas =
    ebind (l_corpus l) (\<lambda>corpus.
    ebind (jitem corpus (py ''cases'')) (\<lambda>cases.
    ebind (jiter cases) (\<lambda>cs.
    efold (count_case l st schemas) (0, 0) cs)))"

text \<open>The value returned by \<open>main\<close>, the exit code of the script.\<close>

definition schema_main :: "lane \<Rightarrow> lane_exc + nat" where
  "schema_main l =
    ebind (check_pins l) (\<lambda>_.
    ebind (load_store l) (\<lambda>st.
    ebind (check_store l st) (\<lambda>_.
    ebind (l_openapi_text l) (\<lambda>text.
    ebind (l_safe_load l text) (\<lambda>spec.
    ebind (assert_openapi_security l spec text) (\<lambda>_.
    ebind (at_path spec [''components'', ''schemas'']) (\<lambda>schemas.
    ebind (check_bounds st schemas) (\<lambda>_.
    ebind (check_patterns st schemas) (\<lambda>_.
    ebind (check_request_id st schemas) (\<lambda>_.
    ebind (check_execution st schemas) (\<lambda>_.
    ebind (assert_infrastructure_failures l st) (\<lambda>_.
    ebind (run_corpus l st schemas) (\<lambda>(passed, failed).
    Inr (if failed \<noteq> 0 then 1 else 0))))))))))))))"

end
