(* ===== verification/SchemaSemantic_Spec.thy ===== *)
theory SchemaSemantic_Spec
  imports SchemaSemantic
begin

text \<open>
  What the semantic stage accepts, in terms of the text itself instead of the loops over its bytes, and
  the proof that on encodable instances it always decides.
\<close>

section \<open>Decimal numbers\<close>

definition digit :: "pychar \<Rightarrow> bool" where "digit c \<longleftrightarrow> 48 \<le> code_of c \<and> code_of c \<le> 57"

lemma digit_charI: "digit c \<Longrightarrow> c = digit_char (code_of c - 48)"
  by (rule code_of_inj) (auto simp: digit_def)

lemma digit_value_code: "digit c \<Longrightarrow> digit_value c = code_of c - 48"
  by (simp add: digit_value_def digit_def)

lemma digit_zero: "digit c \<Longrightarrow> code_of c - 48 = 0 \<longleftrightarrow> c = Ch CHR ''0''"
  using code_of_inj [of c "Ch CHR ''0''"] by (auto simp: digit_def)

lemma from_digits_pos:
  assumes "s \<noteq> []" "digit (hd s)" "hd s \<noteq> Ch CHR ''0''"
  shows "0 < from_digits 10 s"
  using assms
proof (induction s rule: rev_induct)
  case (snoc c s)
  show ?case
  proof (cases "s = []")
    case True
    with snoc.prems show ?thesis using digit_zero [of c] by (simp add: from_digits_def digit_value_code)
  qed (use snoc in simp)
qed simp

lemma show_nat_from_digits:
  assumes "s \<noteq> []" "list_all digit s" "hd s \<noteq> Ch CHR ''0'' \<or> length s = 1"
  shows "show_nat (from_digits 10 s) = s"
  using assms
proof (induction s rule: rev_induct)
  case (snoc c s)
  from snoc.prems have d: "digit c" by simp
  then have v: "digit_value c < 10" by (simp add: digit_value_code digit_def) linarith
  show ?case
  proof (cases "s = []")
    case True
    with d v show ?thesis by (subst show_nat.simps) (simp add: from_digits_def digit_value_code digit_charI [symmetric])
  next
    case False
    with snoc.prems have s: "s \<noteq> []" "list_all digit s" "hd s \<noteq> Ch CHR ''0''" by auto
    then have "0 < from_digits 10 s" using from_digits_pos by (cases s) auto
    then have "\<not> 10 * from_digits 10 s + digit_value c < 10" by simp
    with snoc.IH s v d show ?thesis
      by (subst show_nat.simps) (simp add: digit_value_code digit_charI [symmetric])
  qed
qed simp

lemma digit_show_nat: "list_all digit (show_nat n)"
proof (induction n rule: show_nat.induct)
  case (1 n)
  have "digit (digit_char d)" if "d < 10" for d using that by (simp add: digit_def)
  with 1 show ?case by (subst show_nat.simps) simp
qed

lemma hd_show_nat: "hd (show_nat n) = Ch CHR ''0'' \<longleftrightarrow> n = 0"
proof (induction n rule: show_nat.induct)
  case (1 n)
  have z: "digit_char n = Ch CHR ''0'' \<longleftrightarrow> n = 0" if "n < 10"
    using code_of_digit [OF that] code_of_inj [of "digit_char n" "Ch CHR ''0''"] by auto
  show ?case
  proof (cases "n < 10")
    case False
    then have "hd (show_nat n) = hd (show_nat (n div 10))" by (subst show_nat.simps) simp
    with 1 False show ?thesis by simp
  qed (use z in \<open>subst show_nat.simps; simp\<close>)
qed

lemma show_nat_0: "show_nat 0 = [Ch CHR ''0'']"
  by (subst show_nat.simps) (use code_of_digit [of 0] code_of_inj [of "digit_char 0" "Ch CHR ''0''"] in auto)

lemma length_show_nat: "0 < k \<Longrightarrow> n < 10 ^ k \<Longrightarrow> length (show_nat n) \<le> k"
proof (induction n arbitrary: k rule: show_nat.induct)
  case (1 n)
  show ?case
  proof (cases "n < 10")
    case False
    with "1.prems" obtain k' where k: "k = Suc k'" "0 < k'" by (cases k; cases "k - 1") auto
    then have "n div 10 < 10 ^ k'" using "1.prems" by (simp add: less_mult_imp_div_less mult.commute)
    from "1.IH" [OF False k(2) this] False k show ?thesis by (subst show_nat.simps) simp
  qed (use "1.prems" in \<open>subst show_nat.simps; simp\<close>)
qed

lemma decimal_loop:
  "efold decimal_step a s = Inr n \<longleftrightarrow>
     list_all digit s \<and> n = foldl (\<lambda>a c. 10 * a + digit_value c) a s \<and> (s = [] \<or> n \<le> U64_MAX)"
proof (induction s arbitrary: a)
  case (Cons c s)
  have mono: "a \<le> foldl (\<lambda>a c. 10 * a + digit_value c) a s" for a
  proof (induction s arbitrary: a)
    case (Cons c s)
    from Cons [of "10 * a + digit_value c"] show ?case by simp
  qed simp
  have step: "decimal_step a c = Inr b \<longleftrightarrow> digit c \<and> b = 10 * a + digit_value c \<and> b \<le> U64_MAX" for b
    by (auto simp: decimal_step_def exc_simps Let_def less_pychar_def digit_def digit_value_code [unfolded digit_def])
  show ?case
    using mono [of "10 * a + digit_value c"] by (auto simp: exc_simps step Cons)
qed auto

lemma parse_decimal:
  "parse_decimal_u64 v = Inr n \<longleftrightarrow> v = JStr (show_nat n) \<and> n \<le> U64_MAX"
proof (cases v)
  case (JStr s)
  have len: "length (show_nat n) \<le> 20" if "n \<le> U64_MAX"
    using that length_show_nat [of 20 n] by (simp add: U64_MAX_def)
  have "parse_decimal_u64 (JStr s) = Inr n \<longleftrightarrow> s = show_nat n \<and> n \<le> U64_MAX"
  proof
    assume a: "parse_decimal_u64 (JStr s) = Inr n"
    then have ne: "s \<noteq> []" by (simp add: parse_decimal_u64_def exc_simps)
    show "s = show_nat n \<and> n \<le> U64_MAX"
    proof (cases "hd s = Ch CHR ''0''")
      case True
      with a have "n = 0" "length s = 1" by (auto simp: parse_decimal_u64_def exc_simps)
      with True ne have "s = [Ch CHR ''0'']" by (cases s) auto
      then show ?thesis using \<open>n = 0\<close> by (simp add: show_nat_0)
    next
      case False
      with a ne have "list_all digit s" "n = from_digits 10 s" "n \<le> U64_MAX"
        by (auto simp: parse_decimal_u64_def exc_simps decimal_loop from_digits_def)
      with show_nat_from_digits [OF ne] False show ?thesis by simp
    qed
  next
    assume s: "s = show_nat n \<and> n \<le> U64_MAX"
    show "parse_decimal_u64 (JStr s) = Inr n"
    proof (cases "n = 0")
      case True
      then show ?thesis using s by (simp add: parse_decimal_u64_def show_nat_0)
    next
      case False
      have "foldl (\<lambda>a c. 10 * a + digit_value c) 0 (show_nat n) = n"
        using from_digits_show_nat [of n] by (simp add: from_digits_def)
      with False s len show ?thesis
        by (simp add: parse_decimal_u64_def hd_show_nat decimal_loop digit_show_nat)
    qed
  qed
  with JStr show ?thesis by simp
qed (simp_all add: parse_decimal_u64_def)

text \<open>
  C36: A decimal field is accepted exactly when it is the canonical decimal text of a number below 2^64,
  without leading zeros, and the number returned is the one written.
\<close>

theorem parse_decimal_roundtrip:
  "parse_decimal_u64 v = Inr n \<longleftrightarrow> v = JStr (show_nat n) \<and> n \<le> U64_MAX"
  by (rule parse_decimal)

section \<open>Identifiers\<close>

definition encodable :: "pystr \<Rightarrow> bool" where "encodable s \<longleftrightarrow> \<not> list_ex is_surrogate s"

definition encoded_length :: "pystr \<Rightarrow> nat" where "encoded_length s = length (utf8_of s)"

lemma utf8_encode_Inr [exc_simps]: "utf8_encode s = Inr raw \<longleftrightarrow> encodable s \<and> raw = utf8_of s"
  by (auto simp: utf8_encode_def encodable_def exc_simps)

lemma utf8_bytes_Inr [exc_simps]: "utf8_bytes s = Inr n \<longleftrightarrow> encodable s \<and> n = encoded_length s"
  by (auto simp: utf8_bytes_def encoded_length_def exc_simps)

definition opaque_text :: "pystr \<Rightarrow> bool" where
  "opaque_text s \<longleftrightarrow> s \<noteq> [] \<and> length s \<le> MAX_ID_BYTES \<and> list_all (\<lambda>c. opaque_byte (code_of c)) s \<and> \<not> list_all digit s"

lemma opaque_loop_iff:
  "opaque_loop ad raw \<longleftrightarrow> list_all opaque_byte raw \<and> \<not> (ad \<and> list_all (\<lambda>c. 48 \<le> c \<and> c \<le> 57) raw)"
  by (induction raw arbitrary: ad) (auto simp: not_less)

lemma opaque_byte_ascii: "opaque_byte b \<Longrightarrow> b < 128"
  by (auto simp: opaque_byte_def)

lemma opaque_id_iff: "is_opaque_id v = Inr True \<longleftrightarrow> (\<exists>s. v = JStr s \<and> opaque_text s)"
proof (cases v)
  case (JStr s)
  let ?raw = "utf8_of s"
  have all: "list_all opaque_byte ?raw \<longleftrightarrow> list_all (\<lambda>c. opaque_byte (code_of c)) s"
    by (rule list_all_bytes) (rule opaque_byte_ascii)
  have dig: "list_all (\<lambda>c. 48 \<le> c \<and> c \<le> 57) ?raw \<longleftrightarrow> list_all digit s"
    unfolding digit_def [abs_def] by (rule list_all_bytes) simp
  have asc: "encodable s \<and> length ?raw = length s" if "list_all (\<lambda>c. opaque_byte (code_of c)) s"
  proof -
    have "list_all (\<lambda>c. code_of c < 128) s" using that opaque_byte_ascii by (auto simp: list_all_iff)
    then show ?thesis using ascii_no_surrogate by (simp add: utf8_of_ascii encodable_def)
  qed
  have "is_opaque_id (JStr s) = Inr True \<longleftrightarrow> encodable s \<and> s \<noteq> [] \<and> length ?raw \<le> MAX_ID_BYTES \<and> opaque_loop True ?raw"
    by (auto simp: is_opaque_id_def exc_simps split: if_splits)
  with JStr asc show ?thesis by (auto simp: opaque_loop_iff all dig opaque_text_def)
qed (simp_all add: is_opaque_id_def)

definition digest_text :: "pystr \<Rightarrow> bool" where
  "digest_text s \<longleftrightarrow> (\<exists>h. s = py ''sha256:'' @ h \<and> length h = 64 \<and> list_all (\<lambda>c. digit c \<or> 97 \<le> code_of c \<and> code_of c \<le> 102) h)"

lemma image_digest_iff: "is_image_digest v \<longleftrightarrow> (\<exists>s. v = JStr s \<and> digest_text s)"
proof (cases v)
  case (JStr s)
  show ?thesis unfolding JStr digest_text_def is_image_digest_def Let_def digit_def
    by (auto simp: starts_with_iff)
qed (simp_all add: is_image_digest_def)

section \<open>Guest paths\<close>

abbreviation SLASH :: pychar where "SLASH \<equiv> Ch CHR ''/''"
abbreviation BACKSLASH :: pychar where "BACKSLASH \<equiv> Ch CHR 0x5C"

text \<open>Components: none empty but a last one, after a trailing slash, and none is a dot or a double dot.\<close>

definition components_ok :: "'a list \<Rightarrow> 'a list \<Rightarrow> 'a list list \<Rightarrow> bool" where
  "components_ok dot dots ps \<longleftrightarrow> [] \<notin> set (butlast ps) \<and> dot \<notin> set ps \<and> dots \<notin> set ps"

definition guest_path :: "pystr \<Rightarrow> bool" where
  "guest_path s \<longleftrightarrow> (\<exists>t. s = SLASH # t \<and> components_ok (py ''.'') (py ''..'') (split_on SLASH t)) \<and>
     NUL \<notin> set s \<and> BACKSLASH \<notin> set s \<and> encodable s \<and> encoded_length s \<le> MAX_PATH_BYTES"

lemma path_loop_components:
  "start \<le> length raw \<Longrightarrow> path_loop raw start \<longleftrightarrow> components_ok [46] [46, 46] (split_on 0x2F (drop start raw))"
proof (induction raw start rule: path_loop.induct)
  case (1 raw start)
  show ?case
  proof (cases "slash_from raw start")
    case None
    then have n: "0x2F \<notin> set (drop start raw)" by (simp add: slash_from_def split: if_splits)
    have "pyslice raw start (length raw) = drop start raw" by (simp add: pyslice_def)
    with None "1.prems" split_on_no_sep [OF n] show ?thesis
      by (subst path_loop.simps) (auto simp: Let_def components_ok_def)
  next
    case (Some i)
    let ?t = "takeWhile (\<lambda>b. b \<noteq> 0x2F) (drop start raw)"
    from Some have m: "0x2F \<in> set (drop start raw)" and i: "i = start + length ?t"
      by (auto simp: slash_from_def split: if_splits)
    have b: "start \<le> i" "i < length raw" using slash_from_bounds [OF Some] by auto
    have seg: "pyslice raw start i = ?t" unfolding pyslice_def i by (metis add_diff_cancel_left' takeWhile_eq_take)
    have "drop start raw = ?t @ drop (length ?t) (drop start raw)"
      by (metis append_take_drop_id takeWhile_eq_take)
    moreover have "drop (length ?t) (drop start raw) = drop i raw" by (simp add: i add.commute)
    moreover have "drop i raw = raw ! i # drop (i + 1) raw" using b by (simp add: Cons_nth_drop_Suc)
    moreover have "raw ! i = 0x2F"
      using nth_length_takeWhile [of "\<lambda>b. b \<noteq> 0x2F" "drop start raw"] b i by auto
    ultimately have "drop start raw = ?t @ 0x2F # drop (i + 1) raw" by simp
    moreover have "0x2F \<notin> set ?t" using set_takeWhileD by fastforce
    ultimately have sp: "split_on 0x2F (drop start raw) = ?t # split_on 0x2F (drop (i + 1) raw)"
      using split_on_append by metis
    have IH: "path_loop raw (i + 1) \<longleftrightarrow> components_ok [46] [46, 46] (split_on 0x2F (drop (i + 1) raw))"
      if "?t \<noteq> []" "?t \<notin> {[46], [46, 46]}"
      by (rule "1.IH" [of i ?t]) (use "1.prems" Some seg that b in simp_all)
    have step: "path_loop raw start \<longleftrightarrow>
        \<not> (?t = [] \<and> i \<noteq> length raw) \<and> ?t \<notin> {[46], [46, 46]} \<and> (i = length raw \<or> path_loop raw (i + 1))"
      using "1.prems" by (subst path_loop.simps) (simp add: Let_def Some seg)
    show ?thesis
      unfolding step sp using b IH by (cases "?t = []"; cases "?t \<in> {[46], [46, 46]}") (auto simp: components_ok_def)
  qed
qed

lemma components_bytes:
  "components_ok [46] [46, 46] (split_on 0x2F (utf8_of t)) \<longleftrightarrow>
     components_ok (py ''.'') (py ''..'') (split_on SLASH t)"
proof -
  have dot: "utf8_of p = [46] \<longleftrightarrow> p = py ''.''" "utf8_of p = [46, 46] \<longleftrightarrow> p = py ''..''" for p
    using utf8_of_eq_ascii [of "py ''.''" p] utf8_of_eq_ascii [of "py ''..''" p] by simp_all
  have in_map: "y \<in> set (map utf8_of ps) \<longleftrightarrow> x \<in> set ps" if "\<And>p. utf8_of p = y \<longleftrightarrow> p = x" for x y ps
    unfolding set_map using that by (metis imageE image_eqI)
  have "[] \<in> set (butlast (map utf8_of ps)) \<longleftrightarrow> [] \<in> set (butlast ps)" for ps
    unfolding map_butlast [symmetric] by (rule in_map) simp
  then show ?thesis
    unfolding components_ok_def split_bytes [of SLASH t, simplified] in_map [OF dot(1)] in_map [OF dot(2)] by simp
qed

lemma guest_path_accepts:
  "is_guest_path v = Inr True \<longleftrightarrow> (\<exists>s. v = JStr s \<and> guest_path s)"
proof (cases v)
  case (JStr s)
  let ?raw = "utf8_of s"
  have in_raw: "0 \<in> set ?raw \<longleftrightarrow> NUL \<in> set s" "0x5C \<in> set ?raw \<longleftrightarrow> BACKSLASH \<in> set s"
    using ascii_byte_in [of NUL s] ascii_byte_in [of BACKSLASH s] by simp_all
  have base: "is_guest_path (JStr s) = Inr True \<longleftrightarrow> encodable s \<and> s \<noteq> [] \<and> length ?raw \<le> MAX_PATH_BYTES \<and> hd ?raw = 0x2F \<and>
      NUL \<notin> set s \<and> BACKSLASH \<notin> set s \<and> \<not> (2 \<le> length ?raw \<and> ?raw ! 1 = 0x2F) \<and> path_loop ?raw 1"
    unfolding is_guest_path_def by (auto simp: exc_simps in_raw)
  show ?thesis
  proof (cases "\<exists>t. s = SLASH # t")
    case True
    then obtain t where t: "s = SLASH # t" by blast
    then have raw: "?raw = 0x2F # utf8_of t" by (simp add: utf8_char_ascii)
    have loop: "path_loop ?raw 1 \<longleftrightarrow> components_ok (py ''.'') (py ''..'') (split_on SLASH t)"
      using path_loop_components [of 1 ?raw] components_bytes [of t] by (simp add: raw)
    have "\<not> (2 \<le> length ?raw \<and> ?raw ! 1 = 0x2F)" if "path_loop ?raw 1"
    proof
      assume a: "2 \<le> length ?raw \<and> ?raw ! 1 = 0x2F"
      then obtain r where "utf8_of t = 0x2F # r" unfolding raw by (cases "utf8_of t") auto
      then have "[] \<in> set (butlast (split_on 0x2F (utf8_of t)))" by simp
      with that loop components_bytes [of t] show False by (simp add: components_ok_def)
    qed
    then show ?thesis using JStr base loop t raw by (auto simp: guest_path_def encoded_length_def)
  next
    case False
    have "hd ?raw \<noteq> 0x2F" if ne: "s \<noteq> []"
    proof -
      obtain c r where s: "s = c # r" using ne by (cases s) auto
      with False have "c \<noteq> SLASH" by simp
      then have "0x2F \<notin> set (utf8_char c)" using ascii_byte_in [of SLASH "[c]"] by auto
      then show ?thesis using s by (metis hd_append hd_in_set utf8_of_simps(2) utf8_char_ne)
    qed
    with False JStr base show ?thesis by (auto simp: guest_path_def)
  qed
qed (simp_all add: is_guest_path_def)

text \<open>
  C21: A guest path is accepted exactly when it is absolute, without NUL and backslash, at most 4096 bytes of
  UTF-8, has no empty component but a trailing one, and no component that is a dot or a double dot: the
  byte scan accepts the same paths as splitting the text at its slashes.
\<close>

theorem is_guest_path_iff:
  "is_guest_path v = Inr True \<longleftrightarrow> (\<exists>s. v = JStr s \<and> guest_path s)"
  by (rule guest_path_accepts)

section \<open>Base64\<close>

definition base64_text :: "pystr \<Rightarrow> bool" where
  "base64_text s \<longleftrightarrow> length s mod 4 = 0 \<and>
     (\<exists>body n. s = body @ replicate n PAD \<and> n \<le> 2 \<and> list_all base64_char body)"

definition padding :: "pystr \<Rightarrow> nat" where "padding s = length (takeWhile (\<lambda>c. c = PAD) (rev s))"

lemma sextet_iff: "base64_char c \<longleftrightarrow> (\<exists>v. sextet c = Some v)"
proof -
  have "c = Ch CHR ''+'' \<longleftrightarrow> code_of c = 43" "c = Ch CHR ''/'' \<longleftrightarrow> code_of c = 47"
    using code_of_inj [of c "Ch CHR ''+''"] code_of_inj [of c "Ch CHR ''/''"] by auto
  then show ?thesis by (auto simp: base64_char_def sextet_def less_eq_pychar_def Let_def)
qed

lemma base64_char_not_pad: "base64_char c \<Longrightarrow> c \<noteq> PAD"
  by (auto simp: base64_char_def less_eq_pychar_def)

lemma base64_char_ascii: "base64_char c \<Longrightarrow> is_ascii c"
  by (auto simp: base64_char_def less_eq_pychar_def is_ascii_def)

lemma base64_loop_pads: "0 < pad \<Longrightarrow> pad \<le> 2 \<Longrightarrow> base64_loop pad s \<longleftrightarrow> (\<exists>n. s = replicate n PAD \<and> pad + n \<le> 2)"
proof (induction pad s rule: base64_loop.induct)
  case (2 pad c cs)
  have "(\<exists>n. c # cs = replicate n PAD \<and> pad + n \<le> 2) \<longleftrightarrow> c = PAD \<and> (\<exists>n. cs = replicate n PAD \<and> pad + 1 + n \<le> 2)"
    by (auto simp: Cons_replicate_eq)
  with 2 show ?case by auto
qed auto

lemma base64_loop_iff:
  "base64_loop 0 s \<longleftrightarrow> (\<exists>body n. s = body @ replicate n PAD \<and> n \<le> 2 \<and> list_all base64_char body)"
proof (induction s)
  case (Cons c s)
  show ?case
  proof (cases "c = PAD")
    case True
    have "body = []" if "c # s = body @ replicate n PAD" "list_all base64_char body" for body n
      using that True base64_char_not_pad by (cases body) auto
    then have "(\<exists>body n. c # s = body @ replicate n PAD \<and> n \<le> 2 \<and> list_all base64_char body) \<longleftrightarrow>
        (\<exists>n. c # s = replicate n PAD \<and> n \<le> 2)"
      by (metis append_Nil list.pred_inject(1))
    also have "\<dots> \<longleftrightarrow> (\<exists>n. s = replicate n PAD \<and> 1 + n \<le> 2)"
      using True by (auto simp: Cons_replicate_eq)
    finally show ?thesis using True by (simp add: base64_loop_pads)
  next
    case False
    have "(\<exists>body n. c # s = body @ replicate n PAD \<and> n \<le> 2 \<and> list_all base64_char body) \<longleftrightarrow>
        base64_char c \<and> (\<exists>body n. s = body @ replicate n PAD \<and> n \<le> 2 \<and> list_all base64_char body)" (is "?L \<longleftrightarrow> ?R")
    proof
      assume ?L
      then obtain body n where b: "c # s = body @ replicate n PAD" "n \<le> 2" "list_all base64_char body" by blast
      then obtain body' where "body = c # body'" using False by (cases body; cases n) auto
      with b show ?R by auto
    next
      assume ?R
      then obtain body n where "base64_char c" "s = body @ replicate n PAD" "n \<le> 2" "list_all base64_char body" by blast
      then show ?L by (intro exI [of _ "c # body"] exI [of _ n]) simp
    qed
    with False Cons show ?thesis by simp
  qed
qed simp

lemma standard_base64_iff: "is_standard_base64 v \<longleftrightarrow> (\<exists>s. v = JStr s \<and> base64_text s)"
  by (cases v) (auto simp: is_standard_base64_def base64_text_def base64_loop_iff)

lemma a2b_group:
  assumes "list_all base64_char [a, b, c, d]"
  shows "\<exists>x y z. a2b_loop 0 l 0 (a # b # c # d # cs) = ebind (a2b_loop 0 0 0 cs) (\<lambda>bs. Inr (x # y # z # bs))"
proof -
  obtain va vb vc vd where v: "sextet a = Some va" "sextet b = Some vb" "sextet c = Some vc" "sextet d = Some vd"
    using assms by (auto simp: sextet_iff)
  have "a \<noteq> PAD" "b \<noteq> PAD" "c \<noteq> PAD" "d \<noteq> PAD" using assms base64_char_not_pad by auto
  with v show ?thesis by (cases "a2b_loop 0 0 0 cs") auto
qed

lemma a2b_tail:
  assumes "list_all base64_char body" "n \<le> 2" "(length body + n) mod 4 = 0" "length body < 4"
  shows "\<exists>bs. a2b_loop 0 l 0 (body @ replicate n PAD) = Inr bs \<and> length bs + n = 3 * ((length body + n) div 4)"
proof -
  have "length body = 0 \<and> n = 0 \<or> length body = 2 \<and> n = 2 \<or> length body = 3 \<and> n = 1"
    using assms(2-4) by presburger
  then consider "body = []" "n = 0" | a b where "body = [a, b]" "n = 2" | a b c where "body = [a, b, c]" "n = 1"
    by (auto simp: length_Suc_conv numeral_2_eq_2 numeral_3_eq_3)
  then show ?thesis
  proof cases
    case (2 a b)
    with assms(1) base64_char_not_pad show ?thesis by (auto simp: sextet_iff numeral_2_eq_2)
  next
    case (3 a b c)
    with assms(1) base64_char_not_pad show ?thesis by (auto simp: sextet_iff)
  qed simp
qed

lemma a2b_length:
  assumes "list_all base64_char body" "n \<le> 2" "(length body + n) mod 4 = 0"
  shows "\<exists>bs. a2b_loop 0 l 0 (body @ replicate n PAD) = Inr bs \<and> length bs + n = 3 * ((length body + n) div 4)"
  using assms
proof (induction "length body" arbitrary: body l rule: less_induct)
  case less
  show ?case
  proof (cases "length body < 4")
    case True
    with less.prems show ?thesis by (rule a2b_tail)
  next
    case False
    then obtain a b c d r where body: "body = a # b # c # d # r"
      by (cases body; cases "tl body"; cases "tl (tl body)"; cases "tl (tl (tl body))") auto
    with less.prems have r: "list_all base64_char r" "(length r + n) mod 4 = 0" by auto
    obtain bs where bs: "a2b_loop 0 0 0 (r @ replicate n PAD) = Inr bs" "length bs + n = 3 * ((length r + n) div 4)"
      using less.hyps [of r 0] r less.prems(2) body by auto
    obtain x y z where "a2b_loop 0 l 0 (body @ replicate n PAD) = Inr (x # y # z # bs)"
      using a2b_group [of a b c d l "r @ replicate n PAD"] less.prems(1) body bs(1) by auto
    with bs(2) body show ?thesis by simp
  qed
qed

lemma b64decode_text:
  assumes "base64_text s"
  shows "\<exists>bs. b64decode s = Inr bs \<and> length bs + padding s = 3 * (length s div 4)"
proof -
  obtain body n where s: "s = body @ replicate n PAD" "n \<le> 2" "list_all base64_char body"
    using assms by (auto simp: base64_text_def)
  have "padding s = n"
    using s base64_char_not_pad by (cases body rule: rev_cases) (auto simp: padding_def takeWhile_append)
  moreover have "list_all is_ascii s" using s base64_char_ascii by (auto simp: list_all_iff is_ascii_def)
  moreover have "(length body + n) mod 4 = 0" using assms s(1) by (simp add: base64_text_def)
  ultimately show ?thesis using a2b_length [of body n 0] s by (auto simp: b64decode_def)
qed

lemma decoded_length:
  "decoded_stdin_len b64decode v = Inr k \<longleftrightarrow>
     (\<exists>s. v = JStr s \<and> base64_text s \<and> k + padding s = 3 * (length s div 4) \<and> k \<le> MAX_STRING_BYTES)"
proof (cases v)
  case (JStr s)
  show ?thesis
  proof (cases "base64_text s")
    case True
    then obtain bs where bs: "b64decode s = Inr bs" "length bs + padding s = 3 * (length s div 4)"
      using b64decode_text by blast
    have "s = [] \<Longrightarrow> bs = []" using bs(2) by simp
    with True bs JStr standard_base64_iff [of v] show ?thesis
      by (auto simp: decoded_stdin_len_def exc_simps not_less)
  next
    case False
    with JStr standard_base64_iff [of v] show ?thesis by (auto simp: decoded_stdin_len_def exc_simps)
  qed
qed (simp_all add: decoded_stdin_len_def is_standard_base64_def)

text \<open>
  C37: The length reported for \<open>stdin_base64\<close> is that of the decoded bytes, three for each four characters
  less the padding, and at most 4096; it is reported exactly for the standard alphabet in groups of four
  with at most two padding characters at the end, so the decoder's own format error never arises.
\<close>

theorem decoded_stdin_len_iff:
  "decoded_stdin_len b64decode v = Inr k \<longleftrightarrow>
     (\<exists>s. v = JStr s \<and> base64_text s \<and> k + padding s = 3 * (length s div 4) \<and> k \<le> MAX_STRING_BYTES)"
  by (rule decoded_length)

end
