(* ===== verification/SchemaContract.thy ===== *)
theory SchemaContract
  imports SchemaSemantic_Spec
begin

text \<open>
  The contract of the semantic stage: for each kind of request the conditions on the instance, stated
  without order and without exceptions, that the validators of \<open>SchemaSemantic\<close> implement; and the proof
  that the stage decides every instance whose text can be encoded.
\<close>

section \<open>The contract\<close>

definition plain_text :: "pystr \<Rightarrow> bool" where
  "plain_text s \<longleftrightarrow> NUL \<notin> set s \<and> encodable s \<and> encoded_length s \<le> MAX_STRING_BYTES"

definition env_name :: "pystr \<Rightarrow> bool" where
  "env_name s \<longleftrightarrow> (\<exists>c t. s = c # t \<and> env_start (code_of c) \<and> list_all (\<lambda>c. env_start (code_of c) \<or> digit c) t)"

definition decimal_in :: "nat \<Rightarrow> json \<Rightarrow> bool" where
  "decimal_in lo v \<longleftrightarrow> (\<exists>n. v = JStr (show_nat n) \<and> lo \<le> n \<and> n \<le> U64_MAX)"

text \<open>A condition on a member that may be absent.\<close>

definition optional :: "(pystr \<times> json) list \<Rightarrow> string \<Rightarrow> (json \<Rightarrow> bool) \<Rightarrow> bool" where
  "optional d key P \<longleftrightarrow> (case map_of d (py key) of None \<Rightarrow> True | Some v \<Rightarrow> P v)"

definition text_with :: "(pystr \<Rightarrow> bool) \<Rightarrow> json \<Rightarrow> bool" where
  "text_with P v \<longleftrightarrow> (\<exists>s. v = JStr s \<and> P s)"

definition valid_argv :: "json \<Rightarrow> bool" where
  "valid_argv v \<longleftrightarrow> (\<exists>args. v = JList args \<and> args \<noteq> [] \<and> length args \<le> MAX_ARGV \<and>
     list_all (text_with (\<lambda>s. s \<noteq> [] \<and> plain_text s)) args)"

definition valid_env :: "json \<Rightarrow> bool" where
  "valid_env v \<longleftrightarrow> (\<exists>items. v = JDict items \<and> length items \<le> MAX_ENV \<and>
     list_all (\<lambda>(key, value). env_name key \<and> length key \<le> MAX_STRING_BYTES \<and> text_with plain_text value) items)"

definition valid_stdin :: "pystr \<Rightarrow> bool" where
  "valid_stdin s \<longleftrightarrow> base64_text s \<and> 3 * (length s div 4) \<le> MAX_STRING_BYTES + padding s"

definition valid_execution :: "json \<Rightarrow> bool" where
  "valid_execution v \<longleftrightarrow> (\<exists>d. v = JDict d \<and>
     decimal_in 1 (field d ''generation'') \<and> valid_argv (field d ''argv'') \<and>
     optional d ''cwd'' (text_with guest_path) \<and> optional d ''timeout_ms'' (decimal_in 0) \<and>
     optional d ''env'' valid_env \<and> optional d ''stdin_base64'' (text_with valid_stdin))"

definition valid_limits :: "json \<Rightarrow> bool" where
  "valid_limits v \<longleftrightarrow> v = JNull \<or> (\<exists>items. v = JDict items \<and> list_all (\<lambda>(_, x). x = JNull \<or> decimal_in 0 x) items)"

definition valid_rootfs :: "json \<Rightarrow> bool" where
  "valid_rootfs v \<longleftrightarrow> (\<forall>d. v = JDict d \<longrightarrow> field d ''volume'' = JNull \<or> text_with opaque_text (field d ''volume''))"

definition valid_sandbox :: "json \<Rightarrow> bool" where
  "valid_sandbox v \<longleftrightarrow> (\<exists>d pinned. v = JDict d \<and> field d ''image'' = JDict pinned \<and>
     text_with opaque_text (field pinned ''id'') \<and> text_with digest_text (field pinned ''digest'') \<and>
     valid_limits (field d ''limits'') \<and> optional d ''rootfs'' valid_rootfs)"

definition valid_error :: "json \<Rightarrow> bool" where
  "valid_error v \<longleftrightarrow> (\<exists>d. v = JDict d \<and> text_with opaque_text (field d ''request_id'') \<and>
     text_with (\<lambda>s. s \<noteq> [] \<and> encodable s \<and> encoded_length s \<le> MAX_STRING_BYTES) (field d ''message''))"

definition semantic_contract :: "pystr \<Rightarrow> json \<Rightarrow> bool" where
  "semantic_contract key v \<longleftrightarrow>
     key = py ''decimal-u64'' \<and> decimal_in 0 v \<or>
     key = py ''generation'' \<and> decimal_in 1 v \<or>
     key = py ''opaque-id'' \<and> text_with opaque_text v \<or>
     key = py ''execution-create'' \<and> valid_execution v \<or>
     key = py ''sandbox-create'' \<and> valid_sandbox v \<or>
     key = py ''error-canonical'' \<and> valid_error v \<or>
     key \<in> {py ''error-diagnostic'', py ''capabilities-diagnostic''}"

section \<open>The validators implement it\<close>

lemma demand_Inr [exc_simps]: "demand c what = Inr u \<longleftrightarrow> c = Inr True"
  by (auto simp: demand_def exc_simps)

lemma decimal_iff [exc_simps]:
  "semantic_decimal v = Inr u \<longleftrightarrow> decimal_in 0 v" "semantic_generation v = Inr u \<longleftrightarrow> decimal_in 1 v"
  by (auto simp: semantic_decimal_def semantic_generation_def decimal_in_def exc_simps parse_decimal)

lemma env_name_iff: "is_env_name (JStr s) = Inr True \<longleftrightarrow> env_name s"
proof (cases s)
  case (Cons c t)
  let ?P = "\<lambda>b. env_start b \<or> 48 \<le> b \<and> b \<le> 57"
  have low: "b < 128" if "?P b" for b using that by (auto simp: env_start_def)
  have all: "list_all ?P (utf8_of r) \<longleftrightarrow> list_all (\<lambda>c. ?P (code_of c)) r" for r
    by (rule list_all_bytes) (rule low)
  have "is_env_name (JStr s) = Inr True \<longleftrightarrow> encodable s \<and> env_start (hd (utf8_of s)) \<and> list_all ?P (tl (utf8_of s))"
    using Cons by (auto simp: is_env_name_def exc_simps)
  also have "\<dots> \<longleftrightarrow> env_start (code_of c) \<and> list_all (\<lambda>c. ?P (code_of c)) t"
  proof (cases "code_of c < 128")
    case True
    have "encodable s" if "list_all (\<lambda>c. ?P (code_of c)) t"
    proof -
      have "list_all (\<lambda>c. code_of c < 128) s" using that True low Cons by (auto simp: list_all_iff)
      then show ?thesis using ascii_no_surrogate by (simp add: encodable_def)
    qed
    with True Cons all [of t] show ?thesis by (auto simp: utf8_char_ascii)
  next
    case False
    have "128 \<le> hd (utf8_char c)" using utf8_char_wide [OF False] by (metis hd_in_set utf8_char_ne)
    with False Cons show ?thesis by (auto simp: env_start_def)
  qed
  finally show ?thesis by (simp add: Cons env_name_def digit_def)
qed (simp add: is_env_name_def env_name_def)

lemma env_name_ascii: "env_name s \<Longrightarrow> encodable s \<and> encoded_length s = length s"
proof -
  assume "env_name s"
  moreover have "code_of c < 128" if "env_start (code_of c) \<or> digit c" for c
    using that by (auto simp: env_start_def digit_def)
  ultimately have "list_all (\<lambda>c. code_of c < 128) s"
    by (auto simp: env_name_def list_all_iff)
  then show ?thesis using ascii_no_surrogate by (simp add: encodable_def encoded_length_def utf8_of_ascii)
qed

lemma check_argv_iff [exc_simps]: "check_argv v = Inr u \<longleftrightarrow> valid_argv v"
proof -
  have "check_arg a = Inr () \<longleftrightarrow> text_with (\<lambda>s. s \<noteq> [] \<and> plain_text s) a" for a
    by (cases a) (auto simp: check_arg_def text_with_def plain_text_def exc_simps)
  then show ?thesis by (cases v) (auto simp: check_argv_def valid_argv_def exc_simps list_all_iff)
qed

lemma check_cwd_iff [exc_simps]: "check_cwd v = Inr u \<longleftrightarrow> text_with guest_path v"
  by (cases v) (auto simp: check_cwd_def text_with_def exc_simps guest_path_accepts guest_path_def not_less)

lemma check_env_iff [exc_simps]: "check_env v = Inr u \<longleftrightarrow> valid_env v"
proof -
  have "check_env_item (k, x) = Inr () \<longleftrightarrow> env_name k \<and> length k \<le> MAX_STRING_BYTES \<and> text_with plain_text x" for k x
    using env_name_ascii [of k]
    by (cases x) (auto simp: check_env_item_def text_with_def plain_text_def exc_simps env_name_iff not_less)
  then show ?thesis by (cases v) (auto simp: check_env_def valid_env_def exc_simps list_all_iff not_less)
qed

lemma when_given_iff [exc_simps]:
  "when_given d key check = Inr u \<longleftrightarrow> optional d key (\<lambda>v. check v = Inr ())"
  by (auto simp: when_given_def optional_def split: option.splits)

lemma stdin_iff: "(\<exists>k. decoded_stdin_len b64decode v = Inr k) \<longleftrightarrow> text_with valid_stdin v"
proof -
  have "\<exists>k. k + padding s = 3 * (length s div 4)" if "base64_text s" for s
    using b64decode_text [OF that] by blast
  then show ?thesis by (fastforce simp: decoded_length text_with_def valid_stdin_def)
qed

lemma execution_iff: "semantic_execution_create b64decode v = Inr u \<longleftrightarrow> valid_execution v"
  by (cases v) (auto simp: semantic_execution_create_def valid_execution_def exc_simps stdin_iff [simplified])

lemma sandbox_iff: "semantic_sandbox_create v = Inr u \<longleftrightarrow> valid_sandbox v"
proof -
  have "(case p of (_, value) \<Rightarrow> if value \<noteq> JNull then semantic_decimal value else Inr ()) = Inr () \<longleftrightarrow>
      (case p of (_, x) \<Rightarrow> x = JNull \<or> decimal_in 0 x)" for p :: "pystr \<times> json"
    by (cases p) (simp add: exc_simps)
  then have "check_limits x = Inr () \<longleftrightarrow> valid_limits x" for x
    by (cases x) (simp_all add: check_limits_def valid_limits_def exc_simps list_all_iff)
  moreover have "check_rootfs x = Inr () \<longleftrightarrow> valid_rootfs x" for x
    by (cases x) (auto simp: check_rootfs_def valid_rootfs_def exc_simps Let_def opaque_id_iff text_with_def)
  ultimately show ?thesis
    by (cases v) (auto simp: semantic_sandbox_create_def valid_sandbox_def exc_simps opaque_id_iff image_digest_iff
        text_with_def split: json.splits)
qed

lemma error_iff: "semantic_error_canonical v = Inr u \<longleftrightarrow> valid_error v"
proof -
  have "check_message x = Inr () \<longleftrightarrow> text_with (\<lambda>s. s \<noteq> [] \<and> encodable s \<and> encoded_length s \<le> MAX_STRING_BYTES) x" for x
    by (cases x) (auto simp: check_message_def text_with_def exc_simps)
  then show ?thesis
    by (cases v) (auto simp: semantic_error_canonical_def valid_error_def exc_simps opaque_id_iff text_with_def)
qed

lemma semantic_is_valid_True:
  "semantic_is_valid decode64 key v = Inr True \<longleftrightarrow>
     (\<exists>validator. map_of (SEMANTIC_VALIDATORS decode64) key = Some validator \<and> validator v = Inr ())"
  by (auto simp: semantic_is_valid_def split: option.splits sum.splits lane_exc.splits)

lemma semantic_contract_iff:
  "semantic_is_valid b64decode key v = Inr True \<longleftrightarrow> semantic_contract key v"
proof -
  have "semantic_opaque v = Inr () \<longleftrightarrow> text_with opaque_text v"
    by (simp add: semantic_opaque_def exc_simps opaque_id_iff text_with_def)
  then show ?thesis
    unfolding semantic_is_valid_True semantic_contract_def
    by (auto simp: SEMANTIC_VALIDATORS_def semantic_passthrough_def decimal_iff execution_iff sandbox_iff error_iff
        split: if_splits)
qed

text \<open>
  C12: The semantic stage implements its contract. For every kind of request and every instance the stage
  accepts exactly when the declarative conditions hold: canonical numbers, identifiers, digests, guest
  paths, argument and environment limits in UTF-8 bytes, and decodable bounded standard input.
\<close>

theorem semantic_stage_contract:
  "semantic_is_valid b64decode key v = Inr True \<longleftrightarrow> semantic_contract key v"
  by (rule semantic_contract_iff)

section \<open>The stage decides\<close>

text \<open>Every string of the instance, keys included, has an encoding.\<close>

fun json_encodable :: "json \<Rightarrow> bool" where
  "json_encodable (JStr s) = encodable s"
| "json_encodable (JList xs) = list_all json_encodable xs"
| "json_encodable (JDict d) = list_all (\<lambda>(k, v). encodable k \<and> json_encodable v) d"
| "json_encodable _ = True"

definition semantic_only :: "lane_exc + 'a \<Rightarrow> bool" where
  "semantic_only = raises_only (\<lambda>e. \<exists>m. e = SemanticErr m)"

lemma semantic_only_rules [raises]:
  "semantic_only (Inr x)" "semantic_only (Inl (SemanticErr m))"
  "(b \<Longrightarrow> semantic_only k) \<Longrightarrow> semantic_only (ensure b (SemanticErr m) k)"
  "semantic_only r \<Longrightarrow> (\<And>x. r = Inr x \<Longrightarrow> semantic_only (f x)) \<Longrightarrow> semantic_only (ebind r f)"
  unfolding semantic_only_def by (auto simp: raises_only_def ensure_Inl ebind_Inl)

lemma semantic_only_eall [raises]: "(\<And>x. x \<in> set xs \<Longrightarrow> semantic_only (g x)) \<Longrightarrow> semantic_only (eall g xs)"
  unfolding semantic_only_def by (rule raises_only_eall)

lemma semantic_only_demand [raises]: "semantic_only c \<Longrightarrow> semantic_only (demand c what)"
  unfolding demand_def by (intro raises)

lemma json_encodable_field:
  assumes "json_encodable (JDict d)"
  shows "json_encodable (field d key)" "map_of d (py key) = Some v \<Longrightarrow> json_encodable v"
proof -
  show v: "json_encodable v" if "map_of d (py key) = Some v" for v
    using map_of_SomeD [OF that] assms by (auto simp: list_all_iff)
  then show "json_encodable (field d key)" by (auto simp: field_def split: option.splits)
qed

lemma semantic_only_encode [raises]:
  "encodable s \<Longrightarrow> semantic_only (utf8_encode s)" "encodable s \<Longrightarrow> semantic_only (utf8_bytes s)"
  by (auto simp: utf8_encode_def utf8_bytes_def encodable_def intro: raises)

lemma semantic_only_decimal [raises]:
  "semantic_only (parse_decimal_u64 v)" "semantic_only (semantic_decimal v)" "semantic_only (semantic_generation v)"
proof -
  have step: "semantic_only (decimal_step a c)" for a c
    unfolding decimal_step_def Let_def DECIMAL_def by (intro raises)
  have "semantic_only (efold decimal_step a s)" for a s
    by (induction s arbitrary: a) (auto intro!: raises step)
  then show p: "semantic_only (parse_decimal_u64 v)" for v
    unfolding parse_decimal_u64_def DECIMAL_def by (cases v) (auto intro!: raises)
  show "semantic_only (semantic_decimal v)" "semantic_only (semantic_generation v)"
    unfolding semantic_decimal_def semantic_generation_def by (intro raises p)+
qed

lemma semantic_only_text [raises]:
  assumes "json_encodable v"
  shows "semantic_only (is_opaque_id v)" "semantic_only (is_guest_path v)" "semantic_only (is_env_name v)"
  using assms unfolding is_opaque_id_def is_guest_path_def is_env_name_def by (cases v; auto intro!: raises)+

lemma semantic_only_stdin [raises]: "semantic_only (decoded_stdin_len b64decode v)"
proof -
  have "semantic_only (case b64decode s of
          Inl e \<Rightarrow> Inl (if e = BinasciiErr then SemanticErr (py ''base64 decode'') else e)
        | Inr raw \<Rightarrow> ensure (\<not> length raw > MAX_STRING_BYTES) (SemanticErr (py ''decoded stdin too large'')) (Inr (length raw)))"
    if "base64_text s" for s
    using b64decode_text [OF that] by (auto intro!: raises)
  then show ?thesis
    unfolding decoded_stdin_len_def using standard_base64_iff by (cases v) (auto intro!: raises)
qed

lemma semantic_only_when [raises]:
  "json_encodable (JDict d) \<Longrightarrow> (\<And>v. json_encodable v \<Longrightarrow> semantic_only (check v)) \<Longrightarrow> semantic_only (when_given d key check)"
  unfolding when_given_def using json_encodable_field(2) [of d key] by (auto split: option.split intro: raises)

lemma semantic_only_members [raises]:
  assumes "json_encodable v"
  shows "semantic_only (check_argv v)" "semantic_only (check_cwd v)" "semantic_only (check_env v)" "semantic_only (check_rootfs v)"
    "semantic_only (check_message v)"
proof -
  have arg: "semantic_only (check_arg a)" if "json_encodable a" for a
    using that unfolding check_arg_def by (cases a) (auto intro!: raises)
  have item: "semantic_only (check_env_item (k, x))" if "encodable k" "json_encodable x" for k x
    using that unfolding check_env_item_def by (cases x) (auto intro!: raises)
  show "semantic_only (check_argv v)" "semantic_only (check_message v)"
    using assms unfolding check_argv_def check_message_def by (cases v; auto intro!: raises arg simp: list_all_iff)+
  show "semantic_only (check_env v)"
    using assms unfolding check_env_def by (cases v) (auto intro!: raises item simp: list_all_iff)
  show "semantic_only (check_cwd v)"
    using assms unfolding check_cwd_def
    by (cases v) (auto intro!: raises simp: demand_Inr guest_path_accepts)
  show "semantic_only (check_rootfs v)"
    using assms json_encodable_field unfolding check_rootfs_def Let_def by (cases v) (auto intro!: raises)
qed

lemma semantic_only_limits [raises]: "semantic_only (check_limits v)"
  unfolding check_limits_def by (cases v) (auto intro!: raises)

lemma semantic_only_validators:
  assumes "json_encodable v" "map_of (SEMANTIC_VALIDATORS b64decode) key = Some validator"
  shows "semantic_only (validator v)"
proof -
  have e: "semantic_only (semantic_execution_create b64decode v)"
    using assms(1) json_encodable_field unfolding semantic_execution_create_def by (cases v) (auto intro!: raises)
  have s: "semantic_only (semantic_sandbox_create v)"
  proof (cases v)
    case (JDict d)
    with assms(1) have f: "json_encodable (field d key)" for key using json_encodable_field by blast
    have "json_encodable (field pinned key)" if "field d ''image'' = JDict pinned" for pinned key
      using f [of "''image''"] that json_encodable_field by simp
    then show ?thesis
      unfolding semantic_sandbox_create_def using JDict assms(1) json_encodable_field
      by (auto split: json.split intro!: raises)
  qed (auto simp: semantic_sandbox_create_def intro: raises)
  have c: "semantic_only (semantic_error_canonical v)"
    using assms(1) json_encodable_field unfolding semantic_error_canonical_def by (cases v) (auto intro!: raises)
  have "semantic_only (semantic_opaque v)" unfolding semantic_opaque_def using assms(1) by (intro raises)
  with e s c assms(2) show ?thesis
    by (auto simp: SEMANTIC_VALIDATORS_def semantic_passthrough_def split: if_splits intro: raises)
qed

lemma semantic_returns:
  assumes "json_encodable v" "map_of (SEMANTIC_VALIDATORS b64decode) key \<noteq> None"
  shows "\<exists>b. semantic_is_valid b64decode key v = Inr b"
proof -
  obtain validator where v: "map_of (SEMANTIC_VALIDATORS b64decode) key = Some validator" using assms(2) by blast
  from semantic_only_validators [OF assms(1) v] v show ?thesis
    by (auto simp: semantic_is_valid_def semantic_only_def raises_only_def split: sum.splits lane_exc.splits)
qed

text \<open>
  C26: The semantic stage decides. If it raises, then either some string of the instance contains a lone
  surrogate, which has no UTF-8 encoding, or the kind of request has no validator; no instance whose text
  can be encoded makes the stage, its decoder included, raise anything.
\<close>

theorem semantic_stage_decides:
  assumes "semantic_is_valid b64decode key v = Inl e"
  shows "e = LaneFail NoSemanticValidator \<and> map_of (SEMANTIC_VALIDATORS b64decode) key = None \<or> \<not> json_encodable v"
proof (cases "map_of (SEMANTIC_VALIDATORS b64decode) key")
  case (Some validator)
  with assms semantic_returns [of v key] show ?thesis by auto
qed (use assms in \<open>simp add: semantic_is_valid_def\<close>)

text \<open>The string of the one code point U+D800.\<close>

theorem semantic_stage_decides_witness:
  "semantic_is_valid b64decode (py ''opaque-id'') (JStr [Wide 0xD700]) = Inl EncodeErr \<and>
     \<not> json_encodable (JStr [Wide 0xD700])"
proof -
  have e: "semantic_is_valid b64decode (py ''opaque-id'') (JStr [Wide 0xD700]) = Inl EncodeErr"
    by (simp add: semantic_is_valid_def SEMANTIC_VALIDATORS_def semantic_opaque_def demand_def is_opaque_id_def
        utf8_encode_def is_surrogate_def)
  with semantic_stage_decides [OF e] show ?thesis by simp
qed

end
