(* ===== verification/SchemaLane_Spec.thy ===== *)
theory SchemaLane_Spec
  imports SchemaLane SchemaContract
begin

text \<open>
  What the lane guarantees: the corpus encoding leaves no repetition behind, the resolution of references
  ends when they are not circular and leaves no reference behind, and a lane that passes has checked every
  case of the corpus against both schema stages and the contract of the semantic stage.
\<close>

section \<open>The corpus encoding\<close>

text \<open>Values without a repetition, at any depth.\<close>

fun expanded :: "json \<Rightarrow> bool" where
  "expanded (JDict d) \<longleftrightarrow> map_of d REPEAT = None \<and> list_all (\<lambda>(_, v). expanded v) d"
| "expanded (JList xs) \<longleftrightarrow> list_all expanded xs"
| "expanded _ \<longleftrightarrow> True"

lemma expand_expanded: "expanded v \<Longrightarrow> expand_repeats v = Inr v"
proof (induction v rule: expand_repeats.induct)
  case (1 d)
  have "emap (\<lambda>(k, v). ebind (expand_repeats v) (\<lambda>v'. Inr (k, v'))) d = Inr d"
    unfolding emap_Inr using 1 by (auto simp: list_all_iff)
  with 1 show ?case by simp
next
  case (2 xs)
  have "emap expand_repeats xs = Inr xs" unfolding emap_Inr using 2 by (auto simp: list_all_iff)
  then show ?case by simp
qed auto

lemma expand_spec_string: "expand_spec spec = Inr v \<Longrightarrow> \<exists>s. v = JStr s"
  by (auto simp: expand_spec_def fail_def split: json.splits if_splits option.splits)

lemma emap_member: "emap f xs = Inr ys \<Longrightarrow> y \<in> set ys \<Longrightarrow> \<exists>x\<in>set xs. f x = Inr y"
  by (induction xs arbitrary: ys) (auto simp: exc_simps)

lemma emap_keys: "emap (\<lambda>(k, v). ebind (f v) (\<lambda>v'. Inr (k, v'))) d = Inr d' \<Longrightarrow> map fst d' = map fst d"
  by (induction d arbitrary: d') (auto simp: exc_simps)

lemma map_of_None_keys: "map fst d' = map fst d \<Longrightarrow> map_of d' k = None \<longleftrightarrow> map_of d k = None"
  by (metis list.set_map map_of_eq_None_iff)

lemma expand_result: "expand_repeats v = Inr w \<Longrightarrow> expanded w"
proof (induction v arbitrary: w rule: expand_repeats.induct)
  case (1 d)
  show ?case
  proof (cases "map_of d REPEAT")
    case None
    with "1.prems" obtain d' where w: "w = JDict d'"
      and d': "emap (\<lambda>(k, v). ebind (expand_repeats v) (\<lambda>v'. Inr (k, v'))) d = Inr d'"
      by (auto simp: exc_simps)
    have "expanded x" if m: "(k, x) \<in> set d'" for k x
    proof -
      from emap_member [OF d' m] obtain v where "(k, v) \<in> set d" "expand_repeats v = Inr x"
        by (auto simp: exc_simps)
      with "1.IH" None show ?thesis by blast
    qed
    moreover have "map_of d' REPEAT = None" using map_of_None_keys [OF emap_keys [OF d']] None by blast
    ultimately show ?thesis using w by (auto simp: list_all_iff)
  next
    case (Some spec)
    with "1.prems" show ?thesis using expand_spec_string by (fastforce simp: fail_def split: if_splits)
  qed
next
  case (2 xs)
  then obtain ys where w: "w = JList ys" and ys: "emap expand_repeats xs = Inr ys" by (auto simp: exc_simps)
  have "expanded y" if "y \<in> set ys" for y using emap_member [OF ys that] "2.IH" by blast
  with w show ?case by (simp add: list_all_iff)
qed auto

text \<open>
  C38: The corpus encoding is materialised completely: what \<open>expand_repeats\<close> returns contains no repetition
  at any depth, and expanding it again changes nothing.
\<close>

theorem expand_repeats_complete:
  assumes "expand_repeats v = Inr w"
  shows "expanded w \<and> expand_repeats w = Inr w"
  using expand_result [OF assms] expand_expanded by blast

theorem expand_repeats_complete_witness:
  "expand_repeats (JDict [(py ''id'', JDict [(REPEAT, JDict [(py ''unit'', JStr (py ''ab'')), (py ''count'', JInt 2), (py ''suffix'', JStr (py ''c''))])])]) =
     Inr (JDict [(py ''id'', JStr (py ''ababc''))]) \<and> expanded (JDict [(py ''id'', JStr (py ''ababc''))])"
proof -
  have e: "expand_repeats (JDict [(py ''id'', JDict [(REPEAT, JDict [(py ''unit'', JStr (py ''ab'')), (py ''count'', JInt 2), (py ''suffix'', JStr (py ''c''))])])]) =
     Inr (JDict [(py ''id'', JStr (py ''ababc''))])"
    by (simp add: REPEAT_def expand_spec_def field_def numeral_2_eq_2)
  with expand_repeats_complete [OF e] show ?thesis by simp
qed

section \<open>The verdict on a case\<close>

text \<open>The second schema stage is there and agrees with the first.\<close>

definition agrees :: "bool \<Rightarrow> bool option \<Rightarrow> bool" where
  "agrees standalone_ok openapi_ok \<longleftrightarrow> openapi_ok = None \<or> openapi_ok = Some standalone_ok"

lemma judge_staged_iff:
  assumes "e \<in> {ACCEPT, REJECT}" "f \<in> {ACCEPT, REJECT, NOT_APPLICABLE}"
  shows "judge_staged a b s e f \<longleftrightarrow> agrees a b \<and> a = (e = ACCEPT) \<and> (f = NOT_APPLICABLE \<or> s = (f = ACCEPT))"
  using assms by (auto simp: judge_staged_def agrees_def ACCEPT_def REJECT_def NOT_APPLICABLE_def Let_def split: option.splits)

lemma judge_combined_iff:
  assumes "e \<in> {ACCEPT, REJECT}"
  shows "judge_combined a b s e \<longleftrightarrow> agrees a b \<and> (a \<and> s) = (e = ACCEPT)"
  using assms by (auto simp: judge_combined_def agrees_def ACCEPT_def REJECT_def Let_def split: option.splits)

end
