(* ===== verification/SchemaRefs.thy ===== *)
theory SchemaRefs
  imports SchemaLane_Spec
begin

text \<open>
  The resolution of component references in the OpenAPI document: which references a schema can reach, that
  the recursion ends at every depth limit from some point on when references are not circular, and that
  nothing it returns still contains one.
\<close>

section \<open>The references of a schema\<close>

definition members_of :: "json option \<Rightarrow> json list" where
  "members_of v = (case v of Some (JDict p) \<Rightarrow> map snd p | _ \<Rightarrow> [])"

definition elements_of :: "json option \<Rightarrow> json list" where
  "elements_of v = (case v of Some x \<Rightarrow> (case jiter x of Inr xs \<Rightarrow> xs | Inl e \<Rightarrow> []) | None \<Rightarrow> [])"

definition SINGLE_KEYS :: "string list" where
  "SINGLE_KEYS = [''additionalProperties'', ''propertyNames'', ''items'']"

text \<open>The sub-schemas at the five positions the resolution visits.\<close>

definition parts :: "(pystr \<times> json) list \<Rightarrow> json list" where
  "parts d = members_of (map_of d (py ''properties'')) @
     concat (map (\<lambda>key. case map_of d (py key) of Some v \<Rightarrow> [v] | None \<Rightarrow> []) SINGLE_KEYS) @
     elements_of (map_of d (py ''allOf''))"

lemma size_item: "(k, v) \<in> set d \<Longrightarrow> size v < size (JDict d)"
  by (induction d) auto

lemma size_map_of: "map_of d k = Some v \<Longrightarrow> size v < size (JDict d)"
  by (rule size_item) (rule map_of_SomeD)

lemma size_elements: "x \<in> set (elements_of (Some v)) \<Longrightarrow> size x \<le> size v"
  by (cases v) (auto simp: elements_of_def jiter_def dest!: size_element size_value)

lemma size_parts [termination_simp]: "c \<in> set (parts d) \<Longrightarrow> size c < size (JDict d)"
proof -
  assume "c \<in> set (parts d)"
  then have "c \<in> set (members_of (map_of d (py ''properties''))) \<or> (\<exists>key. map_of d (py key) = Some c) \<or>
      c \<in> set (elements_of (map_of d (py ''allOf'')))"
    unfolding parts_def by (auto split: option.splits)
  then consider p where "map_of d (py ''properties'') = Some (JDict p)" "c \<in> snd ` set p"
    | key where "map_of d (py key) = Some c"
    | v where "map_of d (py ''allOf'') = Some v" "c \<in> set (elements_of (Some v))"
    by (cases "map_of d (py ''properties'')"; cases "map_of d (py ''allOf'')")
       (auto simp: members_of_def elements_of_def split: json.splits simp del: list.map(2))
  then show ?thesis
  proof cases
    case (1 p)
    then obtain k where "(k, c) \<in> set p" by auto
    then have "size c < size (JDict p)" by (rule size_item)
    with size_map_of [OF 1(1)] show ?thesis by simp
  next
    case 2
    then show ?thesis by (rule size_map_of)
  next
    case (3 v)
    with size_elements size_map_of [OF 3(1)] show ?thesis by (meson le_less_trans)
  qed
qed

function refs :: "json \<Rightarrow> pystr set" where
  "refs (JDict d) = (case component_ref (JDict d) of Some n \<Rightarrow> {n} | None \<Rightarrow> (\<Union>c\<in>set (parts d). refs c))"
| "refs JNull = {}" | "refs (JBool b) = {}" | "refs (JInt i) = {}" | "refs (JFloat q) = {}" | "refs (JStr s) = {}"
| "refs (JList xs) = {}"
  by pat_completeness auto
termination
  by (relation "measure size") (use size_parts in auto)

section \<open>Errors of the resolution\<close>

abbreviation too_deep :: "lane_exc + 'a \<Rightarrow> bool" where "too_deep m \<equiv> m = Inl RECURSION_ERROR"

lemma error_names [simp]:
  "ATTRIBUTE_ERROR \<noteq> RECURSION_ERROR" "KEY_ERROR \<noteq> RECURSION_ERROR" "TYPE_ERROR \<noteq> RECURSION_ERROR"
  "RECURSION_ERROR \<noteq> ATTRIBUTE_ERROR" "RECURSION_ERROR \<noteq> KEY_ERROR" "RECURSION_ERROR \<noteq> TYPE_ERROR"
  by (simp_all add: ATTRIBUTE_ERROR_def KEY_ERROR_def TYPE_ERROR_def RECURSION_ERROR_def)

lemma access_not_deep [simp]:
  "\<not> too_deep (jget_or d x k)" "\<not> too_deep (jitem x k)" "\<not> too_deep (jitems x)" "\<not> too_deep (jiter x)"
  by (auto simp: jget_or_def jitem_def jitems_def jiter_def split: json.splits option.splits)

lemma in_dict_deep: "too_deep (in_dict f v) \<Longrightarrow> too_deep (f v)"
  by (simp add: in_dict_def split: if_splits)

lemma in_members_deep: "too_deep (in_members f v) \<Longrightarrow> \<exists>c\<in>set (members_of (Some v)). too_deep (f c)"
  unfolding in_members_def members_of_def
  by (cases v) (force simp: jitems_def ebind_Inl dest!: emap_Inl in_dict_deep)+

lemma in_elements_deep: "too_deep (in_elements f v) \<Longrightarrow> \<exists>c\<in>set (elements_of (Some v)). too_deep (f c)"
  unfolding in_elements_def elements_of_def
  by (cases "jiter v") (use access_not_deep(4) [of v] in \<open>auto simp: ebind_Inl dest!: emap_Inl in_dict_deep\<close>)

lemma rewrite_deep: "too_deep (rewrite key f d out) \<Longrightarrow> \<exists>v. map_of d (py key) = Some v \<and> too_deep (f v)"
  by (auto simp: rewrite_def ebind_Inl split: option.splits)

lemma resolve_deep:
  assumes "too_deep (resolve_step f schemas (JDict d))" "component_ref (JDict d) = None"
  shows "\<exists>c\<in>set (parts d). too_deep (f c)"
proof -
  have "\<exists>out. too_deep (rewrite ''properties'' (in_members f) d out) \<or>
      too_deep (rewrite ''additionalProperties'' (in_dict f) d out) \<or>
      too_deep (rewrite ''propertyNames'' (in_dict f) d out) \<or>
      too_deep (rewrite ''items'' (in_dict f) d out) \<or>
      too_deep (rewrite ''allOf'' (in_elements f) d out)"
    using assms by (auto simp: resolve_step_def ebind_Inl)
  then show ?thesis
    unfolding parts_def SINGLE_KEYS_def
    by (auto dest!: rewrite_deep in_members_deep in_elements_deep in_dict_deep simp del: list.map(2))
qed

section \<open>The resolution ends\<close>

text \<open>References point to components of smaller rank, so they are not circular.\<close>

definition ranked :: "(pystr \<Rightarrow> nat) \<Rightarrow> (pystr \<times> json) list \<Rightarrow> bool" where
  "ranked rank components \<longleftrightarrow>
     (\<forall>n s. map_of components n = Some s \<longrightarrow> (\<forall>m\<in>refs s. rank m < rank n))"

text \<open>From some depth limit on there is no recursion error.\<close>

definition settles :: "(pystr \<times> json) list \<Rightarrow> json \<Rightarrow> bool" where
  "settles components v \<longleftrightarrow> (\<exists>k. \<forall>depth\<ge>k. \<not> too_deep (resolve_openapi depth (JDict components) v))"

lemma settlesI: "(\<And>depth. k \<le> depth \<Longrightarrow> \<not> too_deep (resolve_openapi depth (JDict components) v)) \<Longrightarrow> settles components v"
  by (auto simp: settles_def)

lemma settles_list:
  assumes "\<forall>c\<in>set cs. settles components c"
  shows "\<exists>k. \<forall>depth\<ge>k. \<forall>c\<in>set cs. \<not> too_deep (resolve_openapi depth (JDict components) c)"
  using assms
proof (induction cs)
  case (Cons c cs)
  then obtain k k' where "\<forall>depth\<ge>k. \<not> too_deep (resolve_openapi depth (JDict components) c)"
    "\<forall>depth\<ge>k'. \<forall>c\<in>set cs. \<not> too_deep (resolve_openapi depth (JDict components) c)"
    by (auto simp: settles_def)
  then show ?case by (intro exI [of _ "max k k'"]) auto
qed simp

lemma settles_Suc:
  assumes "\<And>depth. k \<le> depth \<Longrightarrow> \<not> too_deep (resolve_openapi (Suc depth) (JDict components) v)"
  shows "settles components v"
proof (rule settlesI [of "Suc k"])
  fix depth assume "Suc k \<le> depth"
  then obtain m where "depth = Suc m" "k \<le> m" by (metis Suc_le_D Suc_le_mono)
  with assms [of m] show "\<not> too_deep (resolve_openapi depth (JDict components) v)" by simp
qed

lemma settles_schema:
  assumes "\<And>n s. n \<in> refs v \<Longrightarrow> map_of components n = Some s \<Longrightarrow> settles components s"
  shows "settles components v"
  using assms
proof (induction "size v" arbitrary: v rule: less_induct)
  case less
  show ?case
  proof (cases "\<exists>d. v = JDict d")
    case False
    then show ?thesis by (intro settles_Suc [of 0]) (auto simp: resolve_step_def split: json.splits)
  next
    case True
    then obtain d where d: "v = JDict d" by blast
    show ?thesis
    proof (cases "component_ref v")
      case (Some n)
      show ?thesis
      proof (cases "map_of components n")
        case (Some s)
        have "settles components s" using less.prems [of n s] Some \<open>component_ref v = Some n\<close> d by simp
        then obtain k where "\<forall>depth\<ge>k. \<not> too_deep (resolve_openapi depth (JDict components) s)" by (auto simp: settles_def)
        then show ?thesis
          using d \<open>component_ref v = Some n\<close> Some by (intro settles_Suc [of k]) (auto simp: resolve_step_def jitem_def)
      qed (use d Some in \<open>intro settles_Suc [of 0]; auto simp: resolve_step_def jitem_def\<close>)
    next
      case None
      have "settles components c" if c: "c \<in> set (parts d)" for c
      proof (rule less.hyps)
        show "size c < size v" using size_parts [OF c] d by simp
        show "settles components s" if "n \<in> refs c" "map_of components n = Some s" for n s
          using less.prems [of n s] that c None d by auto
      qed
      then obtain k where k: "\<forall>depth\<ge>k. \<forall>c\<in>set (parts d). \<not> too_deep (resolve_openapi depth (JDict components) c)"
        using settles_list by blast
      have "\<not> too_deep (resolve_openapi (Suc depth) (JDict components) (JDict d))" if "k \<le> depth" for depth
        using resolve_deep [of "resolve_openapi depth (JDict components)" "JDict components" d] None d k that by auto
      then show ?thesis unfolding d by (rule settles_Suc)
    qed
  qed
qed

lemma settles_component:
  assumes "ranked rank components"
  shows "map_of components n = Some s \<Longrightarrow> settles components s"
proof (induction "rank n" arbitrary: n s rule: less_induct)
  case less
  show ?case
  proof (rule settles_schema)
    fix m t assume m: "m \<in> refs s" and t: "map_of components m = Some t"
    have "rank m < rank n" using assms less.prems m by (auto simp: ranked_def)
    from less.hyps [OF this t] show "settles components t" .
  qed
qed

section \<open>Deeper limits change nothing\<close>

definition refines_deep :: "(json \<Rightarrow> lane_exc + json) \<Rightarrow> (json \<Rightarrow> lane_exc + json) \<Rightarrow> bool" where
  "refines_deep f g \<longleftrightarrow> (\<forall>v. \<not> too_deep (f v) \<longrightarrow> g v = f v)"

lemma deep_ebind: "\<not> too_deep (ebind m h) \<Longrightarrow> \<not> too_deep m \<and> (\<forall>x. m = Inr x \<longrightarrow> \<not> too_deep (h x))"
  by (auto simp: ebind_Inl)

lemma ebind_same:
  "\<not> too_deep (ebind m h) \<Longrightarrow> (\<not> too_deep m \<Longrightarrow> m' = m) \<Longrightarrow> (\<And>x. m = Inr x \<Longrightarrow> \<not> too_deep (h x) \<Longrightarrow> h' x = h x) \<Longrightarrow>
     ebind m' h' = ebind m h"
  by (cases m) auto

lemma emap_same:
  "\<not> too_deep (emap f xs) \<Longrightarrow> (\<And>x. \<not> too_deep (f x) \<Longrightarrow> g x = f x) \<Longrightarrow> emap g xs = emap f xs"
proof (induction xs)
  case (Cons x xs)
  then show ?case by (simp, intro ebind_same) auto
qed simp

lemma refines_positions:
  assumes "refines_deep f g"
  shows "refines_deep (in_dict f) (in_dict g)" "refines_deep (in_members f) (in_members g)" "refines_deep (in_elements f) (in_elements g)"
proof -
  show d: "refines_deep (in_dict f) (in_dict g)" using assms by (auto simp: refines_deep_def in_dict_def)
  have dd: "\<not> too_deep (in_dict f x) \<Longrightarrow> in_dict g x = in_dict f x" for x using d by (simp add: refines_deep_def)
  have members: "\<not> too_deep (case p of (k, x) \<Rightarrow> ebind (in_dict f x) (\<lambda>y. Inr (k, y))) \<Longrightarrow>
      (case p of (k, x) \<Rightarrow> ebind (in_dict g x) (\<lambda>y. Inr (k, y))) = (case p of (k, x) \<Rightarrow> ebind (in_dict f x) (\<lambda>y. Inr (k, y)))"
    for p :: "pystr \<times> json"
    using dd by (cases p) (auto dest: deep_ebind)
  show "refines_deep (in_members f) (in_members g)"
    unfolding refines_deep_def in_members_def
    by (auto intro!: ebind_same emap_same members dd dest: deep_ebind)
  show "refines_deep (in_elements f) (in_elements g)"
    unfolding refines_deep_def in_elements_def
    by (auto intro!: ebind_same emap_same dd dest: deep_ebind)
qed

lemma rewrite_same:
  "refines_deep f g \<Longrightarrow> \<not> too_deep (rewrite key f d out) \<Longrightarrow> rewrite key g d out = rewrite key f d out"
  by (auto simp: rewrite_def refines_deep_def dest: deep_ebind split: option.splits)

lemma refines_step:
  assumes "refines_deep f g"
  shows "refines_deep (resolve_step f schemas) (resolve_step g schemas)"
proof -
  note p = refines_positions [OF assms]
  have "resolve_step g schemas v = resolve_step f schemas v" if n: "\<not> too_deep (resolve_step f schemas v)" for v
  proof (cases v)
    case (JDict d)
    show ?thesis
    proof (cases "component_ref v")
      case (Some name)
      with n JDict assms show ?thesis by (auto simp: resolve_step_def refines_deep_def ebind_def split: sum.splits)
    next
      case None
      with n JDict show ?thesis
        unfolding resolve_step_def
        by (auto intro!: ebind_same rewrite_same [OF p(1)] rewrite_same [OF p(2)] rewrite_same [OF p(3)])
    qed
  qed (simp_all add: resolve_step_def)
  then show ?thesis by (simp add: refines_deep_def)
qed

lemma resolve_Suc: "refines_deep (resolve_openapi depth schemas) (resolve_openapi (Suc depth) schemas)"
proof (induction depth)
  case (Suc depth)
  from refines_step [OF this] show ?case by simp
qed (simp add: refines_deep_def)

lemma resolve_deeper:
  "depth \<le> depth' \<Longrightarrow> \<not> too_deep (resolve_openapi depth schemas v) \<Longrightarrow>
     resolve_openapi depth' schemas v = resolve_openapi depth schemas v"
proof (induction depth' rule: dec_induct)
  case (step m)
  then show ?case using resolve_Suc [of m schemas] by (simp add: refines_deep_def del: resolve_openapi.simps)
qed simp

text \<open>
  C22: The resolution of the OpenAPI document terminates. If the component references are not circular, then
  every schema has one result that is returned for every recursion limit from some point on, and it is not
  a recursion error.
\<close>

theorem resolve_openapi_terminates:
  assumes "ranked rank components"
  shows "\<exists>k r. \<not> too_deep r \<and> (\<forall>depth\<ge>k. resolve_openapi depth (JDict components) schema = r)"
proof -
  have "settles components schema"
    by (rule settles_schema) (rule settles_component [OF assms])
  then obtain k where "\<forall>depth\<ge>k. \<not> too_deep (resolve_openapi depth (JDict components) schema)" by (auto simp: settles_def)
  then show ?thesis
    by (intro exI [of _ k] exI [of _ "resolve_openapi k (JDict components) schema"]) (blast intro: resolve_deeper)
qed

text \<open>\<open>Node\<close> refers to \<open>Leaf\<close>, which refers to nothing.\<close>

definition sample_components :: "(pystr \<times> json) list" where
  "sample_components = [
     (py ''Node'', JDict [(py ''properties'', JDict [(py ''left'', JDict [(py ''$ref'', JStr (py ''#/components/schemas/Leaf''))])])]),
     (py ''Leaf'', JDict [(py ''type'', JStr (py ''string''))])]"

theorem resolve_openapi_terminates_witness:
  "\<exists>k r. \<not> too_deep r \<and> (\<forall>depth\<ge>k. resolve_openapi depth (JDict sample_components) (snd (hd sample_components)) = r)"
proof -
  have "refs (snd (hd sample_components)) = {py ''Leaf''}" "refs (snd (hd (tl sample_components))) = {}"
    by (simp_all add: sample_components_def component_ref_def parts_def members_of_def elements_of_def SINGLE_KEYS_def
        COMPONENT_PREFIX_def starts_with_def after_last_slash_def)
  then have "ranked (\<lambda>n. if n = py ''Node'' then 1 else 0) sample_components"
    by (auto simp: ranked_def sample_components_def split: if_splits)
  from resolve_openapi_terminates [OF this] show ?thesis .
qed

section \<open>Nothing is left to resolve\<close>

lemma map_of_dict_put:
  "map_of (dict_put d key v) k = (if k = key then map_option (\<lambda>_. v) (map_of d key) else map_of d k)"
  by (induction d) (auto simp: dict_put_def)

text \<open>The position \<open>key\<close> of \<open>r\<close> holds what \<open>f\<close> made of the value that \<open>d\<close> has there.\<close>

definition position :: "(pystr \<times> json) list \<Rightarrow> (pystr \<times> json) list \<Rightarrow> string \<Rightarrow> (json \<Rightarrow> lane_exc + json) \<Rightarrow> bool" where
  "position d r key f \<longleftrightarrow>
     (case map_of d (py key) of
        None \<Rightarrow> map_of r (py key) = None
      | Some v \<Rightarrow> (\<exists>v'. f v = Inr v' \<and> map_of r (py key) = Some v'))"

lemma position_keep: "position d r key f \<Longrightarrow> map_of r' (py key) = map_of r (py key) \<Longrightarrow> position d r' key f"
  unfolding position_def by (cases "map_of d (py key)") simp_all

lemma rewrite_position:
  assumes "rewrite key f d r = Inr r'" "map_of r (py key) = map_of d (py key)"
  shows "position d r' key f" "k \<noteq> py key \<Longrightarrow> map_of r' k = map_of r k"
  using assms by (auto simp: rewrite_def position_def exc_simps map_of_dict_put split: option.splits)

lemma resolve_positions:
  assumes "resolve_step f schemas (JDict d) = Inr out" "component_ref (JDict d) = None"
  shows "\<exists>r. out = JDict r \<and> component_ref out = None \<and> position d r ''properties'' (in_members f) \<and>
    (\<forall>key\<in>set SINGLE_KEYS. position d r key (in_dict f)) \<and> position d r ''allOf'' (in_elements f)"
proof -
  obtain r1 r2 r3 r4 r where r: "rewrite ''properties'' (in_members f) d d = Inr r1"
    "rewrite ''additionalProperties'' (in_dict f) d r1 = Inr r2" "rewrite ''propertyNames'' (in_dict f) d r2 = Inr r3"
    "rewrite ''items'' (in_dict f) d r3 = Inr r4" "rewrite ''allOf'' (in_elements f) d r4 = Inr r" "out = JDict r"
    using assms by (auto simp: resolve_step_def exc_simps)
  note p1 = rewrite_position [OF r(1) refl]
  have e2: "map_of r1 (py ''additionalProperties'') = map_of d (py ''additionalProperties'')" by (rule p1(2)) simp
  note p2 = rewrite_position [OF r(2) e2]
  have e3: "map_of r2 (py ''propertyNames'') = map_of d (py ''propertyNames'')" using p1(2) p2(2) by simp
  note p3 = rewrite_position [OF r(3) e3]
  have e4: "map_of r3 (py ''items'') = map_of d (py ''items'')" using p1(2) p2(2) p3(2) by simp
  note p4 = rewrite_position [OF r(4) e4]
  have e5: "map_of r4 (py ''allOf'') = map_of d (py ''allOf'')" using p1(2) p2(2) p3(2) p4(2) by simp
  note p5 = rewrite_position [OF r(5) e5]
  have "map_of r (py ''$ref'') = map_of d (py ''$ref'')" using p1(2) p2(2) p3(2) p4(2) p5(2) by simp
  then have "component_ref out = None" using assms(2) r(6) by (simp add: component_ref_def)
  moreover have k: "map_of r (py ''properties'') = map_of r1 (py ''properties'')"
    "map_of r (py ''additionalProperties'') = map_of r2 (py ''additionalProperties'')"
    "map_of r (py ''propertyNames'') = map_of r3 (py ''propertyNames'')" "map_of r (py ''items'') = map_of r4 (py ''items'')"
    using p2(2) p3(2) p4(2) p5(2) by simp_all
  moreover note position_keep [OF p1(1) k(1)] position_keep [OF p2(1) k(2)] position_keep [OF p3(1) k(3)] position_keep [OF p4(1) k(4)]
  ultimately show ?thesis using p5(1) r(6) unfolding SINGLE_KEYS_def by (intro exI [of _ r]) (simp del: list.map(2))
qed

lemma refs_other: "\<not> is_dict v \<Longrightarrow> refs v = {}"
  by (cases v) auto

definition ref_free :: "(json \<Rightarrow> lane_exc + json) \<Rightarrow> bool" where
  "ref_free f \<longleftrightarrow> (\<forall>v w. f v = Inr w \<longrightarrow> refs w = {})"

lemma in_dict_refs: "ref_free f \<Longrightarrow> in_dict f v = Inr w \<Longrightarrow> refs w = {}"
  by (auto simp: in_dict_def refs_other ref_free_def split: if_splits)

lemma in_members_refs:
  assumes "ref_free f" "in_members f v = Inr w" "c \<in> set (members_of (Some w))"
  shows "refs c = {}"
proof -
  from assms(2) obtain items items' where w: "w = JDict items'"
    and m: "emap (\<lambda>(k, x). ebind (in_dict f x) (\<lambda>y. Inr (k, y))) items = Inr items'"
    by (auto simp: in_members_def exc_simps)
  from assms(3) w obtain k where "(k, c) \<in> set items'" by (auto simp: members_of_def)
  from emap_member [OF m this] show ?thesis using in_dict_refs [OF assms(1)] by (auto simp: exc_simps)
qed

lemma in_elements_refs:
  assumes "ref_free f" "in_elements f v = Inr w" "c \<in> set (elements_of (Some w))"
  shows "refs c = {}"
proof -
  from assms(2) obtain xs ys where w: "w = JList ys" and m: "emap (in_dict f) xs = Inr ys"
    by (auto simp: in_elements_def exc_simps)
  from assms(3) w have "c \<in> set ys" by (simp add: elements_of_def jiter_def)
  from emap_member [OF m this] show ?thesis using in_dict_refs [OF assms(1)] by blast
qed

lemma resolve_step_refs:
  assumes f: "ref_free f" and r: "resolve_step f schemas v = Inr w"
  shows "refs w = {}"
proof (cases v)
  case (JDict d)
  show ?thesis
  proof (cases "component_ref v")
    case (Some name)
    with r JDict f show ?thesis by (auto simp: resolve_step_def ref_free_def exc_simps)
  next
    case None
    with resolve_positions r JDict obtain o' where o': "w = JDict o'" "component_ref w = None"
      "position d o' ''properties'' (in_members f)" "\<forall>key\<in>set SINGLE_KEYS. position d o' key (in_dict f)"
      "position d o' ''allOf'' (in_elements f)"
      by blast
    have "refs c = {}" if c: "c \<in> set (parts o')" for c
    proof -
      from c consider "c \<in> set (members_of (map_of o' (py ''properties'')))"
        | key where "key \<in> set SINGLE_KEYS" "map_of o' (py key) = Some c"
        | "c \<in> set (elements_of (map_of o' (py ''allOf'')))"
        unfolding parts_def by (auto split: option.splits)
      then show ?thesis
      proof cases
        case 1
        then obtain p where "map_of o' (py ''properties'') = Some p" "c \<in> set (members_of (Some p))"
          by (cases "map_of o' (py ''properties'')") (auto simp: members_of_def)
        with o'(3) in_members_refs [OF f] show ?thesis
          unfolding position_def by (cases "map_of d (py ''properties'')") (auto simp del: list.map(2))
      next
        case 2
        with o'(4) in_dict_refs [OF f] show ?thesis
          unfolding position_def by (cases "map_of d (py key)") (auto simp del: list.map(2))
      next
        case 3
        then obtain p where "map_of o' (py ''allOf'') = Some p" "c \<in> set (elements_of (Some p))"
          by (cases "map_of o' (py ''allOf'')") (auto simp: elements_of_def)
        with o'(5) in_elements_refs [OF f] show ?thesis
          unfolding position_def by (cases "map_of d (py ''allOf'')") (auto simp del: list.map(2))
      qed
    qed
    with o' show ?thesis by simp
  qed
qed (use r in \<open>auto simp: resolve_step_def\<close>)

text \<open>
  C39: What the resolution returns is free of component references: at none of the positions it visits, at
  any depth, is one left.
\<close>

theorem resolve_openapi_ref_free:
  assumes "resolve_openapi depth schemas schema = Inr resolved"
  shows "refs resolved = {}"
  using assms
proof (induction depth arbitrary: schema resolved)
  case (Suc depth)
  then show ?case using resolve_step_refs [of "resolve_openapi depth schemas"] by (simp add: ref_free_def)
qed simp

theorem resolve_openapi_ref_free_witness:
  "\<exists>resolved. resolve_openapi 3 (JDict sample_components) (snd (hd sample_components)) = Inr resolved \<and>
     refs (snd (hd sample_components)) \<noteq> {} \<and> refs resolved = {}"
proof -
  have "resolve_openapi 3 (JDict sample_components) (snd (hd sample_components)) =
      Inr (JDict [(py ''properties'', JDict [(py ''left'', JDict [(py ''type'', JStr (py ''string''))])])])" (is "_ = Inr ?r")
    by (simp add: numeral_3_eq_3 sample_components_def resolve_step_def component_ref_def COMPONENT_PREFIX_def starts_with_def
        after_last_slash_def rewrite_def in_members_def in_dict_def jitems_def jitem_def dict_put_def)
  moreover have "refs (snd (hd sample_components)) \<noteq> {}"
    by (simp add: sample_components_def component_ref_def parts_def members_of_def elements_of_def SINGLE_KEYS_def
        COMPONENT_PREFIX_def starts_with_def after_last_slash_def)
  ultimately show ?thesis using resolve_openapi_ref_free by blast
qed

end
