(* ===== verification/SchemaPass.thy ===== *)
theory SchemaPass
  imports SchemaRefs
begin

text \<open>
  What the exit code of the lane says: every case of the corpus was judged by the schema of its kind, by the
  resolved OpenAPI schema of the same kind and by the contract of the semantic stage, and the lane passes
  exactly when all cases are as the corpus expects.
\<close>

section \<open>A case that is as expected\<close>

definition verdict_of :: "bool \<Rightarrow> validation" where
  "verdict_of b = (if b then Accepted else ValidationError)"

text \<open>What a case says about the outcome of the two stages.\<close>

definition expectation :: "(pystr \<times> json) list \<Rightarrow> bool \<Rightarrow> bool \<Rightarrow> bool" where
  "expectation d schema_ok semantic_ok =
    (case explicit_stages d of
       Inl e \<Rightarrow> False
     | Inr None \<Rightarrow> (schema_ok \<and> semantic_ok) = (field d ''expect'' = ACCEPT)
     | Inr (Some (e, f)) \<Rightarrow> schema_ok = (e = ACCEPT) \<and> (f = NOT_APPLICABLE \<or> semantic_ok = (f = ACCEPT)))"

text \<open>The inlined OpenAPI schema for a kind of request, where the document has one.\<close>

definition inlined_schema :: "lane \<Rightarrow> json \<Rightarrow> pystr \<Rightarrow> lane_exc + json option" where
  "inlined_schema l schemas key =
    (case map_of OPENAPI_SCHEMA_NAMES key of
       None \<Rightarrow> Inr None
     | Some name \<Rightarrow>
         ebind (jitem schemas (py name)) (\<lambda>schema.
         ebind (resolve_openapi (l_recursion l) schemas schema) (\<lambda>inlined. Inr (Some inlined))))"

text \<open>Both schema stages give the same verdict, and it and the contract are as the case expects.\<close>

definition case_passes :: "lane \<Rightarrow> store \<Rightarrow> json \<Rightarrow> json \<Rightarrow> bool" where
  "case_passes l st schemas c \<longleftrightarrow> (\<exists>d key file_name standalone inlined v b.
     c = JDict d \<and> map_of d (py ''schema'') = Some (JStr key) \<and>
     map_of SCHEMA_IDS key = Some file_name \<and> store_item st file_name = Inr standalone \<and>
     inlined_schema l schemas key = Inr inlined \<and> load_case_value l d = Inr v \<and>
     l_validate l standalone st v = verdict_of b \<and>
     (case inlined of None \<Rightarrow> True | Some schema \<Rightarrow> l_validate l schema st v = verdict_of b) \<and>
     expectation d b (semantic_contract key v))"

lemma guarded_Inr [exc_simps]: "guarded d f m = Inr x \<longleftrightarrow> m = Inr x"
  by (auto simp: guarded_def fail_def fail_case_def split: option.splits sum.splits lane_exc.splits)

lemma instance_valid_iff [exc_simps]: "instance_is_valid l schema st v = Inr b \<longleftrightarrow> l_validate l schema st v = verdict_of b"
  by (auto simp: instance_is_valid_def verdict_of_def split: validation.splits)

lemma openapi_stage_iff [exc_simps]:
  "openapi_stage l st schemas d key v = Inr b \<longleftrightarrow>
     (\<exists>inlined. inlined_schema l schemas key = Inr inlined \<and>
       (case inlined of
          None \<Rightarrow> b = None
        | Some schema \<Rightarrow> check_schema l schema = Inr () \<and> (\<exists>x. l_validate l schema st v = verdict_of x \<and> b = Some x)))"
  unfolding openapi_stage_def inlined_schema_def
  by (auto simp: exc_simps split: option.splits)

lemma explicit_stages_values:
  "explicit_stages d = Inr (Some (e, f)) \<Longrightarrow> e \<in> {ACCEPT, REJECT} \<and> f \<in> {ACCEPT, REJECT, NOT_APPLICABLE}"
  by (auto simp: explicit_stages_def fail_def Let_def split: if_splits)

lemma verdict_of_inj [simp]: "verdict_of a = verdict_of b \<longleftrightarrow> a = b"
  by (auto simp: verdict_of_def)

lemma semantic_bool:
  "semantic_is_valid b64decode key v = Inr b \<Longrightarrow> b = semantic_contract key v"
  using semantic_contract_iff [of key v] by (cases b) auto

lemma run_case_passes:
  assumes "run_case l st schemas c = Inr ok" "l_decode64 l = b64decode"
  shows "ok \<longleftrightarrow> case_passes l st schemas c"
proof -
  obtain key0 key file_name standalone d v a b s where r: "jitem c (py ''schema'') = Inr key0"
    "schema_id key0 = Inr (key, file_name)"
    "store_item st file_name = Inr standalone" "jitems c = Inr d" "load_case_value l d = Inr v"
    "l_validate l standalone st v = verdict_of a" "openapi_stage l st schemas d key v = Inr b"
    "semantic_is_valid b64decode key v = Inr s" "judge_case d a b s = Inr ok"
    using assms unfolding run_case_def by (auto simp: ebind_Inr guarded_Inr instance_valid_iff simp del: list.map)
  have c: "c = JDict d" using r(4) by (simp add: exc_simps)
  have key: "map_of d (py ''schema'') = Some (JStr key)" "map_of SCHEMA_IDS key = Some file_name"
    using r(1,2) c by (auto simp: exc_simps schema_id_def split: json.splits option.splits simp del: list.map)
  have s: "s = semantic_contract key v" by (rule semantic_bool [OF r(8)])
  from r(7) obtain inlined where inl: "inlined_schema l schemas key = Inr inlined"
    "case inlined of None \<Rightarrow> b = None | Some schema \<Rightarrow> \<exists>x. l_validate l schema st v = verdict_of x \<and> b = Some x"
    by (auto simp: exc_simps split: option.splits)
  have ok: "ok \<longleftrightarrow> agrees a b \<and> expectation d a s"
  proof (cases "explicit_stages d")
    case (Inr stages)
    show ?thesis
    proof (cases stages)
      case None
      with Inr r(9) have "field d ''expect'' \<in> {ACCEPT, REJECT}" "ok = judge_combined a b s (field d ''expect'')"
        by (auto simp: judge_case_def Let_def fail_def fail_case_def split: if_splits option.splits)
      with judge_combined_iff [OF this(1)] Inr None show ?thesis by (simp add: expectation_def)
    next
      case (Some p)
      then obtain e f where p: "stages = Some (e, f)" by (cases p) auto
      with Inr have "e \<in> {ACCEPT, REJECT}" "f \<in> {ACCEPT, REJECT, NOT_APPLICABLE}" using explicit_stages_values by blast+
      from judge_staged_iff [OF this] Inr p r(9) show ?thesis by (simp add: judge_case_def expectation_def)
    qed
  qed (use r(9) in \<open>simp add: judge_case_def\<close>)
  have agree: "agrees a b \<longleftrightarrow> (case inlined of None \<Rightarrow> True | Some schema \<Rightarrow> l_validate l schema st v = verdict_of a)"
    using inl(2) by (auto simp: agrees_def split: option.splits)
  have "case_passes l st schemas c \<longleftrightarrow>
      (case inlined of None \<Rightarrow> True | Some schema \<Rightarrow> l_validate l schema st v = verdict_of a) \<and> expectation d a s"
    unfolding case_passes_def c s by (auto simp: key r(3,5,6) inl(1) simp del: list.map)
  with ok agree show ?thesis by simp
qed

section \<open>The lane\<close>

definition lane_schemas :: "lane \<Rightarrow> lane_exc + json" where
  "lane_schemas l =
    ebind (l_openapi_text l) (\<lambda>text. ebind (l_safe_load l text) (\<lambda>spec. at_path spec [''components'', ''schemas'']))"

definition lane_cases :: "lane \<Rightarrow> lane_exc + json list" where
  "lane_cases l = ebind (l_corpus l) (\<lambda>corpus. ebind (jitem corpus (py ''cases'')) jiter)"

lemma count_cases:
  assumes "efold (count_case l st schemas) (p, f) cs = Inr (p', f')" "l_decode64 l = b64decode"
  shows "f' = f + length (filter (\<lambda>c. \<not> case_passes l st schemas c) cs)"
  using assms(1)
proof (induction cs arbitrary: p f)
  case (Cons c cs)
  then obtain ok where ok: "run_case l st schemas c = Inr ok"
    "efold (count_case l st schemas) (if \<not> ok then (p, f + 1) else (p + 1, f)) cs = Inr (p', f')"
    by (auto simp: count_case_def exc_simps)
  from run_case_passes [OF ok(1) assms(2)] ok(2) show ?case by (auto split: if_splits dest!: Cons.IH)
qed simp

text \<open>
  C11: The exit code of the lane. A run that ends is 0 or 1, and it is 0 exactly when every case of the corpus
  passes: the schema of its kind and the resolved OpenAPI schema give the same verdict on the instance, and
  that verdict and the contract of the semantic stage are what the case expects.
\<close>

theorem schema_lane_verdict:
  assumes "schema_main l = Inr n" "l_decode64 l = b64decode"
  shows "\<exists>st schemas cs. load_store l = Inr st \<and> lane_schemas l = Inr schemas \<and> lane_cases l = Inr cs \<and>
    n \<le> 1 \<and> (n = 0 \<longleftrightarrow> (\<forall>c\<in>set cs. case_passes l st schemas c))"
proof -
  obtain st source spec schemas p f where r: "load_store l = Inr st" "l_openapi_text l = Inr source" "l_safe_load l source = Inr spec"
    "at_path spec [''components'', ''schemas''] = Inr schemas" "run_corpus l st schemas = Inr (p, f)" "n = (if f \<noteq> 0 then 1 else 0)"
    using assms(1) unfolding schema_main_def by (auto simp: exc_simps simp del: list.map)
  then obtain cs where cs: "lane_cases l = Inr cs" "efold (count_case l st schemas) (0, 0) cs = Inr (p, f)"
    by (auto simp: run_corpus_def lane_cases_def exc_simps simp del: list.map)
  from count_cases [OF cs(2) assms(2)] have "f = 0 \<longleftrightarrow> (\<forall>c\<in>set cs. case_passes l st schemas c)"
    by (auto simp: filter_empty_conv)
  with r cs show ?thesis by (auto simp: lane_schemas_def)
qed

section \<open>The lane ends\<close>

text \<open>The checks before the corpus succeed, and leave this store and these OpenAPI components.\<close>

definition preflight :: "lane \<Rightarrow> store \<Rightarrow> json \<Rightarrow> bool" where
  "preflight l st schemas \<longleftrightarrow>
     check_pins l = Inr () \<and> load_store l = Inr st \<and> check_store l st = Inr () \<and>
     (\<exists>source spec. l_openapi_text l = Inr source \<and> l_safe_load l source = Inr spec \<and>
       assert_openapi_security l spec source = Inr () \<and> at_path spec [''components'', ''schemas''] = Inr schemas) \<and>
     check_bounds st schemas = Inr () \<and> check_patterns st schemas = Inr () \<and> check_request_id st schemas = Inr () \<and>
     check_execution st schemas = Inr () \<and> assert_infrastructure_failures l st = Inr ()"

definition decides :: "lane \<Rightarrow> store \<Rightarrow> json \<Rightarrow> json \<Rightarrow> bool" where
  "decides l st v schema \<longleftrightarrow> (\<exists>b. l_validate l schema st v = verdict_of b)"

text \<open>A case with an identifier, a known kind, an instance with an encoding, and an expectation.\<close>

definition judgeable :: "(pystr \<times> json) list \<Rightarrow> bool" where
  "judgeable d \<longleftrightarrow>
     (case explicit_stages d of Inl e \<Rightarrow> False | Inr None \<Rightarrow> field d ''expect'' \<in> {ACCEPT, REJECT} | Inr (Some p) \<Rightarrow> True)"

definition well_posed :: "lane \<Rightarrow> store \<Rightarrow> json \<Rightarrow> json \<Rightarrow> bool" where
  "well_posed l st schemas c \<longleftrightarrow> (\<exists>d key file_name standalone inlined v.
     c = JDict d \<and> map_of d (py ''id'') \<noteq> None \<and> map_of d (py ''schema'') = Some (JStr key) \<and>
     map_of SCHEMA_IDS key = Some file_name \<and> store_item st file_name = Inr standalone \<and>
     inlined_schema l schemas key = Inr inlined \<and> load_case_value l d = Inr v \<and> json_encodable v \<and>
     decides l st v standalone \<and>
     (case inlined of None \<Rightarrow> True | Some schema \<Rightarrow> l_check_schema l schema = Accepted \<and> decides l st v schema) \<and>
     judgeable d)"

lemma schema_kinds: "map_of SCHEMA_IDS key = Some f \<Longrightarrow> map_of (SEMANTIC_VALIDATORS decode64) key \<noteq> None"
  by (auto simp: SCHEMA_IDS_def SEMANTIC_VALIDATORS_def simp del: list.map split: if_splits)

lemma judge_case_total: "judgeable d \<Longrightarrow> \<exists>ok. judge_case d a b s = Inr ok"
  by (auto simp: judgeable_def judge_case_def Let_def split: sum.splits option.splits)

lemma run_case_total:
  assumes "well_posed l st schemas c" "l_decode64 l = b64decode"
  shows "\<exists>ok. run_case l st schemas c = Inr ok"
proof -
  obtain d key file_name standalone inlined v where c: "c = JDict d" "map_of d (py ''schema'') = Some (JStr key)"
    "map_of SCHEMA_IDS key = Some file_name" "store_item st file_name = Inr standalone"
    "inlined_schema l schemas key = Inr inlined" "load_case_value l d = Inr v" "json_encodable v" "judgeable d"
    and a: "decides l st v standalone"
    and b: "case inlined of None \<Rightarrow> True | Some schema \<Rightarrow> l_check_schema l schema = Accepted \<and> decides l st v schema"
    using assms(1) unfolding well_posed_def by blast
  from a obtain x where x: "instance_is_valid l standalone st v = Inr x" by (auto simp: decides_def exc_simps)
  from b c(5) have "\<exists>y. openapi_stage l st schemas d key v = Inr y"
    by (cases inlined) (auto simp: exc_simps decides_def check_schema_def)
  then obtain y where y: "openapi_stage l st schemas d key v = Inr y" ..
  obtain s where s: "semantic_is_valid b64decode key v = Inr s"
    using semantic_returns [OF c(7) schema_kinds [OF c(3)]] by blast
  obtain ok where ok: "judge_case d x y s = Inr ok" using judge_case_total [OF c(8)] by blast
  have k: "jitem c (py ''schema'') = Inr (JStr key)" "schema_id (JStr key) = Inr (key, file_name)" "jitems c = Inr d"
    using c(1-3) by (auto simp: exc_simps schema_id_def simp del: list.map)
  have "run_case l st schemas c = Inr ok"
    unfolding run_case_def by (simp add: k c(4,6) guarded_def x y s assms(2) ok del: list.map)
  then show ?thesis ..
qed

lemma count_cases_total:
  assumes "\<forall>c\<in>set cs. well_posed l st schemas c" "l_decode64 l = b64decode"
  shows "\<exists>counts. efold (count_case l st schemas) pf cs = Inr counts"
  using assms(1)
proof (induction cs arbitrary: pf)
  case (Cons c cs)
  then have wp: "well_posed l st schemas c" by simp
  obtain ok where "run_case l st schemas c = Inr ok" using run_case_total [OF wp assms(2)] ..
  moreover obtain i where "jitem c (py ''id'') = Inr i"
    using wp by (auto simp: well_posed_def jitem_def simp del: list.map)
  ultimately obtain pf' where "count_case l st schemas pf c = Inr pf'"
    by (cases pf) (simp add: count_case_def del: list.map)
  with Cons show ?case by auto
qed simp

text \<open>
  C20: The lane ends with its verdict. If the checks of the documents succeed and every case of the corpus is
  well posed, with validators that decide, then nothing raises: the run reaches the end of the corpus and
  its exit code is 0 when every case passes and 1 otherwise.
\<close>

theorem schema_lane_completes:
  assumes "preflight l st schemas" "lane_cases l = Inr cs" "\<forall>c\<in>set cs. well_posed l st schemas c"
    "l_decode64 l = b64decode"
  shows "schema_main l = Inr (if list_all (case_passes l st schemas) cs then 0 else 1)"
proof -
  obtain p f where pf: "efold (count_case l st schemas) (0, 0) cs = Inr (p, f)"
    using count_cases_total [OF assms(3,4)] by fastforce
  have "run_corpus l st schemas = Inr (p, f)"
    using assms(2) pf by (auto simp: run_corpus_def lane_cases_def exc_simps simp del: list.map)
  then have "schema_main l = Inr (if f \<noteq> 0 then 1 else 0)"
    using assms(1) unfolding schema_main_def preflight_def by (auto simp del: list.map)
  moreover have "f = 0 \<longleftrightarrow> list_all (case_passes l st schemas) cs"
    using count_cases [OF pf assms(4)] by (auto simp: filter_empty_conv list_all_iff)
  ultimately show ?thesis by simp
qed

end
