(* ===== verification/SchemaSample.thy ===== *)
theory SchemaSample
  imports SchemaPass
begin

text \<open>
  A small lane that passes: the documents with the members the static checks ask for, and a corpus of two
  decimal numbers, of which the canonical one is to be accepted and the other to be rejected.
\<close>

definition s_pattern :: json where "s_pattern = JDict [(py ''pattern'', JStr TRUE_END)]"

definition s_props :: "(pystr \<times> json) list \<Rightarrow> json" where
  "s_props ps = JDict [(py ''properties'', JDict ps)]"

definition s_schemas :: json where
  "s_schemas = JDict [
     (py ''DecimalU64'', s_pattern), (py ''Generation'', s_pattern), (py ''OpaqueId'', s_pattern),
     (py ''ImagePin'', s_props [(py ''digest'', s_pattern)]),
     (py ''CanonicalError'', s_props [(py ''request_id'', JDict [(py ''$ref'', JStr (py ''#/components/schemas/OpaqueId''))])]),
     (py ''ExecutionCreate'', s_props [
        (py ''cwd'', JDict [(py ''type'', JStr (py ''string''))]), (py ''timeout_ms'', JDict []),
        (py ''stdin_base64'', JDict []), (py ''env'', JDict []),
        (py ''argv'', JDict [(py ''items'', JDict [])])])]"

definition s_spec :: json where
  "s_spec = JDict ([
     (py ''security'', JList [JDict [(py ''MutualTLS'', JList [])]]),
     (py ''components'', JDict [
        (py ''securitySchemes'', JDict [(py ''MutualTLS'', JDict [])]),
        (py ''schemas'', s_schemas)])] @ map (\<lambda>key. (key, JNull)) TRANSPORT_KEYS)"

definition s_files :: "(pystr \<times> (lane_exc + json)) list" where
  "s_files = [
     (py ''decimal-u64.json'', Inr s_pattern),
     (py ''execution-create.json'', Inr (s_props [
        (py ''cwd'', JDict []), (py ''stdin_base64'', JDict []), (py ''argv'', JDict [(py ''items'', JDict [])])])),
     (py ''generation.json'', Inr s_pattern),
     (py ''opaque-id.json'', Inr s_pattern),
     (py ''sandbox-create.json'', Inr (s_props [(py ''image'', s_props [(py ''digest'', s_pattern)])]))]"

definition s_case :: "string \<Rightarrow> json \<Rightarrow> json" where
  "s_case v e = JDict [(py ''id'', JStr (py v)), (py ''schema'', JStr (py ''decimal-u64'')), (py ''value'', JStr (py v)), (py ''expect'', e)]"

fun the_dict :: "json \<Rightarrow> (pystr \<times> json) list" where
  "the_dict (JDict d) = d"
| "the_dict v = []"

definition s_cases :: "json list" where "s_cases = [s_case ''7'' ACCEPT, s_case ''007'' REJECT]"

definition s_lane :: lane where
  "s_lane = \<lparr>
     l_versions = Some (REQUIRED_JSONSCHEMA, REQUIRED_YAML), l_schema_files = s_files,
     l_check_schema = (\<lambda>s. if s = INVALID_SCHEMA then InfraError (py ''SchemaError'') else Accepted),
     l_validate = (\<lambda>s st v. if s = BROKEN_REF then InfraError (py ''RefResolutionError'') else verdict_of (v = JStr (py ''7''))),
     l_openapi_text = Inr [], l_safe_load = (\<lambda>text. Inr s_spec),
     l_corpus = Inr (JDict [(py ''cases'', JList s_cases)]), l_fixture = (\<lambda>name. Inl KEY_ERROR),
     l_decode64 = b64decode, l_lower = (\<lambda>s. s), l_recursion = 3\<rparr>"

lemma s_lane_fields [simp]:
  "l_versions s_lane = Some (REQUIRED_JSONSCHEMA, REQUIRED_YAML)" "l_schema_files s_lane = s_files"
  "l_openapi_text s_lane = Inr []" "l_safe_load s_lane text = Inr s_spec"
  "l_corpus s_lane = Inr (JDict [(py ''cases'', JList s_cases)])" "l_decode64 s_lane = b64decode" "l_recursion s_lane = 3"
  "l_check_schema s_lane s = (if s = INVALID_SCHEMA then InfraError (py ''SchemaError'') else Accepted)"
  "l_validate s_lane s st v = (if s = BROKEN_REF then InfraError (py ''RefResolutionError'') else verdict_of (v = JStr (py ''7'')))"
  by (simp_all add: s_lane_def)

definition s_store :: store where
  "s_store = map (\<lambda>(name, loaded). (JStr name, projr loaded)) s_files"

lemma s_load: "load_store s_lane = Inr s_store"
  by (simp add: load_store_def s_files_def s_store_def add_schema_def s_pattern_def s_props_def jget_or_def truthy_def Let_def)

lemma s_not_special: "s_pattern \<noteq> INVALID_SCHEMA" "s_props ps \<noteq> INVALID_SCHEMA" "s_pattern \<noteq> BROKEN_REF"
  by (simp_all add: s_pattern_def s_props_def INVALID_SCHEMA_def BROKEN_REF_def)

lemma s_check_store: "check_store s_lane s_store = Inr ()"
  by (simp add: check_store_def s_store_def s_files_def check_schema_def s_not_special)

lemma s_security: "assert_openapi_security s_lane s_spec [] = Inr ()"
  by (simp add: assert_openapi_security_def s_spec_def jget_or_def jin_def jitems_def check_scheme_def TRANSPORT_KEYS_def
      PUBLIC_PATHS_def check_diagnostics_def check_anonymous_def)

lemma s_at_schemas: "at_path s_spec [''components'', ''schemas''] = Inr s_schemas"
  by (simp add: at_path_def s_spec_def jitem_def)

lemma s_store_items:
  "store_item s_store ''decimal-u64.json'' = Inr s_pattern" "store_item s_store ''generation.json'' = Inr s_pattern"
  "store_item s_store ''opaque-id.json'' = Inr s_pattern"
  "store_item s_store ''sandbox-create.json'' = Inr (s_props [(py ''image'', s_props [(py ''digest'', s_pattern)])])"
  "store_item s_store ''execution-create.json'' = Inr (s_props [
        (py ''cwd'', JDict []), (py ''stdin_base64'', JDict []), (py ''argv'', JDict [(py ''items'', JDict [])])])"
  by (simp_all add: store_item_def s_store_def s_files_def)

lemma s_bounds: "check_bounds s_store s_schemas = Inr ()"
  by (simp add: check_bounds_def s_store_items s_schemas_def jitem_def assert_shared_bounds_def BOUND_FIELDS_def jget_or_def
      s_pattern_def)

lemma s_true_end: "assert_true_end_pattern s_pattern name = Inr ()"
proof -
  have "contains TRUE_END TRUE_END" by (simp add: TRUE_END_def starts_with_def)
  then show ?thesis by (simp add: assert_true_end_pattern_def s_pattern_def jget_or_def) (simp add: TRUE_END_def)
qed

lemma s_patterns: "check_patterns s_store s_schemas = Inr ()"
  by (simp add: check_patterns_def s_store_items s_true_end at_path_def jitem_def s_props_def s_schemas_def)

lemma s_request_id: "check_request_id s_store s_schemas = Inr ()"
  by (simp add: check_request_id_def at_path_def jitem_def s_props_def s_schemas_def)

lemma s_execution: "check_execution s_store s_schemas = Inr ()"
  by (simp add: check_execution_def check_cwd_type_def check_nullable_def same_pattern_def s_store_items at_path_def jitem_def
      s_props_def s_schemas_def jget_or_def)

lemma s_infra: "assert_infrastructure_failures s_lane s_store = Inr ()"
  by (simp add: assert_infrastructure_failures_def expect_infra_def assert_decoder_infrastructure_fault_def
      decoded_stdin_len_def is_standard_base64_def base64_char_def less_eq_pychar_def boom_def RUNTIME_ERROR_def)

lemma s_openapi: "openapi_stage s_lane st s_schemas d (py ''decimal-u64'') v = Inr (Some (v = JStr (py ''7'')))"
proof -
  have "jitem s_schemas (py ''DecimalU64'') = Inr s_pattern" by (simp add: jitem_def s_schemas_def)
  moreover have "resolve_openapi 3 s_schemas s_pattern = Inr s_pattern"
    by (simp add: numeral_3_eq_3 resolve_step_def s_pattern_def component_ref_def rewrite_def)
  ultimately show ?thesis
    by (simp add: openapi_stage_def OPENAPI_SCHEMA_NAMES_def check_schema_def s_not_special instance_is_valid_def guarded_def
        verdict_of_def del: list.map)
qed

lemma s_semantic:
  "semantic_is_valid b64decode (py ''decimal-u64'') (JStr (py ''7'')) = Inr True"
  "semantic_is_valid b64decode (py ''decimal-u64'') (JStr (py ''007'')) = Inr False"
  by (simp_all add: semantic_is_valid_def SEMANTIC_VALIDATORS_def semantic_decimal_def parse_decimal_u64_def decimal_step_def
      less_pychar_def U64_MAX_def DECIMAL_def)

lemma s_run:
  "run_case s_lane s_store s_schemas (s_case v e) =
     ebind (guarded (the_dict (s_case v e)) SemanticInfra (semantic_is_valid b64decode (py ''decimal-u64'') (JStr (py v)))) (\<lambda>s.
     Inr (judge_combined (v = ''7'') (Some (v = ''7'')) s e))" if "e \<in> {ACCEPT, REJECT}"
proof -
  have "JStr (py v) = JStr (py ''7'') \<longleftrightarrow> v = ''7''" using inj_map_eq_map [OF inj_Ch] by auto
  moreover have "run_case s_lane s_store s_schemas (s_case v e) =
      ebind (guarded (the_dict (s_case v e)) StandaloneInfra (instance_is_valid s_lane s_pattern s_store (JStr (py v)))) (\<lambda>a.
      ebind (openapi_stage s_lane s_store s_schemas (the_dict (s_case v e)) (py ''decimal-u64'') (JStr (py v))) (\<lambda>b.
      ebind (guarded (the_dict (s_case v e)) SemanticInfra (semantic_is_valid b64decode (py ''decimal-u64'') (JStr (py v)))) (\<lambda>s.
      Inr (judge_combined a b s e))))"
    using that
    by (auto simp: run_case_def s_case_def jitem_def jitems_def schema_id_def SCHEMA_IDS_def s_store_items load_case_value_def
        judge_case_def explicit_stages_def field_def)
  ultimately show ?thesis
    by (simp only: s_openapi) (simp add: instance_is_valid_def s_not_special guarded_def verdict_of_def del: list.map)
qed

lemma s_runs:
  "run_case s_lane s_store s_schemas (s_case ''7'' ACCEPT) = Inr True"
  "run_case s_lane s_store s_schemas (s_case ''007'' REJECT) = Inr True"
proof -
  have "ACCEPT \<noteq> REJECT" by (simp add: ACCEPT_def REJECT_def)
  then show "run_case s_lane s_store s_schemas (s_case ''7'' ACCEPT) = Inr True"
    "run_case s_lane s_store s_schemas (s_case ''007'' REJECT) = Inr True"
    by (simp_all add: s_run s_semantic guarded_def judge_combined_def del: list.map)
qed

lemma jitem_head: "jitem (JDict ((k, v) # d)) k = Inr v"
  by (simp add: jitem_def)

lemma s_case_id: "jitem (s_case v e) (py ''id'') = Inr (JStr (py v))"
  by (simp add: s_case_def jitem_def)

lemma s_corpus: "run_corpus s_lane s_store s_schemas = Inr (2, 0)"
  by (simp add: run_corpus_def jitem_head jiter_def s_cases_def count_case_def s_runs s_case_id del: list.map)

lemma s_main: "schema_main s_lane = Inr 0"
  unfolding schema_main_def
  by (simp add: check_pins_def s_load s_check_store s_security s_at_schemas s_bounds s_patterns s_request_id s_execution
      s_infra s_corpus del: list.map)

theorem schema_lane_verdict_witness:
  "\<exists>st schemas. load_store s_lane = Inr st \<and> list_all (case_passes s_lane st schemas) s_cases"
proof -
  have cs: "lane_cases s_lane = Inr s_cases" by (simp add: lane_cases_def jitem_def jiter_def)
  have "l_decode64 s_lane = b64decode" by simp
  from schema_lane_verdict [OF s_main this] cs show ?thesis by (auto simp: list_all_iff)
qed

lemma s_preflight: "preflight s_lane s_store s_schemas"
  unfolding preflight_def
  by (simp add: check_pins_def s_load s_check_store s_security s_at_schemas s_bounds s_patterns s_request_id s_execution
      s_infra del: list.map)

lemma s_inlined: "inlined_schema s_lane s_schemas (py ''decimal-u64'') = Inr (Some s_pattern)"
proof -
  have "jitem s_schemas (py ''DecimalU64'') = Inr s_pattern" by (simp add: jitem_def s_schemas_def)
  moreover have "resolve_openapi 3 s_schemas s_pattern = Inr s_pattern"
    by (simp add: numeral_3_eq_3 resolve_step_def s_pattern_def component_ref_def rewrite_def)
  ultimately show ?thesis by (simp add: inlined_schema_def OPENAPI_SCHEMA_NAMES_def del: list.map)
qed

lemma s_well_posed: "e \<in> {ACCEPT, REJECT} \<Longrightarrow> encodable (py v) \<Longrightarrow> well_posed s_lane s_store s_schemas (s_case v e)"
  unfolding well_posed_def
  by (rule exI [of _ "the_dict (s_case v e)"], rule exI [of _ "py ''decimal-u64''"], rule exI [of _ "''decimal-u64.json''"],
      rule exI [of _ s_pattern], rule exI [of _ "Some s_pattern"], rule exI [of _ "JStr (py v)"])
     (auto simp: s_inlined [simplified] s_store_items decides_def s_not_special judgeable_def explicit_stages_def field_def s_case_def
       load_case_value_def SCHEMA_IDS_def)

theorem schema_lane_completes_witness: "schema_main s_lane = Inr 0"
proof -
  have cs: "lane_cases s_lane = Inr s_cases" by (simp add: lane_cases_def jitem_head jiter_def del: list.map)
  have wp: "\<forall>c\<in>set s_cases. well_posed s_lane s_store s_schemas c"
    by (auto simp: s_cases_def encodable_def is_surrogate_def intro!: s_well_posed)
  have "l_decode64 s_lane = b64decode" by simp
  from schema_lane_completes [OF s_preflight cs wp this] s_main show ?thesis by simp
qed

end
