(* ===== verification/RunTests.thy ===== *)
theory RunTests
  imports Host
begin

text \<open>
  The regression runner \<open>scripts/qualify-native/run-tests.py\<close>. Its state is what it changes of the
  interpreter: the environment, the module path and the scratch directory made. The suite it discovers and
  runs is the argument \<open>suite\<close>, which sees that state and the directory and pattern of the tests, and
  answers whether it succeeded or what discovering or running it raised.
\<close>

record runner =
  rt_environ :: environ
  rt_path :: "pystr list"
  rt_made :: "pystr list"

definition SCRATCH_VAR :: pystr where "SCRATCH_VAR = py ''QUALIFY_TEST_SCRATCH''"

definition resolved_scratch :: "world \<Rightarrow> pystr \<Rightarrow> pexc + pystr" where
  "resolved_scratch w raw =
    ebind (if \<not> w_is_absolute w raw then ebind (w_cwd w) (\<lambda>cwd. Inr (w_join w cwd raw)) else Inr raw) (w_resolve w)"

definition raw_scratch :: "world \<Rightarrow> pystr \<Rightarrow> environ \<Rightarrow> pystr" where
  "raw_scratch w checkout env =
    (let dflt = w_join w checkout (py ''qualify-native-test-scratch'') in
     case env SCRATCH_VAR of Some r \<Rightarrow> if r \<noteq> [] then r else dflt | None \<Rightarrow> dflt)"

definition prepared :: "pystr \<Rightarrow> pystr \<Rightarrow> runner \<Rightarrow> runner" where
  "prepared here scratch st = st\<lparr>
     rt_made := rt_made st @ [scratch],
     rt_environ := (rt_environ st)(SCRATCH_VAR \<mapsto> scratch, py ''PYTHONDONTWRITEBYTECODE'' \<mapsto> py ''1'',
       py ''PYTHONNOUSERSITE'' \<mapsto> py ''1'', py ''TMP'' \<mapsto> scratch, py ''TEMP'' \<mapsto> scratch, py ''TMPDIR'' \<mapsto> scratch),
     rt_path := here # rt_path st\<rparr>"

text \<open>\<open>makedirs\<close> answers with the exception it raises, if any.\<close>

definition run_tests ::
  "world \<Rightarrow> (pystr \<Rightarrow> pexc option) \<Rightarrow> (runner \<Rightarrow> pystr \<Rightarrow> pystr \<Rightarrow> pexc + bool) \<Rightarrow> pystr \<Rightarrow> pystr \<Rightarrow> runner \<Rightarrow>
   (pexc + int) \<times> runner" where
  "run_tests w makedirs suite here checkout st =
    (case resolved_scratch w (raw_scratch w checkout (rt_environ st)) of
       Inl e \<Rightarrow> (Inl e, st)
     | Inr scratch \<Rightarrow>
         if w_nt w \<and> ascii_upper (w_drive w scratch) \<noteq> py ''D:'' then (Inr 2, st)
         else
           (case makedirs scratch of
              Some e \<Rightarrow> (Inl e, st)
            | None \<Rightarrow>
                (let st' = prepared here scratch st;
                     tests = w_join w (w_join w checkout (py ''tests'')) (py ''native-qualification'') in
                 (map_sum id (\<lambda>ok. if ok then 0 else 1) (suite st' tests (py ''test_*.py'')), st'))))"

section \<open>Containment\<close>

definition scratch_vars :: "pystr set" where
  "scratch_vars = {SCRATCH_VAR, py ''TMP'', py ''TEMP'', py ''TMPDIR''}"
definition python_flags :: "pystr set" where
  "python_flags = {py ''PYTHONDONTWRITEBYTECODE'', py ''PYTHONNOUSERSITE''}"

text \<open>The environment of the suite: four variables name the scratch directory, two flags are set.\<close>

lemma prepared_environ:
  "rt_environ (prepared here scratch st) = (\<lambda>k. if k \<in> scratch_vars then Some scratch
     else if k \<in> python_flags then Some (py ''1'') else rt_environ st k)"
  by (auto simp: prepared_def scratch_vars_def python_flags_def SCRATCH_VAR_def)

lemma run_tests_state:
  assumes "run_tests w makedirs suite here checkout st = (r, st')"
  shows "st' = st \<or> (\<exists>scratch. resolved_scratch w (raw_scratch w checkout (rt_environ st)) = Inr scratch \<and>
    makedirs scratch = None \<and> st' = prepared here scratch st)"
  using assms by (auto simp: run_tests_def Let_def split: sum.splits if_splits option.splits)

lemma run_tests_success:
  assumes "run_tests w makedirs suite here checkout st = (Inr 0, st')"
  shows "suite st' (w_join w (w_join w checkout (py ''tests'')) (py ''native-qualification'')) (py ''test_*.py'') = Inr True"
  using assms by (auto simp: run_tests_def Let_def map_sum_def simp del: list.map split: sum.splits if_splits option.splits)

end
