(* ===== verification/Spec2Isabelle.thy ===== *)
theory Spec2Isabelle
  imports Esp_Verify VM_Witness QualifyVM_Sample SchemaSample RunTests
begin

text \<open>
  A model of the qualification and contract programs of zig-kernel, the Python under \<open>scripts/\<close>, and the
  proofs of what their verdicts mean.

  \<^bold>\<open>The program.\<close> The repository builds a kernel image and a sandbox API in Zig. Whether a build may be called
  qualified is decided by Python programs. \<open>qualify-native/fat16.py\<close> opens the ESP image as a FAT16 volume and
  binds the files in it to external artifacts. \<open>qualify-native/probe.py\<close> boots the image under QEMU in a
  docker container it creates, owns and removes. \<open>qualify-native/transcript.py\<close> and \<open>transcript_vm.py\<close> accept
  or reject the serial transcript of the guest. \<open>qualify-native/qualify.py\<close> and \<open>qualify_vm.py\<close> compose these
  into a run with a verdict, an evidence file and an exit code. \<open>qualify-native/run-tests.py\<close> runs the
  regression suite. \<open>sandbox-schema-validate.py\<close> is the contract lane of the sandbox API: it holds the JSON
  schemas, the OpenAPI document and its own semantic stage against a corpus of requests.

  \<^bold>\<open>Foundations.\<close> \<open>Prelude\<close>: Python strings as lists of code points, bytes as 8-bit words, exceptions as the left
  side of a sum with \<open>ebind\<close>, \<open>ensure\<close>, \<open>emap\<close> and \<open>efold\<close>, slices and decimal text. \<open>PyText\<close>: the \<open>str\<close> methods
  used, and a matcher for the regular expressions of the program. \<open>Host\<close>: actions of a qualification run, which
  read and extend the list of effects attempted so far; a command, a file access or a JSON document is
  answered by a field of the record \<open>world\<close>, which may depend on all earlier effects. Its locale
  \<open>step_relation\<close> says how a relation on run states passes through the combinators; it is interpreted for
  control state, for growth of the report, for views of the report, and for the extension of the trace. \<open>SchemaJson\<close>: JSON values with Python's
  equality and lookup errors, and UTF-8.

  \<^bold>\<open>FAT16 volumes\<close> (\<open>fat16.py\<close>). \<open>Fat16\<close> has the operations: \<open>read_geometry\<close>, \<open>chain\<close>, \<open>short_name\<close>, \<open>walk\<close> and
  \<open>fat16_open\<close>; attributes set once are the record \<open>geom\<close>, those the walk changes the record \<open>vstate\<close>.
  \<open>Fat16_Chains\<close> relates \<open>chain\<close> to FAT chains, \<open>Fat16_Names\<close> treats names, \<open>Fat16_Walk\<close> has the locale
  \<open>walk_invariant\<close> through which a fact about one directory record becomes one about a volume,
  \<open>Fat16_Invariants\<close> and \<open>Fat16_Volume\<close> its instances: allocation, contents, chains, records, paths and
  exceptions. \<open>Fat16_Sample\<close> is a concrete volume. \<open>Esp_Verify\<close> is the binding \<open>verify\<close>; \<open>Esp_Sample\<close> a boot
  image that passes it.

  \<^bold>\<open>Transcripts.\<close> \<open>Transcript\<close> and \<open>Transcript_Spec\<close> (\<open>transcript.py\<close>): a fold over the lines, its locale
  \<open>ordered_stages\<close>, and the equivalence of acceptance with one ordered boot. \<open>VM_Scan\<close>, \<open>VM_Checks\<close> and
  \<open>VM_Cycles\<close> have the operations of \<open>transcript_vm.py\<close>; \<open>VM_Order\<close>, \<open>VM_Positive\<close>, \<open>VM_Semantics\<close> and \<open>VM_Negative\<close>
  what an accepted run is: its exact protocol, isolation, restoration, faults and the negative sequences.
  \<open>VM_Sample\<close>, \<open>VM_Runs\<close>, \<open>VM_Accept\<close> and \<open>VM_Witness\<close> evaluate one accepted transcript of each mode.

  \<^bold>\<open>Runs.\<close> \<open>Probe\<close> and \<open>Probe_Spec\<close> (\<open>probe.py\<close>): the possible docker command sequences, the exceptions, and what
  a run without errors has observed. \<open>Qualify\<close>, \<open>Qualify_Spec\<close> (\<open>qualify.py\<close>) and \<open>QualifyVM\<close>, \<open>QualifyVM_Spec\<close>
  (\<open>qualify_vm.py\<close>): nothing is launched before the binding passed, exit code 0 stands for the whole
  evidence from the copying of the artifacts on, and a negative mode never passes. \<open>Qualify_Sample\<close> and \<open>QualifyVM_Sample\<close> run them on a concrete
  host. This theory ends with the properties that go through all of them, from the exit code of a qualifier to
  the bytes of the image and the lines of the serial log. \<open>RunTests\<close> (\<open>run-tests.py\<close>): the suite runs contained in its scratch directory.

  \<^bold>\<open>The contract lane\<close> (\<open>sandbox-schema-validate.py\<close>). \<open>SchemaSemantic\<close> has the predicates and validators of the
  semantic stage, \<open>SchemaSemantic_Spec\<close> what each accepts, \<open>SchemaContract\<close> the declarative contract for each
  kind of request, the proof that the stage implements it, and that it decides every instance whose text
  can be encoded. \<open>SchemaLane\<close> has the rest of the script up to \<open>main\<close>, \<open>SchemaLane_Spec\<close> the corpus encoding
  and the verdict on a case, \<open>SchemaRefs\<close> the resolution of references, \<open>SchemaPass\<close> the meaning of the exit
  code and the conditions under which the lane reaches it. \<open>SchemaSample\<close> is a lane that passes.

  \<^bold>\<open>Loops and bounds.\<close> Loops are structural, or have a measure: the FAT chain by the clusters not yet claimed,
  the directory walk by its depth limit, the path scan by the bytes left. Only the resolution of references
  can run on, when they are circular. Python ends it at the recursion limit of the interpreter, and so does
  the model: the limit is the field \<open>l_recursion\<close>, and for references that are not circular every limit from
  some point on gives the same result, which is not a recursion error. The recursions on the depth of a
  value (\<open>expand_repeats\<close>, the semantic stage) are not limited, because \<open>json.loads\<close> and \<open>yaml.safe_load\<close>,
  which make the values, recurse at least as deep.

  \<^bold>\<open>The outside.\<close> Docker, the file system, \<open>Path.resolve\<close>, the clock, \<open>uuid\<close>, JSON text, SHA-256, \<open>jsonschema\<close>,
  \<open>yaml\<close>, the Unicode tables of \<open>str.lower\<close>, \<open>repr\<close> and the test suite are arguments of the model. Whatever of them
  can raise answers with a value or any exception: commands, reads and writes, but also \<open>exists\<close>, \<open>is_file\<close>,
  \<open>is_dir\<close>, \<open>resolve\<close> and \<open>cwd\<close>, some of which the program calls outside its \<open>try\<close> blocks. That a file holds
  what was copied to it is not assumed; the properties speak of the copying, and of what is read later. No theorem
  assumes anything about them but that of the lane's verdict, that \<open>base64.b64decode\<close> is the strict decoder of
  the standard library, which is itself modelled as \<open>b64decode\<close>, and that of the lane's completion, that
  \<open>jsonschema\<close> answers.

  \<^bold>\<open>Not modelled.\<close> The parsing of command lines by \<open>argparse\<close>, which fills the record \<open>qargs\<close>; the text printed,
  and values interpolated into the failure messages of the lane; exceptions outside \<open>Exception\<close>, such as an
  interrupt. The limit of 4300 digits on \<open>int\<close> is modelled, because a transcript can reach it. The components
  in Zig (hosted kernel, native kernel, UEFI loader, engine, supervisor, image tools), the TypeScript client
  and the vendored SQLite are programs of their own in other languages; the Python programs see them only as
  bytes of images and transcripts, and they are not part of this development.
\<close>

section \<open>What a qualified run is\<close>

text \<open>The artifacts of a snapshot, with the paths under which the image must hold them.\<close>

definition bound_files :: "pystr \<Rightarrow> (pystr \<times> pystr) list" where
  "bound_files initramfs_path = [(LOADER_PATH, LOADER_NAME), (KERNEL_PATH, KERNEL_NAME), (initramfs_path, INITRAMFS_NAME)]"

text \<open>
  The snapshot is bound in a run that has come to the trace \<open>tr\<close>: at an earlier moment, after which no file was
  copied, the four supplied files had been copied into the inputs of the run, and the ESP image among the
  copies opened as a FAT16 volume that holds each of the other copies byte for byte.
\<close>

definition snapshot_bound :: "world \<Rightarrow> qargs \<Rightarrow> pystr \<Rightarrow> trace \<Rightarrow> bool" where
  "snapshot_bound w q run tr \<longleftrightarrow> (\<exists>before after img g st p.
     tr = before @ after \<and> no_copies after \<and> snapshot_taken w q run before \<and>
     w_read_bytes w before (w_join w (inputs_dir w run) ESP_NAME) = Inr img \<and> fat16_open (w_sha w) img = Inr (g, st) \<and>
     canonical_path (q_initramfs_path q) = Inr p \<and>
     list_all (\<lambda>(logical, name). \<exists>data. w_read_bytes w before (w_join w (inputs_dir w run) name) = Inr data \<and>
       v_files st logical = Some data) (bound_files p))"

text \<open>The serial log of a run.\<close>

definition serial_log :: "world \<Rightarrow> pystr \<Rightarrow> trace \<Rightarrow> pexc + pystr" where
  "serial_log w run tr = w_read_text w tr (w_join w (output_dir w run) (py ''serial.log''))"

lemma pinned_paths: "canonical_path LOADER_PATH = Inr LOADER_PATH" "canonical_path KERNEL_PATH = Inr KERNEL_PATH"
  by code_simp+

lemma host_bound:
  assumes "bound (esp_host w tr) st (path, external) logical" "canonical_path path = Inr path"
  shows "\<exists>data. w_read_bytes w tr external = Inr data \<and> v_files st path = Some data"
  using assms by (auto simp: bound_def read_bounded_Inr esp_host_def map_sum_def split: sum.splits)

lemma bind_esp_snapshot:
  assumes "bind_esp w q run tr = Inr binding" "r_status binding = Pass" "snapshot_taken w q run tr" "no_copies after"
  shows "snapshot_bound w q run (tr @ after)"
proof -
  obtain p volume where p: "canonical_path (q_initramfs_path q) = Inr p"
    and v: "verify (esp_host w tr) (w_join w (inputs_dir w run) ESP_NAME) (expected_artifacts w (inputs_dir w run) p) = Inr (binding, volume)"
    using assms(1) unfolding bind_esp_def
    by (auto simp: map_sum_def exc_simps split: sum.splits)
  from verify_Pass [OF v] assms(2) obtain img g st ps where img: "read_bounded (esp_host w tr) (w_join w (inputs_dir w run) ESP_NAME) = Inr img"
    and op: "fat16_open (h_sha (esp_host w tr)) img = Inr (g, st)"
    and files: "list_all2 (bound (esp_host w tr) st) (expected_artifacts w (inputs_dir w run) p) ps" by blast
  obtain l k i where ps: "bound (esp_host w tr) st (LOADER_PATH, w_join w (inputs_dir w run) LOADER_NAME) l"
    "bound (esp_host w tr) st (KERNEL_PATH, w_join w (inputs_dir w run) KERNEL_NAME) k"
    "bound (esp_host w tr) st (p, w_join w (inputs_dir w run) INITRAMFS_NAME) i"
    using files unfolding expected_artifacts_def by (auto simp: list_all2_Cons1)
  have "list_all (\<lambda>(logical, name). \<exists>data. w_read_bytes w tr (w_join w (inputs_dir w run) name) = Inr data \<and>
       v_files st logical = Some data) (bound_files p)"
    using host_bound [OF ps(1) pinned_paths(1)] host_bound [OF ps(2) pinned_paths(2)]
      host_bound [OF ps(3) canonical_path_idempotent [OF p]]
    by (simp add: bound_files_def)
  moreover have "w_read_bytes w tr (w_join w (inputs_dir w run) ESP_NAME) = Inr img" "fat16_open (w_sha w) img = Inr (g, st)"
    using img op by (auto simp: read_bounded_Inr esp_host_def map_sum_def split: sum.splits)
  ultimately show ?thesis using p assms(3,4) unfolding snapshot_bound_def by blast
qed

lemma serial_at_log:
  "serial_at w tr (w_join w (output_dir w run) (py ''serial.log'')) serial \<Longrightarrow> serial \<noteq> [] \<Longrightarrow> serial_log w run tr = Inr serial"
  by (auto simp: serial_at_def serial_log_def)

lemma events_not_empty: "events serial = xs @ [Exit] \<Longrightarrow> serial \<noteq> []"
  by (auto simp: events_def map_filter_simps)

lemma pass_evidence_boot:
  assumes "pass_evidence w q run tr r"
  shows "snapshot_bound w q run tr \<and> (\<exists>serial k. serial_log w run tr = Inr serial \<and> k_transcript r = Some (parse_serial serial) \<and>
    events serial = map Stage ([0..<4] @ replicate k 3 @ [4..<18]) @ [Exit])"
proof -
  from assms obtain binding before after where b: "bind_esp w q run before = Inr binding" "r_status binding = Pass"
    "snapshot_taken w q run before" "no_copies after" "tr = before @ after"
    unfolding pass_evidence_def by blast
  from assms obtain config serial where s: "serial_at w tr (serial_path w (boot_args_of w q run config)) serial"
    "k_transcript r = Some (parse_serial serial)" "transcript_errors (parse_serial serial) = []"
    unfolding pass_evidence_def boot_evidence_def by blast
  from s(3) obtain k where k: "events serial = map Stage ([0..<4] @ replicate k 3 @ [4..<18]) @ [Exit]"
    unfolding parse_serial_events by blast
  have "serial_log w run tr = Inr serial"
    using serial_at_log [of w tr run serial] s(1) events_not_empty [OF k] by (simp add: serial_path_def boot_args_of_def)
  with bind_esp_snapshot [OF b(1-4)] b(5) s(2) k show ?thesis by blast
qed

text \<open>
  C2: A qualified boot, from the exit code of \<open>qualify\<close> to the bytes: exit code 0 means that in the directory of
  this run the four supplied files were copied to the inputs, that the ESP image among the copies opened as a
  FAT16 volume holding the copied loader, kernel and initramfs byte for byte, that nothing was copied after
  that, and that the serial log at the end of the run reads as exactly one ordered boot with its success
  exit. The run then only writes its evidence file.
\<close>

theorem qualified_boot:
  assumes "qualify w dumps q s = (Inr (0, sm), s')"
  shows "\<exists>parent run tr serial k. require_d_output w (q_evidence_parent q) = Inr parent \<and> run = run_dir w parent \<and>
    p_trace s' = tr @ [WriteText (evidence_path w run) (dumps (p_report s'))] \<and>
    snapshot_bound w q run tr \<and> serial_log w run tr = Inr serial \<and>
    k_transcript (p_report s') = Some (parse_serial serial) \<and>
    events serial = map Stage ([0..<4] @ replicate k 3 @ [4..<18]) @ [Exit]"
proof -
  obtain parent tr where e: "require_d_output w (q_evidence_parent q) = Inr parent"
    "p_trace s' = tr @ [WriteText (evidence_path w (run_dir w parent)) (dumps (p_report s'))]"
    "pass_evidence w q (run_dir w parent) tr (p_report s')"
    using qualify_pass [OF assms] by blast
  from pass_evidence_boot [OF e(3)] e(1,2) show ?thesis by blast
qed

theorem qualified_boot_witness:
  "\<exists>run tr. snapshot_bound (s_world 33 (as_text positive_lines)) s_qargs run tr"
proof -
  obtain sm s' where q: "qualify (s_world 33 (as_text positive_lines)) (\<lambda>_. []) s_qargs s_start = (Inr (0, sm), s')"
    using s_qualify [OF positive_sample_base] by blast
  from qualified_boot [OF q] show ?thesis by blast
qed

text \<open>
  C1: A qualified VM run, from the exit code of \<open>qualify_vm\<close> to the bytes: the mode is positive, the snapshot
  is taken and bound as for a boot, and the serial log at the end of the run is one complete run of the
  protocol, the bootstrap stages, both cycles of the isolation probe and the success exit, in order and
  without any other protocol line. The run then only writes its evidence file.
\<close>

theorem qualified_vm:
  assumes "qualify_vm w dumps q mode s = (Inr (0, sm), s')"
  shows "mode = POSITIVE \<and> (\<exists>parent run tr serial k. require_d_output w (q_evidence_parent q) = Inr parent \<and>
    run = vm_run_dir w parent \<and> p_trace s' = tr @ [WriteText (evidence_path w run) (dumps (p_report s'))] \<and>
    snapshot_bound w q run tr \<and> serial_log w run tr = Inr serial \<and> protocol serial = complete_run k)"
proof -
  obtain parent serial parsed tr where e: "mode = POSITIVE" "pass_evidence w q (vm_run_dir w parent) tr (p_report s')"
    "serial_at w tr (w_join w (output_dir w (vm_run_dir w parent)) (py ''serial.log'')) serial"
    "parse_vm_serial (w_repr w) serial POSITIVE = Inr parsed" "vm_errors parsed = []"
    and r: "require_d_output w (q_evidence_parent q) = Inr parent"
      "p_trace s' = tr @ [WriteText (evidence_path w (vm_run_dir w parent)) (dumps (p_report s'))]"
    using qualify_vm_pass [OF assms] by blast
  obtain k where k: "protocol serial = complete_run k" using positive_protocol [OF e(4,5)] by blast
  then have "serial \<noteq> []" by (auto simp: protocol_def map_filter_simps complete_run_def)
  with serial_at_log [OF e(3)] pass_evidence_boot [OF e(2)] e(1) k r show ?thesis by blast
qed

theorem qualified_vm_witness:
  "\<exists>run serial tr k. snapshot_bound (s_world 33 (as_text positive_lines)) s_qargs run tr \<and>
     serial_log (s_world 33 (as_text positive_lines)) run tr = Inr serial \<and> protocol serial = complete_run k"
proof -
  obtain sm s' where q: "qualify_vm (s_world 33 (as_text positive_lines)) (\<lambda>_. []) s_qargs POSITIVE s_vm_start = (Inr (0, sm), s')"
    using s_vm_positive by blast
  from qualified_vm [OF q] show ?thesis by blast
qed

end
